(* ===== verification/Prelude.thy ===== *)
theory Prelude
  imports Main "HOL-Library.Word" "HOL-Library.Monad_Syntax"
begin

text \<open>
  Shared ground of the development: the names of the machine types, the byte
  images of little-endian integers, blocks of memory with bounds-checked loads
  and stores, and the sequencing of C statements that may leave a function early.

  A C function body of the form \<open>do { ... if (bad) { ret = e; break; } ... } while (0)\<close>
  is a chain of \<open>attempt\<close>s over the frame of the function; \<open>triple\<close> is the
  Hoare triple for such chains, with one postcondition for the fall-through and one for
  the early exit.  Reading or writing outside a block, or through a null pointer, is the
  explicit outcome \<open>Undefined\<close>, so a theorem that excludes it is a memory-safety theorem.
\<close>

unbundle bit_operations_syntax

named_theorems wire_sizes "sizes and offsets of the wire structures"
named_theorems triple_rules "rules for the statements of a function body"

section \<open>Machine types\<close>

type_synonym byte = "8 word"
type_synonym u16 = "16 word"
type_synonym u32 = "32 word"
type_synonym u64 = "64 word"

section \<open>Little-endian images of integers\<close>

definition le16 :: "u16 \<Rightarrow> byte list" where
  "le16 w = [ucast w, ucast (drop_bit 8 w)]"

definition of_le16 :: "byte list \<Rightarrow> u16" where
  "of_le16 bs = (case bs of [a, b] \<Rightarrow> ucast a OR push_bit 8 (ucast b) | _ \<Rightarrow> 0)"

definition le32 :: "u32 \<Rightarrow> byte list" where
  "le32 w = [ucast w, ucast (drop_bit 8 w), ucast (drop_bit 16 w), ucast (drop_bit 24 w)]"

definition of_le32 :: "byte list \<Rightarrow> u32" where
  "of_le32 bs = (case bs of [a, b, c, d] \<Rightarrow>
      ucast a OR push_bit 8 (ucast b) OR push_bit 16 (ucast c) OR push_bit 24 (ucast d) | _ \<Rightarrow> 0)"

text \<open>
  The contract of a fixed-width encoding: what any reader of a packed structure relies on.
\<close>

locale codec =
  fixes enc :: "'a \<Rightarrow> byte list" and dec :: "byte list \<Rightarrow> 'a" and width :: nat
  assumes enc_length: "length (enc x) = width"
    and dec_enc: "dec (enc x) = x"
begin

lemma dec_prefix: "dec (take width (enc x @ post)) = x"
  by (simp add: enc_length dec_enc)

lemma dec_at: "length pre = off \<Longrightarrow> dec (take width (drop off (pre @ enc x @ post))) = x"
  by (simp add: enc_length dec_enc)

lemma enc_inject: "enc x = enc y \<longleftrightarrow> x = y"
  by (metis dec_enc)

lemma enc_append_inject: "enc x @ xs = enc y @ ys \<longleftrightarrow> x = y \<and> xs = ys"
  by (auto simp: enc_length enc_inject)

end

interpretation le16: codec le16 of_le16 2
  by unfold_locales (auto simp: le16_def of_le16_def intro!: bit_word_eqI simp: bit_simps)

lemma of_le32_le32: "of_le32 (le32 w) = w"
proof (rule bit_word_eqI)
  fix n assume "n < LENGTH(32)"
  then consider "n < 8" | "8 \<le> n" "n < 16" | "16 \<le> n" "n < 24" | "24 \<le> n" "n < 32"
    by (cases "n < 8"; cases "n < 16"; cases "n < 24") simp_all
  then show "bit (of_le32 (le32 w)) n = bit w n"
    by cases (simp_all add: of_le32_def le32_def bit_simps, arith+)
qed

interpretation le32: codec le32 of_le32 4
  by unfold_locales (simp add: le32_def, rule of_le32_le32)

lemma le16_length [simp, wire_sizes]: "length (le16 w) = 2"
  by (rule le16.enc_length)

lemma le32_length [simp, wire_sizes]: "length (le32 w) = 4"
  by (rule le32.enc_length)

section \<open>Blocks of memory\<close>

text \<open>
  \<open>load off n m\<close> and \<open>store off bs m\<close> access the bytes of one block; \<open>None\<close> is an
  access outside it.
\<close>

definition load :: "nat \<Rightarrow> nat \<Rightarrow> byte list \<Rightarrow> byte list option" where
  "load off n m = (if off + n \<le> length m then Some (take n (drop off m)) else None)"

definition store :: "nat \<Rightarrow> byte list \<Rightarrow> byte list \<Rightarrow> byte list option" where
  "store off bs m =
     (if off + length bs \<le> length m
      then Some (take off m @ bs @ drop (off + length bs) m) else None)"

lemma store_fill:
  assumes "length pre = off" "length old = length bs"
  shows "store off bs (pre @ old @ post) = Some (pre @ bs @ post)"
  using assms by (simp add: store_def)

lemma store_length: "store off bs m = Some m' \<Longrightarrow> length m' = length m"
  by (auto simp: store_def split: if_splits)

lemma load_segment:
  assumes "length pre = off" "length seg = n"
  shows "load off n (pre @ seg @ post) = Some seg"
  using assms by (simp add: load_def)

section \<open>Statements that may leave the function early\<close>

text \<open>
  \<open>Undefined\<close> is undefined behaviour of C (an access outside a block, a null
  dereference, an uninitialised pointer).  Inside a function body a chain of statements
  stops with \<open>Break ret\<close> (the code's \<open>ret = ...; break;\<close> or \<open>goto CLEANUP\<close>) or with
  \<open>Fault\<close>, which becomes the \<open>Undefined\<close> result of the whole function.
\<close>

datatype ub = Undefined

datatype stop = Break int | Fault

definition ok :: "'a \<Rightarrow> 's \<Rightarrow> ('e + 'a) \<times> 's" where
  "ok a s = (Inr a, s)"

definition leave :: "'e \<Rightarrow> 's \<Rightarrow> ('e + 'a) \<times> 's" where
  "leave e s = (Inl e, s)"

definition attempt ::
  "('s \<Rightarrow> ('e + 'a) \<times> 's) \<Rightarrow> ('a \<Rightarrow> 's \<Rightarrow> ('e + 'b) \<times> 's) \<Rightarrow> 's \<Rightarrow> ('e + 'b) \<times> 's" where
  "attempt m k s = (case m s of (Inl e, t) \<Rightarrow> (Inl e, t) | (Inr a, t) \<Rightarrow> k a t)"

text \<open>\<open>check c e\<close> is \<open>if (!c) { ret = e; break; }\<close>.\<close>

definition check :: "bool \<Rightarrow> 'e \<Rightarrow> 's \<Rightarrow> ('e + unit) \<times> 's" where
  "check c e s = (if c then (Inr (), s) else (Inl e, s))"

definition triple ::
  "('s \<Rightarrow> bool) \<Rightarrow> ('s \<Rightarrow> ('e + 'a) \<times> 's) \<Rightarrow> ('a \<Rightarrow> 's \<Rightarrow> bool) \<Rightarrow> ('e \<Rightarrow> 's \<Rightarrow> bool) \<Rightarrow> bool" where
  "triple P m Q E \<longleftrightarrow>
     (\<forall>s. P s \<longrightarrow> (case m s of (Inl e, t) \<Rightarrow> E e t | (Inr a, t) \<Rightarrow> Q a t))"

lemma triple_ok [triple_rules]: "(\<And>s. P s \<Longrightarrow> Q a s) \<Longrightarrow> triple P (ok a) Q E"
  by (simp add: triple_def ok_def)

lemma triple_leave [triple_rules]: "(\<And>s. P s \<Longrightarrow> E e s) \<Longrightarrow> triple P (leave e) Q E"
  by (simp add: triple_def leave_def)

lemma triple_attempt [triple_rules]:
  assumes "triple P m R E" and "\<And>a. triple (R a) (k a) Q E"
  shows "triple P (attempt m k) Q E"
  unfolding triple_def
proof (intro allI impI)
  fix s assume "P s"
  with assms(1) have 1: "case m s of (Inl e, t) \<Rightarrow> E e t | (Inr a, t) \<Rightarrow> R a t"
    by (simp add: triple_def)
  show "case attempt m k s of (Inl e, t) \<Rightarrow> E e t | (Inr a, t) \<Rightarrow> Q a t"
  proof (cases "m s")
    case (Pair r t)
    with 1 assms(2) show ?thesis
      by (cases r) (simp_all add: attempt_def triple_def)
  qed
qed

lemma triple_check [triple_rules]:
  "(\<And>s. P s \<Longrightarrow> c \<Longrightarrow> Q () s) \<Longrightarrow> (\<And>s. P s \<Longrightarrow> \<not> c \<Longrightarrow> E e s) \<Longrightarrow> triple P (check c e) Q E"
  by (simp add: triple_def check_def)

lemma triple_weaken:
  assumes "triple P' m Q' E'" and "\<And>s. P s \<Longrightarrow> P' s"
    and "\<And>a s. Q' a s \<Longrightarrow> Q a s" and "\<And>e s. E' e s \<Longrightarrow> E e s"
  shows "triple P m Q E"
  using assms by (fastforce simp: triple_def split: prod.splits sum.splits)

text \<open>Fix the start state, to relate the end of a chain to its beginning.\<close>

lemma triple_from:
  assumes "\<And>s0. P s0 \<Longrightarrow> triple (\<lambda>s. s = s0) m Q E"
  shows "triple P m Q E"
  using assms by (auto simp: triple_def)

lemma triple_assume:
  assumes "\<And>s. P s \<Longrightarrow> c" and "c \<Longrightarrow> triple P m Q E"
  shows "triple P m Q E"
  using assms by (auto simp: triple_def)

lemma tripleD:
  assumes "triple P m Q E" and "P s"
  shows "(\<exists>e t. m s = (Inl e, t) \<and> E e t) \<or> (\<exists>a t. m s = (Inr a, t) \<and> Q a t)"
proof (cases "m s")
  case (Pair r t)
  with assms show ?thesis by (cases r) (auto simp: triple_def)
qed

lemma attempt_Inr_iff:
  "attempt m k s = (Inr b, u) \<longleftrightarrow> (\<exists>a t. m s = (Inr a, t) \<and> k a t = (Inr b, u))"
  by (auto simp: attempt_def split: prod.splits sum.splits)

lemma attempt_Inl_iff:
  "attempt m k s = (Inl e, u) \<longleftrightarrow>
     m s = (Inl e, u) \<or> (\<exists>a t. m s = (Inr a, t) \<and> k a t = (Inl e, u))"
  by (auto simp: attempt_def split: prod.splits sum.splits)

text \<open>Statements over one part of a frame, and accesses that may be undefined.\<close>

definition on_part ::
  "('s \<Rightarrow> 'p) \<Rightarrow> ('p \<Rightarrow> 's \<Rightarrow> 's) \<Rightarrow> ('p \<Rightarrow> 'a \<times> 'p) \<Rightarrow> 's \<Rightarrow> ('e + 'a) \<times> 's" where
  "on_part get put f s = (case f (get s) of (a, p) \<Rightarrow> (Inr a, put p s))"

definition defined :: "'a option \<Rightarrow> 's \<Rightarrow> (stop + 'a) \<times> 's" where
  "defined x s = (case x of None \<Rightarrow> (Inl Fault, s) | Some a \<Rightarrow> (Inr a, s))"

definition modify :: "('s \<Rightarrow> 's) \<Rightarrow> 's \<Rightarrow> ('e + unit) \<times> 's" where
  "modify f s = (Inr (), f s)"

definition reads :: "('s \<Rightarrow> 'a) \<Rightarrow> 's \<Rightarrow> ('e + 'a) \<times> 's" where
  "reads f s = (Inr (f s), s)"

lemma triple_on_part [triple_rules]:
  "(\<And>s a p. P s \<Longrightarrow> f (get s) = (a, p) \<Longrightarrow> Q a (put p s)) \<Longrightarrow> triple P (on_part get put f) Q E"
  by (auto simp: triple_def on_part_def split: prod.splits)

lemma triple_defined [triple_rules]:
  "(\<And>s a. P s \<Longrightarrow> x = Some a \<Longrightarrow> Q a s) \<Longrightarrow> (\<And>s. P s \<Longrightarrow> x = None \<Longrightarrow> E Fault s) \<Longrightarrow>
   triple P (defined x) Q E"
  by (auto simp: triple_def defined_def split: option.splits)

lemma triple_modify [triple_rules]: "(\<And>s. P s \<Longrightarrow> Q () (f s)) \<Longrightarrow> triple P (modify f) Q E"
  by (simp add: triple_def modify_def)

lemma triple_reads [triple_rules]: "(\<And>s. P s \<Longrightarrow> Q (f s) s) \<Longrightarrow> triple P (reads f) Q E"
  by (simp add: triple_def reads_def)

lemma attempt_run_Inr [simp]: "m s = (Inr a, t) \<Longrightarrow> attempt m k s = k a t"
  by (simp add: attempt_def)

lemma attempt_run_Inl [simp]: "m s = (Inl e, t) \<Longrightarrow> attempt m k s = (Inl e, t)"
  by (simp add: attempt_def)

section \<open>Decimal output\<close>

definition newline :: string where "newline = [CHR 0x0A]"

fun dec_digits :: "nat \<Rightarrow> string" where
  "dec_digits n = (if n < 10 then [char_of (48 + n)] else dec_digits (n div 10) @ [char_of (48 + n mod 10)])"

declare dec_digits.simps [simp del]

text \<open>\<open>%d\<close>.\<close>

definition dec_int :: "int \<Rightarrow> string" where
  "dec_int n = (if n < 0 then ''-'' @ dec_digits (nat (- n)) else dec_digits (nat n))"

end
