(* ===== verification/Crypto_Api.thy ===== *)
theory Crypto_Api
  imports Prelude
begin

text \<open>
  The interface of \<open>sample_libcrypto\<close> as the service provider uses it.  The library is a
  binary (\<open>libsample_libcrypto.so\<close>) and so a parameter of the model: a record of functions
  that thread an arbitrary world \<open>'w\<close>, so that a call may fail, draw randomness or exhaust
  memory differently each time.  What the service provider relies on is stated as named laws:
  \<open>cmac_law\<close> and \<open>sha_law\<close> (a successful call computes a fixed function of its input),
  \<open>sizes_law\<close> (output buffers have the size their C type fixes) and \<open>heap_law\<close>,
  \<open>ecc_law\<close> (blocks and ECC contexts are counted).

  The record also holds what else the platform decides: \<open>malloc\<close> and \<open>free\<close>, and for two accesses
  that ISO C leaves undefined whether the platform defines them.  \<open>misaligned_store\<close>: a store
  through a pointer that is not aligned for its type goes through; \<open>null_memcpy\<close>: copying 0 bytes
  from a null pointer does nothing.  gcc for x86-64 with glibc, what the makefiles build with,
  behaves so (\<open>platform_law\<close>); on other platforms the model takes such an access as undefined.
\<close>

datatype sample_status_t =
    SAMPLE_SUCCESS
  | SAMPLE_ERROR_UNEXPECTED
  | SAMPLE_ERROR_INVALID_PARAMETER
  | SAMPLE_ERROR_OUT_OF_MEMORY

text \<open>Sizes of the buffers of \<open>sample_libcrypto.h\<close>.\<close>

definition SAMPLE_SHA256_HASH_SIZE :: nat where [wire_sizes]: "SAMPLE_SHA256_HASH_SIZE = 32"
definition SAMPLE_ECP256_KEY_SIZE :: nat where [wire_sizes]: "SAMPLE_ECP256_KEY_SIZE = 32"
definition SAMPLE_CMAC_MAC_SIZE :: nat where [wire_sizes]: "SAMPLE_CMAC_MAC_SIZE = 16"

text \<open>An ECC context handle: \<open>None\<close> is the null pointer.\<close>

type_synonym ecc_handle = "nat option"

record 'w libcrypto =
  cmac_msg :: "byte list \<Rightarrow> byte list \<Rightarrow> 'w \<Rightarrow> (sample_status_t \<times> byte list) \<times> 'w"
  ecc256_open_context :: "'w \<Rightarrow> (sample_status_t \<times> ecc_handle) \<times> 'w"
  ecc256_close_context :: "ecc_handle \<Rightarrow> 'w \<Rightarrow> 'w"
  ecc256_create_key_pair ::
    "ecc_handle \<Rightarrow> 'w \<Rightarrow> (sample_status_t \<times> byte list \<times> byte list) \<times> 'w"
  ecc256_compute_shared_dhkey ::
    "byte list \<Rightarrow> byte list \<Rightarrow> ecc_handle \<Rightarrow> 'w \<Rightarrow> (sample_status_t \<times> byte list) \<times> 'w"
  ecdsa_sign ::
    "byte list \<Rightarrow> byte list \<Rightarrow> ecc_handle \<Rightarrow> 'w \<Rightarrow> (sample_status_t \<times> byte list) \<times> 'w"
  malloc :: "nat \<Rightarrow> 'w \<Rightarrow> bool \<times> 'w"
  free_block :: "'w \<Rightarrow> 'w"
  misaligned_store :: bool
  null_memcpy :: bool

definition platform_law :: "'w libcrypto \<Rightarrow> bool" where
  "platform_law L \<longleftrightarrow> misaligned_store L \<and> null_memcpy L"

text \<open>The SHA-256 functions, for any status type: both sides of the protocol use such a set.\<close>

record ('st, 'w) sha_api =
  sha_init :: "'w \<Rightarrow> ('st \<times> nat) \<times> 'w"
  sha_update :: "byte list \<Rightarrow> nat \<Rightarrow> 'w \<Rightarrow> 'st \<times> 'w"
  sha_get_hash :: "nat \<Rightarrow> 'w \<Rightarrow> ('st \<times> byte list) \<times> 'w"
  sha_close :: "nat \<Rightarrow> 'w \<Rightarrow> 'st \<times> 'w"

section \<open>Documented laws\<close>

definition cmac_law :: "'w libcrypto \<Rightarrow> (byte list \<Rightarrow> byte list \<Rightarrow> byte list) \<Rightarrow> bool" where
  "cmac_law L C \<longleftrightarrow>
     (\<forall>k d w tag w'. cmac_msg L k d w = ((SAMPLE_SUCCESS, tag), w') \<longrightarrow> tag = C k d)"

text \<open>The shared key is a function of the two keys; a signature is valid for key and data.\<close>

definition dh_law :: "'w libcrypto \<Rightarrow> (byte list \<Rightarrow> byte list \<Rightarrow> byte list) \<Rightarrow> bool" where
  "dh_law L D \<longleftrightarrow>
     (\<forall>priv pub h w dh w'. ecc256_compute_shared_dhkey L priv pub h w = ((SAMPLE_SUCCESS, dh), w') \<longrightarrow>
        dh = D priv pub)"

definition sign_law :: "'w libcrypto \<Rightarrow> (byte list \<Rightarrow> byte list \<Rightarrow> byte list \<Rightarrow> bool) \<Rightarrow> bool" where
  "sign_law L V \<longleftrightarrow>
     (\<forall>d priv h w sig w'. ecdsa_sign L d priv h w = ((SAMPLE_SUCCESS, sig), w') \<longrightarrow> V priv d sig)"

text \<open>
  A generated public key is a function of the private one, and two parties that exchange their
  public keys compute the same shared key, of the size of a coordinate.
\<close>

definition key_pair_law :: "'w libcrypto \<Rightarrow> (byte list \<Rightarrow> byte list) \<Rightarrow> bool" where
  "key_pair_law L P \<longleftrightarrow>
     (\<forall>h w priv pub w'. ecc256_create_key_pair L h w = ((SAMPLE_SUCCESS, priv, pub), w') \<longrightarrow> pub = P priv)"

definition dh_agrees :: "(byte list \<Rightarrow> byte list \<Rightarrow> byte list) \<Rightarrow> (byte list \<Rightarrow> byte list) \<Rightarrow> bool" where
  "dh_agrees D P \<longleftrightarrow> (\<forall>a b. D a (P b) = D b (P a)) \<and> (\<forall>a g. length (D a g) = SAMPLE_ECP256_KEY_SIZE)"

definition sizes_law :: "'w libcrypto \<Rightarrow> bool" where
  "sizes_law L \<longleftrightarrow>
     (\<forall>k d w. length (snd (fst (cmac_msg L k d w))) = SAMPLE_CMAC_MAC_SIZE) \<and>
     (\<forall>h w. length (fst (snd (fst (ecc256_create_key_pair L h w)))) = SAMPLE_ECP256_KEY_SIZE) \<and>
     (\<forall>h w. length (snd (snd (fst (ecc256_create_key_pair L h w)))) = 2 * SAMPLE_ECP256_KEY_SIZE) \<and>
     (\<forall>k p h w. length (snd (fst (ecc256_compute_shared_dhkey L k p h w))) = SAMPLE_ECP256_KEY_SIZE) \<and>
     (\<forall>d k h w. length (snd (fst (ecdsa_sign L d k h w))) = 2 * SAMPLE_ECP256_KEY_SIZE)"

definition heap_law :: "'w libcrypto \<Rightarrow> ('w \<Rightarrow> nat) \<Rightarrow> bool" where
  "heap_law L blocks \<longleftrightarrow>
     (\<forall>n w got w'. malloc L n w = (got, w') \<longrightarrow> blocks w' = (if got then Suc (blocks w) else blocks w)) \<and>
     (\<forall>w. blocks (free_block L w) = blocks w - 1) \<and>
     (\<forall>k d w. blocks (snd (cmac_msg L k d w)) = blocks w) \<and>
     (\<forall>w. blocks (snd (ecc256_open_context L w)) = blocks w) \<and>
     (\<forall>h w. blocks (ecc256_close_context L h w) = blocks w) \<and>
     (\<forall>h w. blocks (snd (ecc256_create_key_pair L h w)) = blocks w) \<and>
     (\<forall>k p h w. blocks (snd (ecc256_compute_shared_dhkey L k p h w)) = blocks w) \<and>
     (\<forall>d k h w. blocks (snd (ecdsa_sign L d k h w)) = blocks w)"

definition ecc_law :: "'w libcrypto \<Rightarrow> ('w \<Rightarrow> nat) \<Rightarrow> bool" where
  "ecc_law L ctxs \<longleftrightarrow>
     (\<forall>w st h w'. ecc256_open_context L w = ((st, h), w') \<longrightarrow>
        ctxs w' = (if h = None then ctxs w else Suc (ctxs w))) \<and>
     (\<forall>h w. ctxs (ecc256_close_context L h w) = (if h = None then ctxs w else ctxs w - 1)) \<and>
     (\<forall>n w. ctxs (snd (malloc L n w)) = ctxs w) \<and>
     (\<forall>w. ctxs (free_block L w) = ctxs w) \<and>
     (\<forall>k d w. ctxs (snd (cmac_msg L k d w)) = ctxs w) \<and>
     (\<forall>h w. ctxs (snd (ecc256_create_key_pair L h w)) = ctxs w) \<and>
     (\<forall>k p h w. ctxs (snd (ecc256_compute_shared_dhkey L k p h w)) = ctxs w) \<and>
     (\<forall>d k h w. ctxs (snd (ecdsa_sign L d k h w)) = ctxs w)"

text \<open>
  \<open>absorbed w h\<close> is what has been fed into context \<open>h\<close>; a hash is a fixed function of it.
\<close>

definition sha_law ::
  "('st, 'w) sha_api \<Rightarrow> 'st \<Rightarrow> ('w \<Rightarrow> nat \<Rightarrow> byte list) \<Rightarrow> (byte list \<Rightarrow> byte list) \<Rightarrow> bool" where
  "sha_law A succ absorbed H \<longleftrightarrow>
     (\<forall>w st h w'. sha_init A w = ((st, h), w') \<longrightarrow> st = succ \<longrightarrow> absorbed w' h = []) \<and>
     (\<forall>d h w st w'. sha_update A d h w = (st, w') \<longrightarrow> st = succ \<longrightarrow>
        absorbed w' h = absorbed w h @ d) \<and>
     (\<forall>h w st out w'. sha_get_hash A h w = ((st, out), w') \<longrightarrow> st = succ \<longrightarrow>
        out = H (absorbed w h))"

text \<open>Contexts are opened by a successful \<open>init\<close> and released by \<open>close\<close>.\<close>

definition sha_ctx_law :: "('st, 'w) sha_api \<Rightarrow> 'st \<Rightarrow> ('w \<Rightarrow> nat) \<Rightarrow> bool" where
  "sha_ctx_law A succ ctxs \<longleftrightarrow>
     (\<forall>w st h w'. sha_init A w = ((st, h), w') \<longrightarrow>
        ctxs w' = (if st = succ then Suc (ctxs w) else ctxs w)) \<and>
     (\<forall>d h w. ctxs (snd (sha_update A d h w)) = ctxs w) \<and>
     (\<forall>h w. ctxs (snd (sha_get_hash A h w)) = ctxs w) \<and>
     (\<forall>h w. ctxs (snd (sha_close A h w)) = ctxs w - 1)"

text \<open>A counter the SHA functions leave alone (heap blocks, ECC contexts).\<close>

definition sha_keeps :: "('st, 'w) sha_api \<Rightarrow> ('w \<Rightarrow> nat) \<Rightarrow> bool" where
  "sha_keeps A c \<longleftrightarrow>
     (\<forall>w. c (snd (sha_init A w)) = c w) \<and> (\<forall>d h w. c (snd (sha_update A d h w)) = c w) \<and>
     (\<forall>h w. c (snd (sha_get_hash A h w)) = c w) \<and> (\<forall>h w. c (snd (sha_close A h w)) = c w)"

lemma sha_keepsD:
  assumes "sha_keeps A c"
  shows "sha_init A w = (r1, w') \<Longrightarrow> c w' = c w" "sha_update A d h w = (r2, w') \<Longrightarrow> c w' = c w"
    "sha_get_hash A h w = (r3, w') \<Longrightarrow> c w' = c w" "sha_close A h w = (r4, w') \<Longrightarrow> c w' = c w"
  using assms unfolding sha_keeps_def by (metis snd_conv)+

lemma cmac_lawD:
  "cmac_law L C \<Longrightarrow> cmac_msg L k d w = ((SAMPLE_SUCCESS, tag), w') \<Longrightarrow> tag = C k d"
  unfolding cmac_law_def by blast

lemma dh_lawD:
  "dh_law L D \<Longrightarrow> ecc256_compute_shared_dhkey L priv pub h w = ((SAMPLE_SUCCESS, dh), w') \<Longrightarrow>
   dh = D priv pub"
  unfolding dh_law_def by blast

lemma sign_lawD:
  "sign_law L V \<Longrightarrow> ecdsa_sign L d priv h w = ((SAMPLE_SUCCESS, sig), w') \<Longrightarrow> V priv d sig"
  unfolding sign_law_def by blast

lemma key_pair_lawD:
  "key_pair_law L P \<Longrightarrow> ecc256_create_key_pair L h w = ((SAMPLE_SUCCESS, priv, pub), w') \<Longrightarrow> pub = P priv"
  unfolding key_pair_law_def by blast

lemma sizes_lawD:
  assumes "sizes_law L"
  shows cmac_size: "cmac_msg L k d w = ((st, tag), w') \<Longrightarrow> length tag = 16"
    and key_pair_priv_size: "ecc256_create_key_pair L h w = ((st, priv, pub), w') \<Longrightarrow> length priv = 32"
    and key_pair_pub_size: "ecc256_create_key_pair L h w = ((st, priv, pub), w') \<Longrightarrow> length pub = 64"
    and dh_size: "ecc256_compute_shared_dhkey L priv pub h w = ((st, dh), w') \<Longrightarrow> length dh = 32"
    and sign_size: "ecdsa_sign L d priv h w = ((st, sig), w') \<Longrightarrow> length sig = 64"
proof -
  show "cmac_msg L k d w = ((st, tag), w') \<Longrightarrow> length tag = 16"
    using assms by (metis sizes_law_def SAMPLE_CMAC_MAC_SIZE_def fst_conv snd_conv)
  show "ecc256_create_key_pair L h w = ((st, priv, pub), w') \<Longrightarrow> length priv = 32"
    using assms by (metis sizes_law_def SAMPLE_ECP256_KEY_SIZE_def fst_conv snd_conv)
  have k64: "2 * SAMPLE_ECP256_KEY_SIZE = 64"
    by (simp add: wire_sizes)
  show "ecc256_create_key_pair L h w = ((st, priv, pub), w') \<Longrightarrow> length pub = 64"
    using assms by (metis sizes_law_def k64 fst_conv snd_conv)
  show "ecc256_compute_shared_dhkey L priv pub h w = ((st, dh), w') \<Longrightarrow> length dh = 32"
    using assms by (metis sizes_law_def SAMPLE_ECP256_KEY_SIZE_def fst_conv snd_conv)
  show "ecdsa_sign L d priv h w = ((st, sig), w') \<Longrightarrow> length sig = 64"
    using assms by (metis sizes_law_def k64 fst_conv snd_conv)
qed

lemma heap_lawD:
  assumes "heap_law L blocks"
  shows heap_malloc: "malloc L n w = (got, w') \<Longrightarrow> blocks w' = (if got then Suc (blocks w) else blocks w)"
    and heap_free [simp]: "blocks (free_block L w) = blocks w - 1"
    and heap_cmac: "cmac_msg L k d w = (r1, w') \<Longrightarrow> blocks w' = blocks w"
    and heap_open: "ecc256_open_context L w = (r2, w') \<Longrightarrow> blocks w' = blocks w"
    and heap_close [simp]: "blocks (ecc256_close_context L h w) = blocks w"
    and heap_key_pair: "ecc256_create_key_pair L h w = (r3, w') \<Longrightarrow> blocks w' = blocks w"
    and heap_dh: "ecc256_compute_shared_dhkey L k p h w = (r4, w') \<Longrightarrow> blocks w' = blocks w"
    and heap_sign: "ecdsa_sign L d k h w = (r5, w') \<Longrightarrow> blocks w' = blocks w"
  using assms unfolding heap_law_def by (metis snd_conv)+

lemma ecc_lawD:
  assumes "ecc_law L ctxs"
  shows ecc_open: "ecc256_open_context L w = ((st, h), w') \<Longrightarrow>
      ctxs w' = (if h = None then ctxs w else Suc (ctxs w))"
    and ecc_close [simp]: "ctxs (ecc256_close_context L h w) = (if h = None then ctxs w else ctxs w - 1)"
    and ecc_malloc: "malloc L n w = (got, w') \<Longrightarrow> ctxs w' = ctxs w"
    and ecc_free [simp]: "ctxs (free_block L w) = ctxs w"
    and ecc_cmac: "cmac_msg L k d w = (r1, w') \<Longrightarrow> ctxs w' = ctxs w"
    and ecc_key_pair: "ecc256_create_key_pair L h w = (r3, w') \<Longrightarrow> ctxs w' = ctxs w"
    and ecc_dh: "ecc256_compute_shared_dhkey L k p h w = (r4, w') \<Longrightarrow> ctxs w' = ctxs w"
    and ecc_sign: "ecdsa_sign L d k h w = (r5, w') \<Longrightarrow> ctxs w' = ctxs w"
  using assms unfolding ecc_law_def by (metis snd_conv)+

lemma sha_lawD:
  assumes "sha_law A succ absorbed H"
  shows sha_init_law: "sha_init A w = ((st, h), w') \<Longrightarrow> st = succ \<Longrightarrow> absorbed w' h = []"
    and sha_update_law: "sha_update A d h w = (st, w') \<Longrightarrow> st = succ \<Longrightarrow>
      absorbed w' h = absorbed w h @ d"
    and sha_hash_law: "sha_get_hash A h w = ((st, out), w') \<Longrightarrow> st = succ \<Longrightarrow>
      out = H (absorbed w h)"
  using assms unfolding sha_law_def by blast+

lemma sha_three_updates:
  assumes "sha_law A succ absorbed H" "sha_init A w = ((succ, h), w0)"
    and "sha_update A d1 h w0 = (succ, w1)" "sha_update A d2 h w1 = (succ, w2)"
    and "sha_update A d3 h w2 = (succ, w3)" "sha_get_hash A h w3 = ((succ, out), w4)"
  shows "out = H (d1 @ d2 @ d3)"
proof -
  have "absorbed w0 h = []" using sha_init_law [OF assms(1,2)] by simp
  then have "absorbed w1 h = d1" using sha_update_law [OF assms(1,3)] by simp
  then have "absorbed w2 h = d1 @ d2" using sha_update_law [OF assms(1,4)] by simp
  then have "absorbed w3 h = d1 @ d2 @ d3" using sha_update_law [OF assms(1,5)] by simp
  then show ?thesis using sha_hash_law [OF assms(1,6)] by simp
qed

lemma sha_ctx_lawD:
  assumes "sha_ctx_law A succ ctxs"
  shows sha_ctx_init: "sha_init A w = ((st, h), w') \<Longrightarrow>
      ctxs w' = (if st = succ then Suc (ctxs w) else ctxs w)"
    and sha_ctx_update: "sha_update A d h w = (r1, w') \<Longrightarrow> ctxs w' = ctxs w"
    and sha_ctx_hash: "sha_get_hash A h w = (r2, w') \<Longrightarrow> ctxs w' = ctxs w"
    and sha_ctx_close: "sha_close A h w = (r3, w') \<Longrightarrow> ctxs w' = ctxs w - 1"
  using assms unfolding sha_ctx_law_def by (metis snd_conv)+

end
