(* ===== verification/Example_Platform.thy ===== *)
theory Example_Platform
  imports Crypto_Api
begin

text \<open>
  A concrete instance of the libraries, used only by the witnesses: every call succeeds,
  the world counts live blocks and ECC contexts and holds what the one SHA context has
  absorbed.  It shows that the documented laws can hold together and evaluates in the kernel.
\<close>

record example_world =
  live_blocks :: nat
  live_ctxs :: nat
  sha_ctxs :: nat
  sha_data :: "byte list"

definition world0 :: example_world where
  "world0 = \<lparr>live_blocks = 0, live_ctxs = 0, sha_ctxs = 0, sha_data = []\<rparr>"

definition example_cmac :: "byte list \<Rightarrow> byte list \<Rightarrow> byte list" where
  "example_cmac k d = take 16 (rev d @ k @ replicate 16 0)"

definition example_hash :: "byte list \<Rightarrow> byte list" where
  "example_hash d = take 32 (d @ replicate 32 0)"

text \<open>Key agreement with addition as the group: a public key repeats the private one.\<close>

definition example_pub :: "byte list \<Rightarrow> byte list" where
  "example_pub priv = priv @ priv"

definition example_dh :: "byte list \<Rightarrow> byte list \<Rightarrow> byte list" where
  "example_dh priv pub = take 32 (map2 (+) priv (take (length pub div 2) pub) @ replicate 32 0)"

definition example_lib :: "example_world libcrypto" where
  "example_lib =
     \<lparr>cmac_msg = (\<lambda>k d w. ((SAMPLE_SUCCESS, example_cmac k d), w)),
      ecc256_open_context = (\<lambda>w. ((SAMPLE_SUCCESS, Some 1), w\<lparr>live_ctxs := Suc (live_ctxs w)\<rparr>)),
      ecc256_close_context = (\<lambda>h w. if h = None then w else w\<lparr>live_ctxs := live_ctxs w - 1\<rparr>),
      ecc256_create_key_pair = (\<lambda>h w. ((SAMPLE_SUCCESS, replicate 32 7, replicate 64 7), w)),
      ecc256_compute_shared_dhkey = (\<lambda>k p h w. ((SAMPLE_SUCCESS, example_dh k p), w)),
      ecdsa_sign = (\<lambda>d k h w. ((SAMPLE_SUCCESS, take 64 (k @ d @ replicate 64 3)), w)),
      malloc = (\<lambda>n w. (True, w\<lparr>live_blocks := Suc (live_blocks w)\<rparr>)),
      free_block = (\<lambda>w. w\<lparr>live_blocks := live_blocks w - 1\<rparr>),
      misaligned_store = True, null_memcpy = True\<rparr>"

definition example_sha :: "'st \<Rightarrow> ('st, example_world) sha_api" where
  "example_sha succ =
     \<lparr>sha_init = (\<lambda>w. ((succ, 1), w\<lparr>sha_ctxs := Suc (sha_ctxs w), sha_data := []\<rparr>)),
      sha_update = (\<lambda>d h w. (succ, w\<lparr>sha_data := sha_data w @ d\<rparr>)),
      sha_get_hash = (\<lambda>h w. ((succ, example_hash (sha_data w)), w)),
      sha_close = (\<lambda>h w. (succ, w\<lparr>sha_ctxs := sha_ctxs w - 1\<rparr>))\<rparr>"

lemma example_platform_law: "platform_law example_lib"
  by (simp add: platform_law_def example_lib_def)

lemma example_cmac_law: "cmac_law example_lib example_cmac"
  by (simp add: cmac_law_def example_lib_def)

lemma example_sizes_law: "sizes_law example_lib"
  by (simp add: sizes_law_def example_lib_def example_cmac_def example_dh_def wire_sizes) (simp add: min_def)

lemma example_heap_law: "heap_law example_lib live_blocks"
  by (simp add: heap_law_def example_lib_def)

lemma example_ecc_law: "ecc_law example_lib live_ctxs"
  by (simp add: ecc_law_def example_lib_def)

lemma example_sha_law: "sha_law (example_sha succ) succ (\<lambda>w h. sha_data w) example_hash"
  by (auto simp: sha_law_def example_sha_def)

lemma example_sha_ctx_law: "sha_ctx_law (example_sha succ) succ sha_ctxs"
  by (simp add: sha_ctx_law_def example_sha_def)

definition example_valid :: "byte list \<Rightarrow> byte list \<Rightarrow> byte list \<Rightarrow> bool" where
  "example_valid priv d sig \<longleftrightarrow> sig = take 64 (priv @ d @ replicate 64 3)"

lemma example_dh_law: "dh_law example_lib example_dh"
  by (simp add: dh_law_def example_lib_def)

lemma example_agrees: "dh_agrees example_dh example_pub"
proof -
  have "map2 (+) a b = map2 (+) b a" for a b :: "byte list"
    by (rule nth_equalityI) (simp_all add: add.commute)
  moreover have "length (example_dh a g) = 32" for a g by (simp add: example_dh_def)
  ultimately show ?thesis by (simp add: dh_agrees_def wire_sizes) (simp add: example_dh_def example_pub_def)
qed

lemma example_key_pair_law: "key_pair_law example_lib example_pub"
  by (simp add: key_pair_law_def example_lib_def example_pub_def flip: replicate_add)

lemma example_sign_law: "sign_law example_lib example_valid"
  by (simp add: sign_law_def example_lib_def example_valid_def)

lemma example_sha_keeps: "sha_keeps (example_sha succ) live_blocks" "sha_keeps (example_sha succ) live_ctxs"
  by (simp_all add: sha_keeps_def example_sha_def)

lemma example_hash_length: "length (example_hash d) = 32"
  by (simp add: example_hash_def)

end
