(* ===== verification/Ecp.thy ===== *)
theory Ecp
  imports Example_Platform
begin

text \<open>
  \<open>service_provider/ecp.cpp\<close>: the bounds-checked copy \<open>memcpy_s\<close>, the MAC check
  \<open>verify_cmac128\<close> and both key derivations, the default one from AES-CMAC and the one
  compiled with \<open>SUPPLIED_KEY_DERIVATION\<close> from SHA-256.
\<close>

definition SAMPLE_ECP_KEY_SIZE :: nat where [wire_sizes]: "SAMPLE_ECP_KEY_SIZE = 256 div 8"
definition SAMPLE_EC_MAC_SIZE :: nat where [wire_sizes]: "SAMPLE_EC_MAC_SIZE = 16"
definition MAC_KEY_SIZE :: nat where [wire_sizes]: "MAC_KEY_SIZE = 16"

section \<open>The copy\<close>

text \<open>
  \<open>memcpy_s off n src count m\<close> copies \<open>count\<close> bytes of \<open>src\<close> to offset \<open>off\<close> of
  block \<open>m\<close>, where \<open>n\<close> is the capacity the caller claims.  The result is the error
  number and the block; \<open>None\<close> where the underlying \<open>memcpy\<close> leaves a block.
\<close>

definition memcpy_s ::
  "nat \<Rightarrow> nat \<Rightarrow> byte list \<Rightarrow> nat \<Rightarrow> byte list \<Rightarrow> (int \<times> byte list) option" where
  "memcpy_s off numberOfElements src count m =
     (if numberOfElements < count then Some (-1, m)
      else do {
        bs \<leftarrow> load 0 count src;
        m' \<leftarrow> store off bs m;
        Some (0, m')
      })"

lemma memcpy_s_fits:
  assumes "length pre = off" "length old = length src" "length src \<le> n"
  shows "memcpy_s off n src (length src) (pre @ old @ post) = Some (0, pre @ src @ post)"
  using assms by (simp add: memcpy_s_def load_def store_def)

lemma memcpy_s_whole:
  assumes "length src = n" "length old = n"
  shows "memcpy_s 0 n src n old = Some (0, src)"
  using assms memcpy_s_fits [of "[]" 0 old src n "[]"] by simp

lemma memcpy_s_defined:
  assumes "off + n \<le> length m" "count \<le> length src"
  shows "memcpy_s off n src count m =
    Some (if n < count then (-1, m) else (0, take off m @ take count src @ drop (off + count) m))"
  using assms by (auto simp: memcpy_s_def load_def store_def min_def)

section \<open>The MAC check\<close>

definition verify_cmac128 ::
  "'w libcrypto \<Rightarrow> byte list \<Rightarrow> byte list \<Rightarrow> u32 \<Rightarrow> byte list \<Rightarrow> 'w \<Rightarrow> (ub + bool) \<times> 'w" where
  "verify_cmac128 L mac_key p_data_buf buf_size p_mac_buf w =
     (case load 0 (unat buf_size) p_data_buf of
        None \<Rightarrow> (Inl Undefined, w)
      | Some data \<Rightarrow>
          (case cmac_msg L mac_key data w of ((sample_ret, data_mac), w1) \<Rightarrow>
             if sample_ret \<noteq> SAMPLE_SUCCESS then (Inr False, w1)
             else (case (load 0 SAMPLE_EC_MAC_SIZE p_mac_buf, load 0 SAMPLE_EC_MAC_SIZE data_mac) of
                     (Some a, Some b) \<Rightarrow> (Inr (a = b), w1)
                   | _ \<Rightarrow> (Inl Undefined, w1))))"

section \<open>Key derivation from AES-CMAC\<close>

definition bytes_of_string :: "string \<Rightarrow> byte list" where
  "bytes_of_string s = map (\<lambda>c. of_nat (of_char c)) s"

datatype sample_derive_key_type_t =
    SAMPLE_DERIVE_KEY_SMK
  | SAMPLE_DERIVE_KEY_SK
  | SAMPLE_DERIVE_KEY_MK
  | SAMPLE_DERIVE_KEY_VK

fun derive_key_code :: "sample_derive_key_type_t \<Rightarrow> byte" where
  "derive_key_code SAMPLE_DERIVE_KEY_SMK = 0"
| "derive_key_code SAMPLE_DERIVE_KEY_SK = 1"
| "derive_key_code SAMPLE_DERIVE_KEY_MK = 2"
| "derive_key_code SAMPLE_DERIVE_KEY_VK = 3"

definition str_SMK :: "byte list" where "str_SMK = bytes_of_string ''SMK''"
definition str_SK :: "byte list" where "str_SK = bytes_of_string ''SK''"
definition str_MK :: "byte list" where "str_MK = bytes_of_string ''MK''"
definition str_VK :: "byte list" where "str_VK = bytes_of_string ''VK''"

lemma label_bytes:
  "str_SMK = [0x53, 0x4D, 0x4B]" "str_SK = [0x53, 0x4B]" "str_MK = [0x4D, 0x4B]" "str_VK = [0x56, 0x4B]"
  by (simp_all add: str_SMK_def str_SK_def str_MK_def str_VK_def bytes_of_string_def)

text \<open>The \<open>switch\<close> on the key id; \<open>None\<close> is its default branch.\<close>

definition key_label :: "byte \<Rightarrow> byte list option" where
  "key_label key_id =
     (if key_id = derive_key_code SAMPLE_DERIVE_KEY_SMK then Some str_SMK
      else if key_id = derive_key_code SAMPLE_DERIVE_KEY_SK then Some str_SK
      else if key_id = derive_key_code SAMPLE_DERIVE_KEY_MK then Some str_MK
      else if key_id = derive_key_code SAMPLE_DERIVE_KEY_VK then Some str_VK
      else None)"

definition EC_DERIVATION_BUFFER_SIZE :: "nat \<Rightarrow> nat" where
  "EC_DERIVATION_BUFFER_SIZE label_length = label_length + 4"

text \<open>
  \<open>*(uint16_t *)&m[off] = v\<close> in a block from \<open>malloc\<close>, whose start is aligned for every type;
  at an odd offset it is undefined unless the platform defines misaligned stores.
\<close>

definition store_u16 :: "bool \<Rightarrow> nat \<Rightarrow> u16 \<Rightarrow> byte list \<Rightarrow> byte list option" where
  "store_u16 misaligned_ok off v m = (if even off \<or> misaligned_ok then store off (le16 v) m else None)"

text \<open>
  The buffer as the code fills it: zeroed, the counter, the label through \<open>memcpy_s\<close>,
  then a 16-bit store of the key length at the last two bytes.
\<close>

definition derivation_buffer :: "bool \<Rightarrow> byte list \<Rightarrow> byte list option" where
  "derivation_buffer misaligned_ok label =
     (let n = EC_DERIVATION_BUFFER_SIZE (length label) in
      do {
        b0 \<leftarrow> store 0 [0x01] (replicate n 0);
        (_, b1) \<leftarrow> memcpy_s 1 (n - 1) label (length label) b0;
        store_u16 misaligned_ok (n - 2) 0x0080 b1
      })"

text \<open>
  The result is the returned flag and what was written to \<open>derived_key\<close>, if anything.  The world
  after undefined behaviour means nothing; it is the one before the call.
\<close>

definition derive_key ::
  "'w libcrypto \<Rightarrow> byte list \<Rightarrow> byte \<Rightarrow> 'w \<Rightarrow> (ub + bool \<times> byte list option) \<times> 'w" where
  "derive_key L p_shared_key key_id w =
     (case cmac_msg L (replicate MAC_KEY_SIZE 0) p_shared_key w of ((sample_ret, key_derive_key), w1) \<Rightarrow>
        if sample_ret \<noteq> SAMPLE_SUCCESS then (Inr (False, None), w1)
        else (case key_label key_id of
          None \<Rightarrow> (Inr (False, None), w1)
        | Some label \<Rightarrow>
            (case malloc L (EC_DERIVATION_BUFFER_SIZE (length label)) w1 of (got, w2) \<Rightarrow>
               if \<not> got then (Inr (False, None), w2)
               else (case derivation_buffer (misaligned_store L) label of
                 None \<Rightarrow> (Inl Undefined, w)
               | Some p_derivation_buffer \<Rightarrow>
                   (case cmac_msg L key_derive_key p_derivation_buffer w2 of ((sample_ret2, derived), w3) \<Rightarrow>
                      (Inr (sample_ret2 = SAMPLE_SUCCESS, Some derived), free_block L w3))))))"

text \<open>The specification: AES-CMAC entropy extraction and key expansion.\<close>

definition kdf_info :: "byte list \<Rightarrow> byte list" where
  "kdf_info label = [0x01] @ label @ [0x00] @ [0x80, 0x00]"

definition kdf :: "(byte list \<Rightarrow> byte list \<Rightarrow> byte list) \<Rightarrow> byte list \<Rightarrow> byte list \<Rightarrow> byte list" where
  "kdf C shared label = C (C (replicate 16 0) shared) (kdf_info label)"

lemma le16_128: "le16 0x0080 = [0x80, 0x00]"
  by (simp add: le16_def)

lemma derivation_buffer_eq:
  "derivation_buffer misaligned_ok label =
     (if even (length label) \<or> misaligned_ok then Some (kdf_info label) else None)"
proof -
  have zeros: "0 # 0 # 0 # replicate n 0 = replicate n 0 @ [0, 0, 0 :: byte]" for n
    by (induction n) simp_all
  have fill: "(do {
        b0 \<leftarrow> store 0 [0x01] (replicate (length label + 4) 0);
        (_, b1) \<leftarrow> memcpy_s 1 (length label + 4 - 1) label (length label) b0;
        store (length label + 4 - 2) (le16 0x0080) b1
      }) = Some (kdf_info label)"
    by (simp add: store_def memcpy_s_def load_def kdf_info_def le16_128 numeral_eq_Suc zeros)
  have "even (length label + 4 - 2) = even (length label)" by simp
  then show ?thesis
    using fill
    by (auto simp: derivation_buffer_def EC_DERIVATION_BUFFER_SIZE_def store_u16_def bind_eq_Some_conv
        split: if_splits)
qed

lemma kdf_info_inject: "kdf_info l1 = kdf_info l2 \<longleftrightarrow> l1 = l2"
  by (simp add: kdf_info_def)

lemma key_label_code:
  "key_label (derive_key_code k) = Some
     (case k of SAMPLE_DERIVE_KEY_SMK \<Rightarrow> str_SMK | SAMPLE_DERIVE_KEY_SK \<Rightarrow> str_SK
      | SAMPLE_DERIVE_KEY_MK \<Rightarrow> str_MK | SAMPLE_DERIVE_KEY_VK \<Rightarrow> str_VK)"
  by (cases k) (simp_all add: key_label_def)

lemma key_label_None_iff: "key_label k = None \<longleftrightarrow> 4 \<le> k"
  by (auto simp: key_label_def word_le_nat_alt) (unat_arith; simp)+

text \<open>Only the label of the SMK has an odd length, so only its key length is stored misaligned.\<close>

lemma key_label_even: "key_label k = Some label \<Longrightarrow> odd (length label) \<longleftrightarrow> k = derive_key_code SAMPLE_DERIVE_KEY_SMK"
  by (auto simp: key_label_def label_bytes split: if_splits)

lemma derive_key_undefined:
  "derive_key L p k w = (Inl Undefined, w') \<Longrightarrow>
   \<not> misaligned_store L \<and> k = derive_key_code SAMPLE_DERIVE_KEY_SMK"
  using key_label_even
  by (fastforce simp: derive_key_def derivation_buffer_eq simp del: derive_key_code.simps
      split: prod.splits option.splits if_splits)

lemma derive_key_defined: "misaligned_store L \<Longrightarrow> fst (derive_key L p k w) \<noteq> Inl Undefined"
  using derive_key_undefined [of L p k w] by (cases "derive_key L p k w") auto

section \<open>Key derivation from SHA-256 (\<open>SUPPLIED_KEY_DERIVATION\<close>)\<close>

text \<open>The terminating zero belongs to the array: the code hashes \<open>sizeof(ID_U)\<close> bytes.\<close>

definition ID_U :: "byte list" where "ID_U = bytes_of_string ''SGXRAENCLAVE'' @ [0]"
definition ID_V :: "byte list" where "ID_V = bytes_of_string ''SGXRASERVER'' @ [0]"

datatype sample_derive_key_type_supplied_t =
    SAMPLE_DERIVE_KEY_SMK_SK
  | SAMPLE_DERIVE_KEY_MK_VK

fun derive_key_supplied_code :: "sample_derive_key_type_supplied_t \<Rightarrow> byte" where
  "derive_key_supplied_code SAMPLE_DERIVE_KEY_SMK_SK = 0"
| "derive_key_supplied_code SAMPLE_DERIVE_KEY_MK_VK = 1"

record hash_buffer_t =
  counter :: "byte list"
  shared_secret :: "byte list"
  algorithm_id :: "byte list"

definition hash_buffer_bytes :: "hash_buffer_t \<Rightarrow> byte list" where
  "hash_buffer_bytes b = counter b @ shared_secret b @ algorithm_id b"

text \<open>The loop that converts the shared secret from little to big endian.\<close>

function endian_loop :: "nat \<Rightarrow> nat \<Rightarrow> byte list \<Rightarrow> byte list \<Rightarrow> byte list" where
  "endian_loop n i s d = (if i < n then endian_loop n (Suc i) s (d[i := s ! (n - 1 - i)]) else d)"
  by pat_completeness auto
termination by (relation "measure (\<lambda>(n, i, s, d). n - i)") auto

declare endian_loop.simps [simp del]

lemma endian_loop_rev:
  assumes "length s = n" "length d = n" "i \<le> n" "take i d = take i (rev s)"
  shows "endian_loop n i s d = rev s"
  using assms
proof (induction n i s d rule: endian_loop.induct)
  case (1 n i s d)
  show ?case
  proof (cases "i < n")
    case True
    have "take (Suc i) (d[i := s ! (n - 1 - i)]) = take (Suc i) (rev s)"
      using True "1.prems" by (simp add: take_Suc_conv_app_nth rev_nth)
    then have "endian_loop n (Suc i) s (d[i := s ! (n - 1 - i)]) = rev s"
      using "1.IH" True "1.prems" by simp
    then show ?thesis using True by (simp add: endian_loop.simps [of n i s d])
  next
    case False
    then show ?thesis using "1.prems" by (subst endian_loop.simps) simp
  qed
qed

definition hash_buffer :: "byte list \<Rightarrow> byte \<Rightarrow> hash_buffer_t" where
  "hash_buffer p_shared_key key_id =
     \<lparr>counter = (replicate 4 0)[3 := key_id],
      shared_secret = endian_loop SAMPLE_ECP_KEY_SIZE 0 p_shared_key (replicate SAMPLE_ECP_KEY_SIZE 0),
      algorithm_id = replicate 4 0\<rparr>"

text \<open>The returned flag and, when they were written, the two derived keys.\<close>

definition derive_key_supplied ::
  "(sample_status_t, 'w) sha_api \<Rightarrow> byte list \<Rightarrow> byte \<Rightarrow> 'w \<Rightarrow>
   (bool \<times> (byte list \<times> byte list) option) \<times> 'w" where
  "derive_key_supplied A p_shared_key key_id w =
     (case sha_init A w of ((st0, h), w0) \<Rightarrow>
        if st0 \<noteq> SAMPLE_SUCCESS then ((False, None), w0)
        else (case sha_update A (hash_buffer_bytes (hash_buffer p_shared_key key_id)) h w0 of (st1, w1) \<Rightarrow>
          if st1 \<noteq> SAMPLE_SUCCESS then ((False, None), snd (sha_close A h w1))
          else (case sha_update A ID_U h w1 of (st2, w2) \<Rightarrow>
            if st2 \<noteq> SAMPLE_SUCCESS then ((False, None), snd (sha_close A h w2))
            else (case sha_update A ID_V h w2 of (st3, w3) \<Rightarrow>
              if st3 \<noteq> SAMPLE_SUCCESS then ((False, None), snd (sha_close A h w3))
              else (case sha_get_hash A h w3 of ((st4, key_material), w4) \<Rightarrow>
                if st4 \<noteq> SAMPLE_SUCCESS then ((False, None), snd (sha_close A h w4))
                else ((True, Some (take 16 key_material, take 16 (drop 16 key_material))),
                      snd (sha_close A h w4)))))))"

definition supplied_kdf :: "(byte list \<Rightarrow> byte list) \<Rightarrow> byte list \<Rightarrow> byte \<Rightarrow> byte list" where
  "supplied_kdf H shared key_id =
     H ([0, 0, 0, key_id] @ rev shared @ [0, 0, 0, 0] @ ID_U @ ID_V)"

lemma hash_buffer_bytes_eq:
  assumes "length shared = 32"
  shows "hash_buffer_bytes (hash_buffer shared key_id) = [0, 0, 0, key_id] @ rev shared @ [0, 0, 0, 0]"
proof -
  have "endian_loop 32 0 shared (replicate 32 0) = rev shared"
    by (rule endian_loop_rev) (simp_all add: assms)
  then have "shared_secret (hash_buffer shared key_id) = rev shared"
    by (simp add: hash_buffer_def SAMPLE_ECP_KEY_SIZE_def)
  then show ?thesis
    by (simp add: hash_buffer_bytes_def hash_buffer_def) (simp add: numeral_eq_Suc)
qed

section \<open>Properties\<close>

lemma derive_key_result:
  assumes "cmac_law L C" and "derive_key L shared key_id w = (Inr (True, out), w')"
  shows "\<exists>label. key_label key_id = Some label \<and> out = Some (kdf C shared label)"
  using assms(2)
  by (auto simp: derive_key_def derivation_buffer_eq kdf_def MAC_KEY_SIZE_def
      dest!: cmac_lawD [OF assms(1)] split: prod.splits option.splits if_splits)

lemma derive_key_supplied_result:
  assumes "sha_law A SAMPLE_SUCCESS absorbed H" "length shared = 32"
    and "derive_key_supplied A shared key_id w = ((True, out), w')"
  shows "out = Some (take 16 (supplied_kdf H shared key_id), take 16 (drop 16 (supplied_kdf H shared key_id)))"
proof -
  from assms(3) obtain h w0 w1 w2 w3 w4 km where
    "sha_init A w = ((SAMPLE_SUCCESS, h), w0)"
    "sha_update A (hash_buffer_bytes (hash_buffer shared key_id)) h w0 = (SAMPLE_SUCCESS, w1)"
    "sha_update A ID_U h w1 = (SAMPLE_SUCCESS, w2)" "sha_update A ID_V h w2 = (SAMPLE_SUCCESS, w3)"
    "sha_get_hash A h w3 = ((SAMPLE_SUCCESS, km), w4)"
    and out: "out = Some (take 16 km, take 16 (drop 16 km))"
    by (auto simp: derive_key_supplied_def split: prod.splits if_splits)
  then have "km = supplied_kdf H shared key_id"
    using sha_three_updates [OF assms(1)] hash_buffer_bytes_eq [OF assms(2), of key_id]
    by (fastforce simp: supplied_kdf_def)
  with out show ?thesis by simp
qed

lemma derive_key_heap:
  assumes "heap_law L blocks"
  shows "blocks (snd (derive_key L shared key_id w)) = blocks w"
  by (auto simp: derive_key_def derivation_buffer_eq heap_free [OF assms]
      dest!: heap_malloc [OF assms] heap_cmac [OF assms]
      split: prod.splits option.splits if_splits)

lemma derive_key_ctxs:
  assumes "ecc_law L ctxs"
  shows "ctxs (snd (derive_key L shared key_id w)) = ctxs w"
  by (auto simp: derive_key_def derivation_buffer_eq ecc_free [OF assms]
      dest!: ecc_malloc [OF assms] ecc_cmac [OF assms]
      split: prod.splits option.splits if_splits)

lemma derive_key_supplied_keeps:
  assumes "sha_keeps A c"
  shows "c (snd (derive_key_supplied A shared key_id w)) = c w"
  by (auto simp: derive_key_supplied_def snd_def dest!: sha_keepsD [OF assms] split: prod.splits if_splits)

text \<open>C13: A successful \<open>derive_key\<close> returns the CMAC-based key derivation of the shared secret under
  the label its key id selects, whatever the library did between the calls; a key id outside the
  enumeration makes it fail before it touches the caller's key.\<close>

theorem derive_key_kdf:
  assumes "cmac_law L C"
  shows "(derive_key L shared key_id w = (Inr (True, out), w') \<longrightarrow>
      (\<exists>label. key_label key_id = Some label \<and> out = Some (kdf C shared label))) \<and>
    (4 \<le> key_id \<longrightarrow> fst (derive_key L shared key_id w) = Inr (False, None))"
  using derive_key_result [OF assms]
  by (auto simp: key_label_None_iff [symmetric] derive_key_def split: prod.split)

theorem derive_key_kdf_witness:
  "\<exists>label. key_label (derive_key_code SAMPLE_DERIVE_KEY_SK) = Some label \<and>
     Some (example_cmac (example_cmac (replicate 16 0) (replicate 32 1)) (kdf_info str_SK)) =
     Some (kdf example_cmac (replicate 32 1) label)"
proof -
  have run: "derive_key example_lib (replicate 32 1) (derive_key_code SAMPLE_DERIVE_KEY_SK) world0 =
      (Inr (True, Some (example_cmac (example_cmac (replicate 16 0) (replicate 32 1)) (kdf_info str_SK))),
       world0)"
    by (simp add: derive_key_def example_lib_def derivation_buffer_eq key_label_code MAC_KEY_SIZE_def
        world0_def del: derive_key_code.simps)
  show ?thesis using derive_key_kdf [OF example_cmac_law] run by blast
qed

text \<open>C14: The supplied derivation returns two 16-byte halves of one SHA-256 over counter, big-endian secret,
  algorithm id and both party names, and closes the hash context it opened on every path, failing or not.\<close>

theorem derive_key_supplied_kdf:
  assumes "sha_law A SAMPLE_SUCCESS absorbed H" "sha_ctx_law A SAMPLE_SUCCESS ctxs" "length shared = 32"
    and "derive_key_supplied A shared key_id w = ((flag, out), w')"
  shows "ctxs w' = ctxs w \<and>
    out = (if flag then Some (take 16 (supplied_kdf H shared key_id), take 16 (drop 16 (supplied_kdf H shared key_id)))
           else None)"
proof -
  have "ctxs w' = ctxs w \<and> (\<not> flag \<longrightarrow> out = None)"
    using assms(4)
    by (auto simp: derive_key_supplied_def snd_def dest!: sha_ctx_init [OF assms(2)] sha_ctx_update [OF assms(2)]
        sha_ctx_hash [OF assms(2)] sha_ctx_close [OF assms(2)] split: prod.splits if_splits)
  then show ?thesis
    using derive_key_supplied_result [OF assms(1,3)] assms(4) by (cases flag) auto
qed

theorem derive_key_supplied_kdf_witness:
  "\<exists>flag out w'. derive_key_supplied (example_sha SAMPLE_SUCCESS) (replicate 32 1) 0 world0 = ((flag, out), w') \<and>
    sha_ctxs w' = 0 \<and> flag \<and>
    out = Some (take 16 (supplied_kdf example_hash (replicate 32 1) 0), take 16 (drop 16 (supplied_kdf example_hash (replicate 32 1) 0)))"
proof -
  obtain flag out w' where run: "derive_key_supplied (example_sha SAMPLE_SUCCESS) (replicate 32 1) 0 world0 = ((flag, out), w')"
    by (metis prod.exhaust)
  moreover have flag using run by (auto simp: derive_key_supplied_def example_sha_def split: prod.splits if_splits)
  ultimately show ?thesis
    using derive_key_supplied_kdf [OF example_sha_law example_sha_ctx_law _ run] by (auto simp: world0_def)
qed

text \<open>On buffers that are long enough the MAC check stays inside them, and it accepts a message exactly when the
  CMAC computation succeeds and its tag equals the first 16 bytes of the given MAC.\<close>

lemma verify_cmac128_iff:
  assumes "cmac_law L C" "sizes_law L" "unat buf_size \<le> length p_data_buf" "16 \<le> length p_mac_buf"
  shows "fst (verify_cmac128 L mac_key p_data_buf buf_size p_mac_buf w) =
    Inr (fst (fst (cmac_msg L mac_key (take (unat buf_size) p_data_buf) w)) = SAMPLE_SUCCESS \<and>
         take 16 p_mac_buf = C mac_key (take (unat buf_size) p_data_buf))"
proof -
  obtain st tag w' where run: "cmac_msg L mac_key (take (unat buf_size) p_data_buf) w = ((st, tag), w')"
    by (metis prod.exhaust)
  show ?thesis
    using assms(3,4) run cmac_size [OF assms(2) run] cmac_lawD [OF assms(1)]
    by (auto simp: verify_cmac128_def load_def SAMPLE_EC_MAC_SIZE_def)
qed

text \<open>C17: The copy never writes past the capacity its caller claims: it refuses a larger count and leaves the block as
  it was, and otherwise replaces exactly the \<open>count\<close> bytes at the destination.\<close>

theorem memcpy_s_bounds:
  assumes "off + n \<le> length m" "count \<le> length src"
  shows "\<exists>err m'. memcpy_s off n src count m = Some (err, m') \<and> length m' = length m \<and>
    (err = 0 \<longleftrightarrow> count \<le> n) \<and>
    (\<forall>i < length m. m' ! i = (if err = 0 \<and> off \<le> i \<and> i < off + count then src ! (i - off) else m ! i))"
proof (cases "n < count")
  case True
  then show ?thesis by (simp add: memcpy_s_def)
next
  case False
  then have "memcpy_s off n src count m = Some (0, take off m @ take count src @ drop (off + count) m)"
    using memcpy_s_defined [OF assms] by simp
  with False assms show ?thesis by (simp add: nth_append min_def) auto
qed

theorem memcpy_s_bounds_witness:
  "\<exists>err m'. memcpy_s 1 2 [7, 8] 2 [0, 0, 0, 0] = Some (err, m') \<and> length m' = 4 \<and> err = 0 \<and> m' ! 2 = 8 \<and> m' ! 3 = 0"
  using memcpy_s_bounds [of 1 2 "[0, 0, 0, 0]" 2 "[7, 8]"] by auto

text \<open>The four session keys are expanded from different inputs: two calls of the derivation on one secret feed
  the same bytes to the second CMAC exactly when they ask for the same key.\<close>

lemma key_labels_separate:
  "derivation_buffer True (the (key_label (derive_key_code k1))) =
     derivation_buffer True (the (key_label (derive_key_code k2)))
   \<longleftrightarrow> k1 = k2"
  by (cases k1; cases k2)
    (simp_all add: key_label_code derivation_buffer_eq kdf_info_inject label_bytes del: derive_key_code.simps)

end
