(* ===== verification/Wire.thy ===== *)
theory Wire
  imports Prelude
begin

text \<open>
  The messages between the application, the service provider and the attestation server:
  the enumerations of \<open>network_ra.h\<close> and \<open>service_provider.h\<close>, and the memory layout
  of the structures the code casts byte buffers to.  Offsets are computed from the field
  lists by the layout rule of the C ABI (\<open>layout\<close>); packed structures have alignment 1.
\<close>

section \<open>Enumerations\<close>

datatype ra_msg_type_t =
    TYPE_RA_MSG0 | TYPE_RA_MSG1 | TYPE_RA_MSG2 | TYPE_RA_MSG3 | TYPE_RA_ATT_RESULT

fun ra_msg_type_code :: "ra_msg_type_t \<Rightarrow> byte" where
  "ra_msg_type_code TYPE_RA_MSG0 = 0"
| "ra_msg_type_code TYPE_RA_MSG1 = 1"
| "ra_msg_type_code TYPE_RA_MSG2 = 2"
| "ra_msg_type_code TYPE_RA_MSG3 = 3"
| "ra_msg_type_code TYPE_RA_ATT_RESULT = 4"

datatype sp_ra_msg_status_t =
    SP_OK
  | SP_UNSUPPORTED_EXTENDED_EPID_GROUP
  | SP_INTEGRITY_FAILED
  | SP_QUOTE_VERIFICATION_FAILED
  | SP_IAS_FAILED
  | SP_INTERNAL_ERROR
  | SP_PROTOCOL_ERROR
  | SP_QUOTE_VERSION_ERROR

fun sp_code :: "sp_ra_msg_status_t \<Rightarrow> int" where
  "sp_code SP_OK = 0"
| "sp_code SP_UNSUPPORTED_EXTENDED_EPID_GROUP = 1"
| "sp_code SP_INTEGRITY_FAILED = 2"
| "sp_code SP_QUOTE_VERIFICATION_FAILED = 3"
| "sp_code SP_IAS_FAILED = 4"
| "sp_code SP_INTERNAL_ERROR = 5"
| "sp_code SP_PROTOCOL_ERROR = 6"
| "sp_code SP_QUOTE_VERSION_ERROR = 7"

lemma sp_code_eq_0 [simp]: "sp_code st = 0 \<longleftrightarrow> st = SP_OK"
  by (cases st) simp_all

section \<open>Structure layout\<close>

definition align_up :: "nat \<Rightarrow> nat \<Rightarrow> nat" where
  "align_up off al = (off + al - 1) div al * al"

text \<open>Offsets of fields given as (size, alignment) pairs, and the size of the structure.\<close>

fun layout :: "nat \<Rightarrow> (nat \<times> nat) list \<Rightarrow> nat list" where
  "layout off [] = []"
| "layout off ((sz, al) # fs) = align_up off al # layout (align_up off al + sz) fs"

fun layout_end :: "nat \<Rightarrow> (nat \<times> nat) list \<Rightarrow> nat" where
  "layout_end off [] = off"
| "layout_end off ((sz, al) # fs) = layout_end (align_up off al + sz) fs"

definition sizeof_struct :: "(nat \<times> nat) list \<Rightarrow> nat" where
  "sizeof_struct fs = align_up (layout_end 0 fs) (Max (insert 1 (snd ` set fs)))"

text \<open>\<open>ra_samp_request_header_t\<close> (packed): type, size, align[3], body[].\<close>

definition ra_samp_request_header_fields :: "(nat \<times> nat) list" where
  "ra_samp_request_header_fields = [(1, 1), (4, 1), (3, 1), (0, 1)]"

text \<open>\<open>ra_samp_response_header_t\<close> (packed): type, status[2], size, align[1], body[].\<close>

definition ra_samp_response_header_fields :: "(nat \<times> nat) list" where
  "ra_samp_response_header_fields = [(1, 1), (2, 1), (4, 1), (1, 1), (0, 1)]"

text \<open>\<open>sample_ra_msg0_t\<close>: extended_epid_group_id.\<close>

definition sample_ra_msg0_fields :: "(nat \<times> nat) list" where
  "sample_ra_msg0_fields = [(4, 4)]"

text \<open>\<open>sample_ra_msg1_t\<close>: g_a, gid.\<close>

definition sample_ra_msg1_fields :: "(nat \<times> nat) list" where
  "sample_ra_msg1_fields = [(64, 1), (4, 1)]"

text \<open>
  \<open>sample_ra_msg2_t\<close>: g_b, spid, quote_type, kdf_id, sign_gb_ga (an array of 32-bit words),
  mac, sig_rl_size, sig_rl[].
\<close>

definition sample_ra_msg2_fields :: "(nat \<times> nat) list" where
  "sample_ra_msg2_fields = [(64, 1), (16, 1), (2, 2), (2, 2), (64, 4), (16, 1), (4, 4), (0, 1)]"

definition sizeof_request_header :: nat where
  "sizeof_request_header = sizeof_struct ra_samp_request_header_fields"
definition sizeof_response_header :: nat where
  "sizeof_response_header = sizeof_struct ra_samp_response_header_fields"
definition sizeof_msg0 :: nat where "sizeof_msg0 = sizeof_struct sample_ra_msg0_fields"
definition sizeof_msg1 :: nat where "sizeof_msg1 = sizeof_struct sample_ra_msg1_fields"
definition sizeof_msg2 :: nat where "sizeof_msg2 = sizeof_struct sample_ra_msg2_fields"

definition off_resp :: "nat \<Rightarrow> nat" where
  "off_resp i = layout 0 ra_samp_response_header_fields ! i"

text \<open>Offsets of the fields of message 2 inside the response block, whose body it is.\<close>

definition off_msg2 :: "nat \<Rightarrow> nat" where
  "off_msg2 i = sizeof_response_header + layout 0 sample_ra_msg2_fields ! i"

lemma sizeof_values [simp, wire_sizes]:
  "sizeof_request_header = 8" "sizeof_response_header = 8"
  "sizeof_msg0 = 4" "sizeof_msg1 = 68" "sizeof_msg2 = 168"
  by (simp_all add: sizeof_request_header_def sizeof_response_header_def sizeof_msg0_def sizeof_msg1_def
      sizeof_msg2_def sizeof_struct_def align_up_def ra_samp_request_header_fields_def
      ra_samp_response_header_fields_def sample_ra_msg0_fields_def sample_ra_msg1_fields_def
      sample_ra_msg2_fields_def)

lemma off_resp_values [simp, wire_sizes]:
  "off_resp 0 = 0" "off_resp (Suc 0) = 1" "off_resp 2 = 3" "off_resp 3 = 7" "off_resp 4 = 8"
  by (simp_all add: off_resp_def ra_samp_response_header_fields_def align_up_def)

lemma off_msg2_values [simp, wire_sizes]:
  "off_msg2 0 = 8" "off_msg2 (Suc 0) = 72" "off_msg2 2 = 88" "off_msg2 3 = 90" "off_msg2 4 = 92"
  "off_msg2 5 = 156" "off_msg2 6 = 172" "off_msg2 7 = 176"
  by (simp_all add: off_msg2_def sample_ra_msg2_fields_def align_up_def)

section \<open>Headers and small messages\<close>

record ra_samp_request_header_t =
  req_type :: byte
  req_size :: u32
  req_align :: "byte list"
  req_body :: "byte list"

text \<open>A response is the allocated block itself; these are the fields of its header.\<close>

definition resp_type :: "byte list \<Rightarrow> byte" where "resp_type b = b ! off_resp 0"
definition resp_status :: "byte list \<Rightarrow> byte list" where "resp_status b = take 2 (drop (off_resp 1) b)"
definition resp_size :: "byte list \<Rightarrow> u32" where "resp_size b = of_le32 (take 4 (drop (off_resp 2) b))"
definition resp_body :: "byte list \<Rightarrow> byte list" where "resp_body b = drop (off_resp 4) b"

record sample_ra_msg0_t =
  extended_epid_group_id :: u32

record sample_ra_msg1_t =
  msg1_g_a :: "byte list"
  msg1_gid :: "byte list"

text \<open>The casts of a request body to a message structure.\<close>

definition cast_msg0 :: "byte list \<Rightarrow> sample_ra_msg0_t" where
  "cast_msg0 b = \<lparr>extended_epid_group_id = of_le32 (take 4 b)\<rparr>"

definition cast_msg1 :: "byte list \<Rightarrow> sample_ra_msg1_t" where
  "cast_msg1 b = \<lparr>msg1_g_a = take 64 b, msg1_gid = take 4 (drop 64 b)\<rparr>"

text \<open>\<open>sample_ra_msg2_t\<close> at the body of a response block, as the receiver casts it.\<close>

record sample_ra_msg2_t =
  msg2_g_b :: "byte list"
  msg2_spid :: "byte list"
  msg2_quote_type :: u16
  msg2_kdf :: u16
  msg2_sign_gb_ga :: "byte list"
  msg2_mac :: "byte list"
  msg2_sig_rl_size :: u32
  msg2_sig_rl :: "byte list"

definition cast_msg2 :: "byte list \<Rightarrow> sample_ra_msg2_t" where
  "cast_msg2 b =
     \<lparr>msg2_g_b = take 64 (drop (off_msg2 0) b),
      msg2_spid = take 16 (drop (off_msg2 1) b),
      msg2_quote_type = of_le16 (take 2 (drop (off_msg2 2) b)),
      msg2_kdf = of_le16 (take 2 (drop (off_msg2 3) b)),
      msg2_sign_gb_ga = take 64 (drop (off_msg2 4) b),
      msg2_mac = take 16 (drop (off_msg2 5) b),
      msg2_sig_rl_size = of_le32 (take 4 (drop (off_msg2 6) b)),
      msg2_sig_rl = drop (off_msg2 7) b\<rparr>"

end
