(* ===== verification/Ias_Ra.thy ===== *)
theory Ias_Ra
  imports Ecp Wire
begin

text \<open>
  \<open>service_provider/ias_ra.cpp\<close>: the simulated attestation server.  Enrollment hands out
  the SPID, the signature revocation list is empty, and quote verification always reports
  success with a platform info blob signed by a report key; the signature is converted from
  little to big endian word by word (\<open>SWAP_ENDIAN_32B\<close>).  The locale
  \<open>attestation_server\<close> is what the service provider relies on through the function
  pointers of its table of extended EPID groups.
\<close>

section \<open>Types of \<open>ias_ra.h\<close> and \<open>remote_attestation_result.h\<close>\<close>

datatype ias_quote_status_t =
    IAS_QUOTE_OK
  | IAS_QUOTE_SIGNATURE_INVALID
  | IAS_QUOTE_GROUP_REVOKED
  | IAS_QUOTE_SIGNATURE_REVOKED
  | IAS_QUOTE_KEY_REVOKED
  | IAS_QUOTE_SIGRL_VERSION_MISMATCH
  | IAS_QUOTE_GROUP_OUT_OF_DATE

datatype ias_pse_status_t =
    IAS_PSE_OK
  | IAS_PSE_DESC_TYPE_NOT_SUPPORTED
  | IAS_PSE_ISVSVN_OUT_OF_DATE
  | IAS_PSE_MISCSELECT_INVALID
  | IAS_PSE_ATTRIBUTES_INVALID
  | IAS_PSE_MRSIGNER_INVALID
  | IAS_PS_HW_GID_REVOKED
  | IAS_PS_HW_PRIVKEY_RLVER_MISMATCH
  | IAS_PS_HW_SIG_RLVER_MISMATCH
  | IAS_PS_HW_CA_ID_INVALID
  | IAS_PS_HW_SEC_INFO_INVALID
  | IAS_PS_HW_PSDA_SVN_OUT_OF_DATE

datatype ias_revoc_reason_t =
    IAS_REVOC_REASON_NONE
  | IAS_REVOC_REASON_KEY_COMPROMISE
  | IAS_REVOC_REASON_CA_COMPROMISED
  | IAS_REVOC_REASON_SUPERCEDED
  | IAS_REVOC_REASON_CESSATION_OF_OPERATION
  | IAS_REVOC_REASON_CERTIFICATE_HOLD
  | IAS_REVOC_REASON_PRIVILEGE_WITHDRAWN
  | IAS_REVOC_REASON_AA_COMPROMISE

fun ias_revoc_reason_code :: "ias_revoc_reason_t \<Rightarrow> u32" where
  "ias_revoc_reason_code IAS_REVOC_REASON_NONE = 0"
| "ias_revoc_reason_code IAS_REVOC_REASON_KEY_COMPROMISE = 1"
| "ias_revoc_reason_code IAS_REVOC_REASON_CA_COMPROMISED = 2"
| "ias_revoc_reason_code IAS_REVOC_REASON_SUPERCEDED = 3"
| "ias_revoc_reason_code IAS_REVOC_REASON_CESSATION_OF_OPERATION = 4"
| "ias_revoc_reason_code IAS_REVOC_REASON_CERTIFICATE_HOLD = 5"
| "ias_revoc_reason_code IAS_REVOC_REASON_PRIVILEGE_WITHDRAWN = 6"
| "ias_revoc_reason_code IAS_REVOC_REASON_AA_COMPROMISE = 7"

definition ISVSVN_SIZE :: nat where [wire_sizes]: "ISVSVN_SIZE = 2"
definition PSDA_SVN_SIZE :: nat where [wire_sizes]: "PSDA_SVN_SIZE = 4"
definition GID_SIZE :: nat where [wire_sizes]: "GID_SIZE = 4"
definition PSVN_SIZE :: nat where [wire_sizes]: "PSVN_SIZE = 18"

record sample_ec_sign256_t =
  sig_x :: "u32 list"
  sig_y :: "u32 list"

record ias_platform_info_blob_t =
  sample_epid_group_status :: byte
  sample_tcb_evaluation_status :: u16
  pse_evaluation_status :: u16
  latest_equivalent_tcb_psvn :: "byte list"
  latest_pse_isvsvn :: "byte list"
  latest_psda_svn :: "byte list"
  performance_rekey_gid :: "byte list"
  signature :: sample_ec_sign256_t

record ias_att_report_t =
  report_id :: u32
  report_status :: ias_quote_status_t
  revocation_reason :: u32
  info_blob :: ias_platform_info_blob_t
  pse_status :: ias_pse_status_t
  policy_report_size :: u32

text \<open>The packed bytes of the blob in front of its signature: what the report key signs.\<close>

definition blob_signed_bytes :: "ias_platform_info_blob_t \<Rightarrow> byte list" where
  "blob_signed_bytes b =
     [sample_epid_group_status b] @ le16 (sample_tcb_evaluation_status b) @
     le16 (pse_evaluation_status b) @ latest_equivalent_tcb_psvn b @ latest_pse_isvsvn b @
     latest_psda_svn b @ performance_rekey_gid b"

section \<open>Endian conversion of a signature half\<close>

definition SWAP_ENDIAN_DW :: "u32 \<Rightarrow> u32" where
  "SWAP_ENDIAN_DW dw =
     push_bit 24 (dw AND 0x000000ff) OR push_bit 8 (dw AND 0x0000ff00) OR
     drop_bit 8 (dw AND 0x00ff0000) OR drop_bit 24 (dw AND 0xff000000)"

text \<open>One three-line group of the macro: words \<open>i\<close> and \<open>j\<close> are swapped and converted.\<close>

definition swap_words :: "nat \<Rightarrow> nat \<Rightarrow> u32 list \<Rightarrow> u32 list" where
  "swap_words i j p =
     (let temp = SWAP_ENDIAN_DW (p ! i);
          p1 = p[i := SWAP_ENDIAN_DW (p ! j)]
      in p1[j := temp])"

definition SWAP_ENDIAN_32B :: "u32 list \<Rightarrow> u32 list" where
  "SWAP_ENDIAN_32B p = swap_words 3 4 (swap_words 2 5 (swap_words 1 6 (swap_words 0 7 p)))"

text \<open>A word array as the bytes it occupies, and back.\<close>

definition bytes_of_words :: "u32 list \<Rightarrow> byte list" where
  "bytes_of_words ws = concat (map le32 ws)"

fun words_of_bytes :: "byte list \<Rightarrow> u32 list" where
  "words_of_bytes (a # b # c # d # bs) = of_le32 [a, b, c, d] # words_of_bytes bs"
| "words_of_bytes _ = []"

lemma byte_masks:
  "(0x000000ff :: u32) = mask 8" "(0x0000ff00 :: u32) = push_bit 8 (mask 8)"
  "(0x00ff0000 :: u32) = push_bit 16 (mask 8)" "(0xff000000 :: u32) = push_bit 24 (mask 8)"
  by (simp_all add: mask_eq_exp_minus_1 push_bit_eq_mult)

lemma SWAP_ENDIAN_DW_bytes: "le32 (SWAP_ENDIAN_DW w) = rev (le32 w)"
  unfolding le32_def SWAP_ENDIAN_DW_def byte_masks
  by (auto intro!: bit_word_eqI simp: bit_simps)

lemma length_swap_words [simp]: "length (swap_words i j p) = length p"
  by (simp add: swap_words_def Let_def)

lemma SWAP_ENDIAN_32B_eq:
  "SWAP_ENDIAN_32B [a, b, c, d, e, f, g, h] = map SWAP_ENDIAN_DW [h, g, f, e, d, c, b, a]"
  by (simp add: SWAP_ENDIAN_32B_def swap_words_def Let_def)

lemma length8_cases:
  assumes "length p = 8"
  obtains a b c d e f g h where "p = [a, b, c, d, e, f, g, h]"
  using assms by (auto simp: length_Suc_conv numeral_eq_Suc)

lemma words_of_bytes_inverse: "words_of_bytes (bytes_of_words ws) = ws"
  by (induction ws) (simp_all add: bytes_of_words_def le32_def of_le32_le32 [unfolded le32_def])

lemma byte_high_bit: "8 \<le> n \<Longrightarrow> bit (b :: byte) n \<longleftrightarrow> False"
  using bit_imp_le_length [of b n] by auto

lemma bytes_of_words_inverse: "4 dvd length bs \<Longrightarrow> bytes_of_words (words_of_bytes bs) = bs"
proof (induction bs rule: words_of_bytes.induct)
  case (1 a b c d bs)
  have "le32 (of_le32 [a, b, c, d]) = [a, b, c, d]"
    by (auto simp: le32_def of_le32_def intro!: bit_word_eqI simp: bit_simps byte_high_bit)
  moreover have "4 dvd length bs" using "1.prems" by (simp, presburger)
  ultimately show ?case using "1.IH" by (simp add: bytes_of_words_def)
qed (auto simp: bytes_of_words_def dvd_def, presburger+)

lemma length_words_of_bytes: "length (words_of_bytes bs) = length bs div 4"
  by (induction bs rule: words_of_bytes.induct) auto

lemma SWAP_ENDIAN_32B_bytes:
  assumes "length p = 8"
  shows "bytes_of_words (SWAP_ENDIAN_32B p) = rev (bytes_of_words p)"
proof -
  obtain a b c d e f g h where "p = [a, b, c, d, e, f, g, h]"
    using assms by (rule length8_cases)
  then show ?thesis by (simp add: SWAP_ENDIAN_32B_eq bytes_of_words_def SWAP_ENDIAN_DW_bytes)
qed

text \<open>C19: The macro turns the byte image of a 256-bit little-endian integer into its big-endian image, and
  applying it twice gives the integer back.\<close>

theorem SWAP_ENDIAN_32B_reverses:
  assumes "length p = 8"
  shows "bytes_of_words (SWAP_ENDIAN_32B p) = rev (bytes_of_words p) \<and>
    SWAP_ENDIAN_32B (SWAP_ENDIAN_32B p) = p"
proof -
  have len: "length (SWAP_ENDIAN_32B p) = 8" using assms by (simp add: SWAP_ENDIAN_32B_def)
  have "bytes_of_words (SWAP_ENDIAN_32B (SWAP_ENDIAN_32B p)) = bytes_of_words p"
    by (simp add: SWAP_ENDIAN_32B_bytes len assms)
  then have "SWAP_ENDIAN_32B (SWAP_ENDIAN_32B p) = p" by (metis words_of_bytes_inverse)
  then show ?thesis by (simp add: SWAP_ENDIAN_32B_bytes assms)
qed

theorem SWAP_ENDIAN_32B_reverses_witness:
  "bytes_of_words (SWAP_ENDIAN_32B [1, 2, 3, 4, 5, 6, 7, 8]) = rev (bytes_of_words [1, 2, 3, 4, 5, 6, 7, 8])"
  using SWAP_ENDIAN_32B_reverses [of "[1, 2, 3, 4, 5, 6, 7, 8]"] by simp

section \<open>The simulated attestation server\<close>

text \<open>The key that signs platform info blobs, and the SPID.\<close>

definition g_rk_priv_key :: "byte list" where
  "g_rk_priv_key = [
     0x63, 0x2c, 0xd4, 0x02, 0x7a, 0xdc, 0x56, 0xa5,
     0x59, 0x6c, 0x44, 0x3e, 0x43, 0xca, 0x4e, 0x0b,
     0x58, 0xcd, 0x78, 0xcb, 0x3c, 0x7e, 0xd5, 0xb9,
     0xf2, 0x91, 0x5b, 0x39, 0x0d, 0xb3, 0xb5, 0xfb]"

definition g_sim_spid :: "byte list" where
  "g_sim_spid = bytes_of_string ''Service X'' @ replicate 7 0"

lemma g_sim_spid_length [simp]: "length g_sim_spid = 16"
  by (simp add: g_sim_spid_def bytes_of_string_def)

text \<open>
  A pointer argument is an option: \<open>None\<close> is the null pointer, \<open>Some v\<close> the object pointed
  to.  The result is the return value and the objects afterwards.
\<close>

definition ias_enroll ::
  "int \<Rightarrow> byte list option \<Rightarrow> int option \<Rightarrow> int \<times> byte list option \<times> int option" where
  "ias_enroll sp_credentials p_spid p_authentication_token =
     (case p_spid of
        Some spid \<Rightarrow>
          (0, map_option snd (memcpy_s 0 16 g_sim_spid 16 spid), p_authentication_token)
      | None \<Rightarrow> (1, None, p_authentication_token))"

text \<open>The second pointee is itself a pointer to the list: \<open>Some None\<close> points to a null pointer.\<close>

definition ias_get_sigrl ::
  "byte list \<Rightarrow> u32 option \<Rightarrow> byte list option option \<Rightarrow> int \<times> u32 option \<times> byte list option option" where
  "ias_get_sigrl gid p_sig_rl_size p_sig_rl =
     (if p_sig_rl = None \<or> p_sig_rl_size = None then (-1, p_sig_rl_size, p_sig_rl)
      else (0, Some 0, Some None))"

definition IAS_EPID_GROUP_STATUS_REVOKED_BIT_POS :: nat where
  "IAS_EPID_GROUP_STATUS_REVOKED_BIT_POS = 0"
definition IAS_EPID_GROUP_STATUS_REKEY_AVAILABLE_BIT_POS :: nat where
  "IAS_EPID_GROUP_STATUS_REKEY_AVAILABLE_BIT_POS = 1"
definition IAS_TCB_EVAL_STATUS_CPUSVN_OUT_OF_DATE_BIT_POS :: nat where
  "IAS_TCB_EVAL_STATUS_CPUSVN_OUT_OF_DATE_BIT_POS = 0"
definition IAS_TCB_EVAL_STATUS_ISVSVN_OUT_OF_DATE_BIT_POS :: nat where
  "IAS_TCB_EVAL_STATUS_ISVSVN_OUT_OF_DATE_BIT_POS = 1"
definition IAS_PSE_EVAL_STATUS_ISVSVN_OUT_OF_DATE_BIT_POS :: nat where
  "IAS_PSE_EVAL_STATUS_ISVSVN_OUT_OF_DATE_BIT_POS = 0"
definition IAS_PSE_EVAL_STATUS_EPID_GROUP_REVOKED_BIT_POS :: nat where
  "IAS_PSE_EVAL_STATUS_EPID_GROUP_REVOKED_BIT_POS = 1"
definition IAS_PSE_EVAL_STATUS_PSDASVN_OUT_OF_DATE_BIT_POS :: nat where
  "IAS_PSE_EVAL_STATUS_PSDASVN_OUT_OF_DATE_BIT_POS = 2"
definition IAS_PSE_EVAL_STATUS_SIGRL_OUT_OF_DATE_BIT_POS :: nat where
  "IAS_PSE_EVAL_STATUS_SIGRL_OUT_OF_DATE_BIT_POS = 3"
definition IAS_PSE_EVAL_STATUS_PRIVRL_OUT_OF_DATE_BIT_POS :: nat where
  "IAS_PSE_EVAL_STATUS_PRIVRL_OUT_OF_DATE_BIT_POS = 4"

text \<open>The report before it is signed.\<close>

definition unsigned_report :: "ias_att_report_t \<Rightarrow> ias_att_report_t" where
  "unsigned_report r =
     r\<lparr>report_id := 0x12345678,
       report_status := IAS_QUOTE_OK,
       revocation_reason := ias_revoc_reason_code IAS_REVOC_REASON_NONE,
       info_blob := (info_blob r)\<lparr>
         sample_epid_group_status :=
           push_bit IAS_EPID_GROUP_STATUS_REVOKED_BIT_POS 0 OR
           push_bit IAS_EPID_GROUP_STATUS_REKEY_AVAILABLE_BIT_POS 0,
         sample_tcb_evaluation_status :=
           push_bit IAS_TCB_EVAL_STATUS_CPUSVN_OUT_OF_DATE_BIT_POS 0 OR
           push_bit IAS_TCB_EVAL_STATUS_ISVSVN_OUT_OF_DATE_BIT_POS 0,
         pse_evaluation_status :=
           push_bit IAS_PSE_EVAL_STATUS_ISVSVN_OUT_OF_DATE_BIT_POS 0 OR
           push_bit IAS_PSE_EVAL_STATUS_EPID_GROUP_REVOKED_BIT_POS 0 OR
           push_bit IAS_PSE_EVAL_STATUS_PSDASVN_OUT_OF_DATE_BIT_POS 0 OR
           push_bit IAS_PSE_EVAL_STATUS_SIGRL_OUT_OF_DATE_BIT_POS 0 OR
           push_bit IAS_PSE_EVAL_STATUS_PRIVRL_OUT_OF_DATE_BIT_POS 0,
         latest_equivalent_tcb_psvn := replicate PSVN_SIZE 0,
         latest_pse_isvsvn := replicate ISVSVN_SIZE 0,
         latest_psda_svn := replicate PSDA_SVN_SIZE 0,
         performance_rekey_gid := replicate GID_SIZE 0\<rparr>\<rparr>"

text \<open>The 64 bytes the library wrote over the signature field, seen as its two word arrays.\<close>

definition set_signature :: "byte list \<Rightarrow> ias_att_report_t \<Rightarrow> ias_att_report_t" where
  "set_signature raw r = r\<lparr>info_blob := (info_blob r)\<lparr>signature :=
      \<lparr>sig_x = words_of_bytes (take 32 raw), sig_y = words_of_bytes (drop 32 raw)\<rparr>\<rparr>\<rparr>"

text \<open>
  The macro reads and writes through \<open>unsigned int *\<close>, misaligned in the packed blob; the model takes
  such accesses as x86-64 makes them.
\<close>

definition swap_signature :: "ias_att_report_t \<Rightarrow> ias_att_report_t" where
  "swap_signature r = r\<lparr>info_blob := (info_blob r)\<lparr>signature :=
      \<lparr>sig_x = SWAP_ENDIAN_32B (sig_x (signature (info_blob r))),
       sig_y = SWAP_ENDIAN_32B (sig_y (signature (info_blob r)))\<rparr>\<rparr>\<rparr>"

text \<open>The \<open>do ... while (0)\<close> block: open a context, sign, convert.  Result: \<open>ret\<close>, \<open>ecc_state\<close>, report.\<close>

definition sign_report ::
  "'w libcrypto \<Rightarrow> ias_att_report_t \<Rightarrow> 'w \<Rightarrow> (int \<times> ecc_handle \<times> ias_att_report_t) \<times> 'w" where
  "sign_report L r w =
     (case ecc256_open_context L w of ((st, ecc_state), w1) \<Rightarrow>
        if st \<noteq> SAMPLE_SUCCESS then ((-1, ecc_state, r), w1)
        else (case ecdsa_sign L (blob_signed_bytes (info_blob r)) g_rk_priv_key ecc_state w1 of
                ((st2, raw), w2) \<Rightarrow>
                  if st2 \<noteq> SAMPLE_SUCCESS
                  then ((sp_code SP_INTERNAL_ERROR, ecc_state, set_signature raw r), w2)
                  else ((0, ecc_state, swap_signature (set_signature raw r)), w2)))"

definition ias_verify_attestation_evidence ::
  "'w libcrypto \<Rightarrow> byte list option \<Rightarrow> byte list option \<Rightarrow> ias_att_report_t option \<Rightarrow> 'w \<Rightarrow>
   (int \<times> ias_att_report_t option) \<times> 'w" where
  "ias_verify_attestation_evidence L p_isv_quote pse_manifest p_report w =
     (if p_isv_quote = None then ((-1, p_report), w)
      else (case p_report of
        None \<Rightarrow> ((-1, None), w)
      | Some r \<Rightarrow>
          (case sign_report L (unsigned_report r) w of ((ret, ecc_state, r1), w1) \<Rightarrow>
             ((ret, Some (r1\<lparr>pse_status := IAS_PSE_OK, policy_report_size := 0\<rparr>)),
              if ecc_state \<noteq> None then ecc256_close_context L ecc_state w1 else w1))))"

section \<open>The contract of an attestation server\<close>

text \<open>
  What \<open>service_provider.cpp\<close> needs of the functions behind its group table: a successful
  enrollment leaves a 16-byte SPID; a successful request for the revocation list sets both
  outputs, the list is readable for its size, and message 2 with it fits 32-bit arithmetic.
\<close>

locale attestation_server =
  fixes enroll :: "int \<Rightarrow> byte list option \<Rightarrow> int option \<Rightarrow> int \<times> byte list option \<times> int option"
    and get_sigrl ::
      "byte list \<Rightarrow> u32 option \<Rightarrow> byte list option option \<Rightarrow> int \<times> u32 option \<times> byte list option option"
  assumes enroll_keeps_size: "length spid = 16 \<Longrightarrow>
      \<exists>ret spid' tok'. enroll cred (Some spid) (Some tok) = (ret, Some spid', Some tok') \<and> length spid' = 16"
    and sigrl_sets: "get_sigrl gid (Some n) (Some p) = (0, n', p') \<Longrightarrow>
      \<exists>m q. n' = Some m \<and> p' = Some q \<and> unat m + 176 < 2 ^ 32 \<and>
        (case q of None \<Rightarrow> m = 0 | Some bs \<Rightarrow> unat m \<le> length bs)"
begin

text \<open>The bytes message 2 copies from the list.\<close>

lemma sigrl_readable:
  assumes "get_sigrl gid (Some n) (Some p) = (0, Some m, Some q)"
  shows "load 0 (unat m) (case q of None \<Rightarrow> [] | Some bs \<Rightarrow> bs) \<noteq> None"
  using sigrl_sets [OF assms] by (auto simp: load_def split: option.splits)

text \<open>The 32-bit size of message 2 does not wrap.\<close>

lemma sigrl_no_wrap:
  assumes "get_sigrl gid (Some n) (Some p) = (0, Some m, q)"
  shows "unat (168 + m) = 168 + unat m"
  using sigrl_sets [OF assms] by (auto simp: unat_word_ariths)

end

interpretation ias: attestation_server ias_enroll ias_get_sigrl
  by unfold_locales (auto simp: ias_enroll_def memcpy_s_whole ias_get_sigrl_def split: if_splits)

section \<open>Verification reports\<close>

lemma unsigned_blob_bytes: "blob_signed_bytes (info_blob (unsigned_report r)) = replicate 33 0"
  by (simp add: blob_signed_bytes_def unsigned_report_def wire_sizes le16_def) (simp add: numeral_eq_Suc)

definition signature_bytes :: "sample_ec_sign256_t \<Rightarrow> byte list" where
  "signature_bytes s = bytes_of_words (sig_x s) @ bytes_of_words (sig_y s)"

lemma swapped_signature_bytes:
  assumes "length raw = 64"
  shows "signature_bytes (signature (info_blob (swap_signature (set_signature raw r)))) =
    rev (take 32 raw) @ rev (drop 32 raw)"
proof -
  have "length (words_of_bytes (take 32 raw)) = 8" "length (words_of_bytes (drop 32 raw)) = 8"
    using assms by (simp_all add: length_words_of_bytes)
  then show ?thesis
    using assms by (simp add: signature_bytes_def swap_signature_def set_signature_def
        SWAP_ENDIAN_32B_bytes bytes_of_words_inverse)
qed

text \<open>C20: Verification of a quote with a report buffer yields the report the code promises: a success leaves
  the id, an accepted quote and platform services, and a signature over 33 zero bytes whose two
  halves have been turned to big endian; the ECC context is closed again on every path.\<close>

theorem ias_verify_success:
  assumes "sizes_law L"
    and "ias_verify_attestation_evidence L (Some quote) manifest (Some r) w = ((0, Some r'), w')"
  shows "report_id r' = 0x12345678 \<and> report_status r' = IAS_QUOTE_OK \<and> pse_status r' = IAS_PSE_OK \<and>
    blob_signed_bytes (info_blob r') = replicate 33 0 \<and>
    (\<exists>h raw w1 w2. ecdsa_sign L (replicate 33 0) g_rk_priv_key h w1 = ((SAMPLE_SUCCESS, raw), w2) \<and>
       signature_bytes (signature (info_blob r')) = rev (take 32 raw) @ rev (drop 32 raw))"
proof -
  from assms(2) obtain h raw w0 w1 where
    sign: "ecdsa_sign L (replicate 33 0) g_rk_priv_key h w0 = ((SAMPLE_SUCCESS, raw), w1)" and
    r': "r' = (swap_signature (set_signature raw (unsigned_report r)))\<lparr>pse_status := IAS_PSE_OK, policy_report_size := 0\<rparr>"
    by (auto simp: ias_verify_attestation_evidence_def sign_report_def unsigned_blob_bytes
        split: prod.splits if_splits)
  have "length raw = 64" using sign_size [OF assms(1) sign] .
  then have sig: "signature_bytes (signature (info_blob r')) = rev (take 32 raw) @ rev (drop 32 raw)"
    by (simp add: r' swapped_signature_bytes)
  have blob: "blob_signed_bytes (info_blob r') = blob_signed_bytes (info_blob (unsigned_report r))"
    by (simp add: r' blob_signed_bytes_def swap_signature_def set_signature_def)
  show ?thesis
    using sig sign by (auto simp: blob unsigned_blob_bytes)
      (simp_all add: r' swap_signature_def set_signature_def unsigned_report_def)
qed

definition example_report :: ias_att_report_t where
  "example_report = \<lparr>report_id = 0, report_status = IAS_QUOTE_GROUP_REVOKED, revocation_reason = 1,
     info_blob = \<lparr>sample_epid_group_status = 1, sample_tcb_evaluation_status = 1,
       pse_evaluation_status = 1, latest_equivalent_tcb_psvn = [], latest_pse_isvsvn = [],
       latest_psda_svn = [], performance_rekey_gid = [],
       signature = \<lparr>sig_x = [], sig_y = []\<rparr>\<rparr>,
     pse_status = IAS_PS_HW_GID_REVOKED, policy_report_size = 9\<rparr>"

definition example_verified :: ias_att_report_t where
  "example_verified = the (snd (fst (ias_verify_attestation_evidence example_lib (Some []) None
     (Some example_report) world0)))"

theorem ias_verify_success_witness:
  "report_status example_verified = IAS_QUOTE_OK \<and>
   (\<exists>h raw w1 w2. ecdsa_sign example_lib (replicate 33 0) g_rk_priv_key h w1 = ((SAMPLE_SUCCESS, raw), w2) \<and>
      signature_bytes (signature (info_blob example_verified)) = rev (take 32 raw) @ rev (drop 32 raw))"
proof -
  have "ias_verify_attestation_evidence example_lib (Some []) None (Some example_report) world0 =
      ((0, Some example_verified), world0)"
    by (simp add: example_verified_def ias_verify_attestation_evidence_def sign_report_def
        example_lib_def world0_def split: prod.splits)
  from ias_verify_success [OF example_sizes_law this] show ?thesis by blast
qed

text \<open>The simulated server never rejects: whatever the quote, even when signing fails, the report says
  that quote and platform services are fine, and the ECC context it opened is closed.\<close>

lemma ias_never_rejects:
  assumes "ecc_law L ctxs"
  shows "\<exists>ret r' w'. ias_verify_attestation_evidence L (Some quote) manifest (Some r) w = ((ret, Some r'), w') \<and>
    report_status r' = IAS_QUOTE_OK \<and> pse_status r' = IAS_PSE_OK \<and> ctxs w' = ctxs w"
  by (auto simp: ias_verify_attestation_evidence_def sign_report_def set_signature_def swap_signature_def
      unsigned_report_def ecc_close [OF assms] dest!: ecc_open [OF assms] ecc_sign [OF assms]
      split: prod.split)

end
