(* ===== verification/Layouts.thy ===== *)
theory Layouts
  imports Ias_Ra
begin

text \<open>
  The structure declarations of the attestation headers as C types.  A C type is shallowly
  its size and alignment, a structure a list of named fields; offsets follow the layout rule
  of theory \<open>Wire\<close>, and \<open>#pragma pack(1)\<close> sets the alignment of every member to 1.
  \<open>read_field\<close> and \<open>write_field\<close> are member accesses on the bytes of an object; they are
  typed: a write through one member keeps the object's size and every other member.  The
  offsets that the headers give in comments hold, and the field lists and casts of theory
  \<open>Wire\<close> are the ones of these declarations.
\<close>

section \<open>C types\<close>

type_synonym ctype = "nat \<times> nat"

definition uint8_t :: ctype where "uint8_t = (1, 1)"
definition uint16_t :: ctype where "uint16_t = (2, 2)"
definition uint32_t :: ctype where "uint32_t = (4, 4)"
definition uint64_t :: ctype where "uint64_t = (8, 8)"
definition enum_t :: ctype where "enum_t = (4, 4)"

definition c_array :: "ctype \<Rightarrow> nat \<Rightarrow> ctype" where
  "c_array T n = (n * fst T, snd T)"

definition c_flexible :: "ctype \<Rightarrow> ctype" where
  "c_flexible T = (0, snd T)"

type_synonym cstruct = "(string \<times> ctype) list"

definition packed :: "cstruct \<Rightarrow> cstruct" where
  "packed fs = map (\<lambda>(f, T). (f, (fst T, 1))) fs"

definition sizeof :: "cstruct \<Rightarrow> nat" where
  "sizeof fs = sizeof_struct (map snd fs)"

definition c_struct :: "cstruct \<Rightarrow> ctype" where
  "c_struct fs = (sizeof fs, Max (insert 1 (snd ` set (map snd fs))))"

definition offsets :: "cstruct \<Rightarrow> nat list" where
  "offsets fs = layout 0 (map snd fs)"

definition field_index :: "cstruct \<Rightarrow> string \<Rightarrow> nat" where
  "field_index fs f = length (takeWhile (\<lambda>g. g \<noteq> f) (map fst fs))"

definition offset_of :: "cstruct \<Rightarrow> string \<Rightarrow> nat" where
  "offset_of fs f = offsets fs ! field_index fs f"

definition field_type :: "cstruct \<Rightarrow> string \<Rightarrow> ctype" where
  "field_type fs f = snd (fs ! field_index fs f)"

text \<open>Member accesses \<open>p->f\<close> on the bytes of an object.\<close>

definition read_field :: "cstruct \<Rightarrow> string \<Rightarrow> byte list \<Rightarrow> byte list option" where
  "read_field fs f b = load (offset_of fs f) (fst (field_type fs f)) b"

definition write_field :: "cstruct \<Rightarrow> string \<Rightarrow> byte list \<Rightarrow> byte list \<Rightarrow> byte list option" where
  "write_field fs f v b = (if length v = fst (field_type fs f) then store (offset_of fs f) v b else None)"

definition wf_struct :: "cstruct \<Rightarrow> bool" where
  "wf_struct fs \<longleftrightarrow> distinct (map fst fs) \<and> (\<forall>(f, T) \<in> set fs. 0 < snd T)"

section \<open>Declarations of \<open>remote_attestation_result.h\<close>\<close>

definition SAMPLE_MAC_SIZE :: nat where "SAMPLE_MAC_SIZE = 16"
definition sample_mac_t :: ctype where "sample_mac_t = c_array uint8_t SAMPLE_MAC_SIZE"
definition SAMPLE_FEBITSIZE :: nat where "SAMPLE_FEBITSIZE = 256"
definition SAMPLE_NISTP256_KEY_SIZE :: nat where
  "SAMPLE_NISTP256_KEY_SIZE = SAMPLE_FEBITSIZE div 8 div fst uint32_t"

definition sample_ec_sign256_layout :: cstruct where
  "sample_ec_sign256_layout =
     [(''x'', c_array uint32_t SAMPLE_NISTP256_KEY_SIZE),
      (''y'', c_array uint32_t SAMPLE_NISTP256_KEY_SIZE)]"

definition SAMPLE_SP_TAG_SIZE :: nat where "SAMPLE_SP_TAG_SIZE = 16"

definition sp_aes_gcm_data_layout :: cstruct where
  "sp_aes_gcm_data_layout = packed
     [(''payload_size'', uint32_t),
      (''reserved'', c_array uint8_t 12),
      (''payload_tag'', c_array uint8_t SAMPLE_SP_TAG_SIZE),
      (''payload'', c_flexible uint8_t)]"

definition ias_platform_info_blob_layout :: cstruct where
  "ias_platform_info_blob_layout = packed
     [(''sample_epid_group_status'', uint8_t),
      (''sample_tcb_evaluation_status'', uint16_t),
      (''pse_evaluation_status'', uint16_t),
      (''latest_equivalent_tcb_psvn'', c_array uint8_t PSVN_SIZE),
      (''latest_pse_isvsvn'', c_array uint8_t ISVSVN_SIZE),
      (''latest_psda_svn'', c_array uint8_t PSDA_SVN_SIZE),
      (''performance_rekey_gid'', c_array uint8_t GID_SIZE),
      (''signature'', c_struct sample_ec_sign256_layout)]"

definition sample_ra_att_result_msg_layout :: cstruct where
  "sample_ra_att_result_msg_layout = packed
     [(''platform_info_blob'', c_struct ias_platform_info_blob_layout),
      (''mac'', sample_mac_t),
      (''secret'', c_struct sp_aes_gcm_data_layout)]"

section \<open>Declarations of \<open>ias_ra.h\<close>\<close>

definition SAMPLE_HASH_SIZE :: nat where "SAMPLE_HASH_SIZE = 32"
definition SAMPLE_REPORT_DATA_SIZE :: nat where "SAMPLE_REPORT_DATA_SIZE = 64"
definition sample_measurement_t :: ctype where "sample_measurement_t = c_array uint8_t SAMPLE_HASH_SIZE"
definition sample_report_data_t :: ctype where "sample_report_data_t = c_array uint8_t SAMPLE_REPORT_DATA_SIZE"
definition sample_prod_id_t :: ctype where "sample_prod_id_t = uint16_t"
definition SAMPLE_CPUSVN_SIZE :: nat where "SAMPLE_CPUSVN_SIZE = 16"
definition sample_cpu_svn_t :: ctype where "sample_cpu_svn_t = c_array uint8_t SAMPLE_CPUSVN_SIZE"
definition sample_isv_svn_t :: ctype where "sample_isv_svn_t = uint16_t"

definition sample_attributes_layout :: cstruct where
  "sample_attributes_layout = [(''flags'', uint64_t), (''xfrm'', uint64_t)]"

definition sample_report_body_layout :: cstruct where
  "sample_report_body_layout =
     [(''cpu_svn'', sample_cpu_svn_t),
      (''reserved1'', c_array uint8_t 32),
      (''attributes'', c_struct sample_attributes_layout),
      (''mr_enclave'', sample_measurement_t),
      (''reserved2'', c_array uint8_t 32),
      (''mr_signer'', sample_measurement_t),
      (''reserved3'', c_array uint8_t 32),
      (''mr_reserved1'', sample_measurement_t),
      (''mr_reserved2'', sample_measurement_t),
      (''isv_prod_id'', sample_prod_id_t),
      (''isv_svn'', sample_isv_svn_t),
      (''reserved4'', c_array uint8_t 60),
      (''report_data'', sample_report_data_t)]"

definition ias_att_report_layout :: cstruct where
  "ias_att_report_layout = packed
     [(''id'', uint32_t),
      (''status'', enum_t),
      (''revocation_reason'', uint32_t),
      (''info_blob'', c_struct ias_platform_info_blob_layout),
      (''pse_status'', enum_t),
      (''policy_report_size'', uint32_t),
      (''policy_report'', c_flexible uint8_t)]"

definition sample_epid_group_id_t :: ctype where "sample_epid_group_id_t = c_array uint8_t 4"

definition sample_spid_layout :: cstruct where
  "sample_spid_layout = packed [(''id'', c_array uint8_t 16)]"

definition sample_basename_layout :: cstruct where
  "sample_basename_layout = packed [(''name'', c_array uint8_t 32)]"

definition sample_quote_nonce_layout :: cstruct where
  "sample_quote_nonce_layout = packed [(''rand'', c_array uint8_t 16)]"

definition sample_quote_layout :: cstruct where
  "sample_quote_layout = packed
     [(''version'', uint16_t),
      (''sign_type'', uint16_t),
      (''epid_group_id'', sample_epid_group_id_t),
      (''qe_svn'', sample_isv_svn_t),
      (''reserved'', c_array uint8_t 6),
      (''basename'', c_struct sample_basename_layout),
      (''report_body'', c_struct sample_report_body_layout),
      (''signature_len'', uint32_t),
      (''signature'', c_flexible uint8_t)]"

section \<open>Declarations of \<open>ecp.h\<close> and \<open>sample_libcrypto.h\<close>\<close>

definition sample_ec_priv_layout :: cstruct where
  "sample_ec_priv_layout = [(''r'', c_array uint8_t SAMPLE_ECP_KEY_SIZE)]"

definition sample_ec_dh_shared_layout :: cstruct where
  "sample_ec_dh_shared_layout = [(''s'', c_array uint8_t SAMPLE_ECP_KEY_SIZE)]"

definition sample_ec_key_128bit_t :: ctype where "sample_ec_key_128bit_t = c_array uint8_t 16"

definition SAMPLE_NISTP_ECP256_KEY_SIZE :: nat where
  "SAMPLE_NISTP_ECP256_KEY_SIZE = SAMPLE_ECP256_KEY_SIZE div fst uint32_t"
definition SAMPLE_AESGCM_IV_SIZE :: nat where "SAMPLE_AESGCM_IV_SIZE = 12"
definition SAMPLE_AESGCM_KEY_SIZE :: nat where "SAMPLE_AESGCM_KEY_SIZE = 16"
definition SAMPLE_AESGCM_MAC_SIZE :: nat where "SAMPLE_AESGCM_MAC_SIZE = 16"
definition SAMPLE_CMAC_KEY_SIZE :: nat where "SAMPLE_CMAC_KEY_SIZE = 16"
definition SAMPLE_AESCTR_KEY_SIZE :: nat where "SAMPLE_AESCTR_KEY_SIZE = 16"

definition sample_ec256_dh_shared_layout :: cstruct where
  "sample_ec256_dh_shared_layout = [(''s'', c_array uint8_t SAMPLE_ECP256_KEY_SIZE)]"

definition sample_ec256_private_layout :: cstruct where
  "sample_ec256_private_layout = [(''r'', c_array uint8_t SAMPLE_ECP256_KEY_SIZE)]"

definition sample_ec256_public_layout :: cstruct where
  "sample_ec256_public_layout =
     [(''gx'', c_array uint8_t SAMPLE_ECP256_KEY_SIZE),
      (''gy'', c_array uint8_t SAMPLE_ECP256_KEY_SIZE)]"

definition sample_ec256_signature_layout :: cstruct where
  "sample_ec256_signature_layout =
     [(''x'', c_array uint32_t SAMPLE_NISTP_ECP256_KEY_SIZE),
      (''y'', c_array uint32_t SAMPLE_NISTP_ECP256_KEY_SIZE)]"

definition sample_sha256_hash_t :: ctype where
  "sample_sha256_hash_t = c_array uint8_t SAMPLE_SHA256_HASH_SIZE"
definition sample_aes_gcm_128bit_key_t :: ctype where
  "sample_aes_gcm_128bit_key_t = c_array uint8_t SAMPLE_AESGCM_KEY_SIZE"
definition sample_aes_gcm_128bit_tag_t :: ctype where
  "sample_aes_gcm_128bit_tag_t = c_array uint8_t SAMPLE_AESGCM_MAC_SIZE"
definition sample_cmac_128bit_key_t :: ctype where
  "sample_cmac_128bit_key_t = c_array uint8_t SAMPLE_CMAC_KEY_SIZE"
definition sample_cmac_128bit_tag_t :: ctype where
  "sample_cmac_128bit_tag_t = c_array uint8_t SAMPLE_CMAC_MAC_SIZE"
definition sample_aes_ctr_128bit_key_t :: ctype where
  "sample_aes_ctr_128bit_key_t = c_array uint8_t SAMPLE_AESCTR_KEY_SIZE"

section \<open>Declarations of \<open>network_ra.h\<close> and \<open>service_provider.h\<close>\<close>

text \<open>Messages between the provider and the attestation server; the network simulation does
  not use them.\<close>

datatype ias_msg_type_t =
    TYPE_IAS_ENROLL | TYPE_IAS_GET_SIGRL | TYPE_IAS_SIGRL | TYPE_IAS_ATT_EVIDENCE | TYPE_IAS_ATT_RESULT

definition ra_samp_request_header_layout :: cstruct where
  "ra_samp_request_header_layout = packed
     [(''type'', uint8_t), (''size'', uint32_t), (''align'', c_array uint8_t 3),
      (''body'', c_flexible uint8_t)]"

definition ra_samp_response_header_layout :: cstruct where
  "ra_samp_response_header_layout = packed
     [(''type'', uint8_t), (''status'', c_array uint8_t 2), (''size'', uint32_t),
      (''align'', c_array uint8_t 1), (''body'', c_flexible uint8_t)]"

definition SAMPLE_SP_IV_SIZE :: nat where "SAMPLE_SP_IV_SIZE = 12"

definition sample_ec_pub_layout :: cstruct where
  "sample_ec_pub_layout = packed
     [(''gx'', c_array uint8_t SAMPLE_ECP_KEY_SIZE), (''gy'', c_array uint8_t SAMPLE_ECP_KEY_SIZE)]"

definition sample_ps_sec_prop_desc_layout :: cstruct where
  "sample_ps_sec_prop_desc_layout = packed [(''sample_ps_sec_prop_desc'', c_array uint8_t 256)]"

definition sample_ra_context_t :: ctype where "sample_ra_context_t = uint32_t"
definition sample_key_128bit_t :: ctype where "sample_key_128bit_t = c_array uint8_t 16"
definition sample_ra_key_128_t :: ctype where "sample_ra_key_128_t = sample_key_128bit_t"

definition sample_ra_msg0_layout :: cstruct where
  "sample_ra_msg0_layout = [(''extended_epid_group_id'', uint32_t)]"

definition sample_ra_msg1_layout :: cstruct where
  "sample_ra_msg1_layout =
     [(''g_a'', c_struct sample_ec_pub_layout), (''gid'', sample_epid_group_id_t)]"

definition sample_ra_msg2_layout :: cstruct where
  "sample_ra_msg2_layout =
     [(''g_b'', c_struct sample_ec_pub_layout),
      (''spid'', c_struct sample_spid_layout),
      (''quote_type'', uint16_t),
      (''kdf_id'', uint16_t),
      (''sign_gb_ga'', c_struct sample_ec_sign256_layout),
      (''mac'', sample_mac_t),
      (''sig_rl_size'', uint32_t),
      (''sig_rl'', c_flexible uint8_t)]"

definition sample_ra_msg3_layout :: cstruct where
  "sample_ra_msg3_layout =
     [(''mac'', sample_mac_t),
      (''g_a'', c_struct sample_ec_pub_layout),
      (''ps_sec_prop'', c_struct sample_ps_sec_prop_desc_layout),
      (''quote'', c_flexible uint8_t)]"

section \<open>Members are aligned, in order and apart\<close>

lemma align_up_ge:
  assumes "0 < al"
  shows "off \<le> align_up off al"
proof -
  have "(off + al - 1) div al * al + (off + al - 1) mod al = off + al - 1"
    by (rule div_mult_mod_eq)
  moreover have "(off + al - 1) mod al < al" using assms by simp
  ultimately show ?thesis unfolding align_up_def by linarith
qed

lemma align_up_dvd [simp]: "al dvd align_up off al"
  by (simp add: align_up_def)

lemma length_layout [simp]: "length (layout off fs) = length fs"
  by (induction off fs rule: layout.induct) simp_all

lemma layout_end_ge: "\<forall>f \<in> set fs. 0 < snd f \<Longrightarrow> off \<le> layout_end off fs"
proof (induction off fs rule: layout_end.induct)
  case (2 off sz al fs)
  then show ?case using align_up_ge [of al off] by simp
qed simp

lemma layout_member:
  assumes "\<forall>f \<in> set fs. 0 < snd f" "i < length fs"
  shows "off \<le> layout off fs ! i \<and> snd (fs ! i) dvd layout off fs ! i \<and>
    layout off fs ! i + fst (fs ! i) \<le> layout_end off fs"
  using assms
proof (induction off fs arbitrary: i rule: layout.induct)
  case (2 off sz al fs)
  note up = align_up_ge [of al off]
  show ?case
  proof (cases i)
    case 0
    then show ?thesis using 2(2) up layout_end_ge [of fs "align_up off al + sz"] by simp
  next
    case (Suc j)
    then show ?thesis using 2(1) [of j] 2(2,3) up by simp
  qed
qed simp

lemma layout_order:
  assumes "\<forall>f \<in> set fs. 0 < snd f" "i < j" "j < length fs"
  shows "layout off fs ! i + fst (fs ! i) \<le> layout off fs ! j"
  using assms
proof (induction off fs arbitrary: i j rule: layout.induct)
  case (2 off sz al fs)
  then obtain j' where j: "j = Suc j'" by (cases j) simp_all
  show ?case
  proof (cases i)
    case 0
    then show ?thesis using 2(2,4) j layout_member [of fs j' "align_up off al + sz"] by simp
  next
    case (Suc i')
    then show ?thesis using 2(1) [of i' j'] 2(2,3,4) j by simp
  qed
qed simp

lemma takeWhile_found: "f \<in> set fs \<Longrightarrow> length (takeWhile (\<lambda>g. g \<noteq> f) fs) < length fs"
  by (induction fs) auto

lemma field_index_less:
  assumes "f \<in> fst ` set fs"
  shows "field_index fs f < length fs" "fst (fs ! field_index fs f) = f"
proof -
  show l: "field_index fs f < length fs"
    using takeWhile_found [of f "map fst fs"] assms by (simp add: field_index_def)
  have "\<not> (map fst fs ! field_index fs f \<noteq> f)"
    using nth_length_takeWhile [of "\<lambda>g. g \<noteq> f" "map fst fs"] l by (simp add: field_index_def)
  then show "fst (fs ! field_index fs f) = f" using l by simp
qed

lemma sizeof_ge: "layout_end 0 (map snd fs) \<le> sizeof fs"
proof -
  have "0 < Max (insert 1 (snd ` set (map snd fs)))"
    by (rule order.strict_trans2 [of 0 1]) (auto intro: Max_ge)
  then show ?thesis by (simp add: sizeof_def sizeof_struct_def align_up_ge)
qed

lemma wf_struct_pos: "wf_struct fs \<Longrightarrow> \<forall>f \<in> set (map snd fs). 0 < snd f"
  by (auto simp: wf_struct_def)

lemma field_bounds:
  assumes "wf_struct fs" "f \<in> fst ` set fs"
  shows "offset_of fs f + fst (field_type fs f) \<le> sizeof fs" "snd (field_type fs f) dvd offset_of fs f"
  using layout_member [OF wf_struct_pos [OF assms(1)], of "field_index fs f" 0]
    field_index_less [OF assms(2)] sizeof_ge [of fs]
  by (auto simp: offset_of_def offsets_def field_type_def)

lemma fields_apart:
  assumes "wf_struct fs" "f \<in> fst ` set fs" "g \<in> fst ` set fs" "f \<noteq> g"
  shows "offset_of fs f + fst (field_type fs f) \<le> offset_of fs g \<or>
    offset_of fs g + fst (field_type fs g) \<le> offset_of fs f"
proof -
  have "field_index fs f \<noteq> field_index fs g"
    using field_index_less [OF assms(2)] field_index_less [OF assms(3)] assms(4) by metis
  then consider "field_index fs f < field_index fs g" | "field_index fs g < field_index fs f"
    by linarith
  then show ?thesis
    using layout_order [OF wf_struct_pos [OF assms(1)], of "field_index fs f" "field_index fs g" 0]
      layout_order [OF wf_struct_pos [OF assms(1)], of "field_index fs g" "field_index fs f" 0]
      field_index_less [OF assms(2)] field_index_less [OF assms(3)]
    by cases (auto simp: offset_of_def offsets_def field_type_def)
qed

lemma load_store_same: "store off v b = Some b' \<Longrightarrow> load off (length v) b' = Some v"
  by (auto simp: store_def load_def min_def split: if_splits)

lemma load_store_apart:
  assumes "store off v b = Some b'" "off' + n \<le> off \<or> off + length v \<le> off'"
  shows "load off' n b' = load off' n b"
proof -
  have b': "b' = take off b @ v @ drop (off + length v) b" and le: "off + length v \<le> length b"
    using assms(1) by (auto simp: store_def split: if_splits)
  define rest where "rest = v @ drop (off + length v) b"
  have split: "b' = take off b @ rest" "length (take off b) = off"
    using b' le by (simp_all add: rest_def)
  from assms(2) show ?thesis
  proof
    assume before: "off' + n \<le> off"
    have "take n (drop off' b') = take n (drop off' (take off b))"
      using before split(2) by (simp only: split(1) drop_append take_append) simp
    also have "\<dots> = take n (drop off' b)" using before by (simp add: drop_take)
    finally show ?thesis using store_length [OF assms(1)] by (simp add: load_def)
  next
    assume after: "off + length v \<le> off'"
    have "drop off' b' = drop (off' - off) rest"
      using after split(2) by (simp only: split(1) drop_append) simp
    also have "\<dots> = drop off' b" using after by (simp add: rest_def)
    finally show ?thesis using store_length [OF assms(1)] by (simp add: load_def)
  qed
qed

section \<open>The structures of the program\<close>

definition program_structs :: "cstruct list" where
  "program_structs =
     [sample_ec_sign256_layout, sp_aes_gcm_data_layout, ias_platform_info_blob_layout,
      sample_ra_att_result_msg_layout, sample_attributes_layout, sample_report_body_layout,
      ias_att_report_layout, sample_spid_layout, sample_basename_layout, sample_quote_nonce_layout,
      sample_quote_layout, sample_ec_priv_layout, sample_ec_dh_shared_layout,
      sample_ec256_dh_shared_layout, sample_ec256_private_layout, sample_ec256_public_layout,
      sample_ec256_signature_layout, ra_samp_request_header_layout, ra_samp_response_header_layout,
      sample_ec_pub_layout, sample_ps_sec_prop_desc_layout, sample_ra_msg0_layout,
      sample_ra_msg1_layout, sample_ra_msg2_layout, sample_ra_msg3_layout]"

lemmas layout_defs =
  sample_ec_sign256_layout_def sp_aes_gcm_data_layout_def ias_platform_info_blob_layout_def
  sample_ra_att_result_msg_layout_def sample_attributes_layout_def sample_report_body_layout_def
  ias_att_report_layout_def sample_spid_layout_def sample_basename_layout_def
  sample_quote_nonce_layout_def sample_quote_layout_def sample_ec_priv_layout_def
  sample_ec_dh_shared_layout_def sample_ec256_dh_shared_layout_def sample_ec256_private_layout_def
  sample_ec256_public_layout_def sample_ec256_signature_layout_def ra_samp_request_header_layout_def
  ra_samp_response_header_layout_def sample_ec_pub_layout_def sample_ps_sec_prop_desc_layout_def
  sample_ra_msg0_layout_def sample_ra_msg1_layout_def sample_ra_msg2_layout_def
  sample_ra_msg3_layout_def

lemmas ctype_defs =
  uint8_t_def uint16_t_def uint32_t_def uint64_t_def enum_t_def c_array_def c_flexible_def
  packed_def sizeof_def c_struct_def sizeof_struct_def align_up_def sample_mac_t_def
  SAMPLE_MAC_SIZE_def SAMPLE_NISTP256_KEY_SIZE_def SAMPLE_FEBITSIZE_def SAMPLE_SP_TAG_SIZE_def
  sample_measurement_t_def sample_report_data_t_def SAMPLE_HASH_SIZE_def
  SAMPLE_REPORT_DATA_SIZE_def sample_prod_id_t_def sample_cpu_svn_t_def SAMPLE_CPUSVN_SIZE_def
  sample_isv_svn_t_def sample_epid_group_id_t_def SAMPLE_NISTP_ECP256_KEY_SIZE_def
  SAMPLE_ECP256_KEY_SIZE_def SAMPLE_ECP_KEY_SIZE_def ISVSVN_SIZE_def PSDA_SVN_SIZE_def
  GID_SIZE_def PSVN_SIZE_def

lemma sizeof_structs [simp]:
  "sizeof sample_ec_sign256_layout = 64" "sizeof sp_aes_gcm_data_layout = 32"
  "sizeof ias_platform_info_blob_layout = 97" "sizeof sample_ra_att_result_msg_layout = 145"
  "sizeof sample_attributes_layout = 16" "sizeof sample_report_body_layout = 384"
  "sizeof ias_att_report_layout = 117" "sizeof sample_quote_layout = 436"
  "sizeof sample_ec_pub_layout = 64" "sizeof sample_ra_msg3_layout = 336"
  by (simp_all add: layout_defs ctype_defs)

lemma wf_program_structs:
  assumes "T \<in> set program_structs"
  shows "wf_struct T"
proof -
  have "list_all wf_struct program_structs" by code_simp
  with assms show ?thesis by (simp add: list_all_iff)
qed

text \<open>The offsets that the comments of \<open>remote_attestation_result.h\<close> and \<open>ias_ra.h\<close> give.\<close>

lemma documented_offsets:
  "offsets sp_aes_gcm_data_layout = [0, 4, 16, 32]"
  "offsets sample_report_body_layout = [0, 16, 48, 64, 96, 128, 160, 192, 224, 256, 258, 260, 320]"
  "offsets sample_quote_layout = [0, 2, 4, 8, 10, 16, 48, 432, 436]"
  by code_simp+

text \<open>Structures that stand for the same data on both sides of an interface are laid out alike.\<close>

lemma same_layouts:
  "map snd sample_ec256_signature_layout = map snd sample_ec_sign256_layout"
  "sizeof sample_ec256_public_layout = sizeof sample_ec_pub_layout"
  "sizeof sample_ec256_private_layout = sizeof sample_ec_priv_layout"
  "sizeof sample_ec256_dh_shared_layout = sizeof sample_ec_dh_shared_layout"
  by code_simp+

text \<open>The field lists of theory \<open>Wire\<close> are the ones of these declarations.\<close>

lemma wire_fields:
  "ra_samp_request_header_fields = map snd ra_samp_request_header_layout"
  "ra_samp_response_header_fields = map snd ra_samp_response_header_layout"
  "sample_ra_msg0_fields = map snd sample_ra_msg0_layout"
  "sample_ra_msg1_fields = map snd sample_ra_msg1_layout"
  "sample_ra_msg2_fields = map snd sample_ra_msg2_layout"
  by code_simp+

text \<open>The blob's bytes in front of its signature are what the report key signs.\<close>

lemma blob_signature_offset: "offset_of ias_platform_info_blob_layout ''signature'' = 33"
  by code_simp

lemma msg2_offsets:
  "offset_of sample_ra_msg2_layout ''g_b'' = 0" "offset_of sample_ra_msg2_layout ''spid'' = 64"
  "offset_of sample_ra_msg2_layout ''quote_type'' = 80" "offset_of sample_ra_msg2_layout ''kdf_id'' = 82"
  "offset_of sample_ra_msg2_layout ''sign_gb_ga'' = 84" "offset_of sample_ra_msg2_layout ''mac'' = 148"
  "offset_of sample_ra_msg2_layout ''sig_rl_size'' = 164" "offset_of sample_ra_msg2_layout ''sig_rl'' = 168"
  by code_simp+

lemma msg2_types:
  "fst (field_type sample_ra_msg2_layout ''g_b'') = 64" "fst (field_type sample_ra_msg2_layout ''spid'') = 16"
  "fst (field_type sample_ra_msg2_layout ''quote_type'') = 2" "fst (field_type sample_ra_msg2_layout ''kdf_id'') = 2"
  "fst (field_type sample_ra_msg2_layout ''sign_gb_ga'') = 64" "fst (field_type sample_ra_msg2_layout ''mac'') = 16"
  "fst (field_type sample_ra_msg2_layout ''sig_rl_size'') = 4" "fst (field_type sample_ra_msg2_layout ''sig_rl'') = 0"
  by code_simp+

text \<open>The casts of theory \<open>Wire\<close> are member accesses.\<close>

lemma cast_msg1_members:
  assumes "sizeof_msg1 \<le> length b"
  shows "read_field sample_ra_msg1_layout ''g_a'' b = Some (msg1_g_a (cast_msg1 b))"
    "read_field sample_ra_msg1_layout ''gid'' b = Some (msg1_gid (cast_msg1 b))"
proof -
  have "offset_of sample_ra_msg1_layout ''g_a'' = 0" "fst (field_type sample_ra_msg1_layout ''g_a'') = 64"
    "offset_of sample_ra_msg1_layout ''gid'' = 64" "fst (field_type sample_ra_msg1_layout ''gid'') = 4"
    by code_simp+
  then show "read_field sample_ra_msg1_layout ''g_a'' b = Some (msg1_g_a (cast_msg1 b))"
    "read_field sample_ra_msg1_layout ''gid'' b = Some (msg1_gid (cast_msg1 b))"
    using assms by (simp_all add: read_field_def load_def cast_msg1_def)
qed

lemma cast_msg2_members:
  assumes "sizeof_response_header + sizeof_msg2 \<le> length b"
  shows "read_field sample_ra_msg2_layout ''g_b'' (resp_body b) = Some (msg2_g_b (cast_msg2 b))"
    "read_field sample_ra_msg2_layout ''spid'' (resp_body b) = Some (msg2_spid (cast_msg2 b))"
    "map_option of_le16 (read_field sample_ra_msg2_layout ''quote_type'' (resp_body b)) =
      Some (msg2_quote_type (cast_msg2 b))"
    "map_option of_le16 (read_field sample_ra_msg2_layout ''kdf_id'' (resp_body b)) =
      Some (msg2_kdf (cast_msg2 b))"
    "read_field sample_ra_msg2_layout ''sign_gb_ga'' (resp_body b) = Some (msg2_sign_gb_ga (cast_msg2 b))"
    "read_field sample_ra_msg2_layout ''mac'' (resp_body b) = Some (msg2_mac (cast_msg2 b))"
    "map_option of_le32 (read_field sample_ra_msg2_layout ''sig_rl_size'' (resp_body b)) =
      Some (msg2_sig_rl_size (cast_msg2 b))"
    "drop (offset_of sample_ra_msg2_layout ''sig_rl'') (resp_body b) = msg2_sig_rl (cast_msg2 b)"
  using assms by (simp_all add: read_field_def load_def cast_msg2_def resp_body_def msg2_offsets msg2_types)

text \<open>Member access is typed in every structure the headers declare: a value of the member's size
  written into an object is stored at an offset aligned for the member, keeps the object's size,
  is read back through the same member and changes no other member.\<close>

lemma field_access_typed:
  assumes "T \<in> set program_structs" and "f \<in> fst ` set T"
    and "length v = fst (field_type T f)" and "sizeof T \<le> length b"
  shows "\<exists>b'. write_field T f v b = Some b' \<and> length b' = length b \<and>
    snd (field_type T f) dvd offset_of T f \<and> read_field T f b' = Some v \<and>
    (\<forall>g \<in> fst ` set T. g \<noteq> f \<longrightarrow> read_field T g b' = read_field T g b)"
proof -
  note wf = wf_program_structs [OF assms(1)]
  note inside = field_bounds [OF wf assms(2)]
  then obtain b' where w: "store (offset_of T f) v b = Some b'"
    using assms(3,4) by (simp add: store_def)
  have "read_field T g b' = read_field T g b" if "g \<in> fst ` set T" "g \<noteq> f" for g
    unfolding read_field_def using fields_apart [OF wf assms(2) that(1)] that(2) assms(3)
    by (intro load_store_apart [OF w]) auto
  then show ?thesis
    using w inside(2) store_length [OF w] load_store_same [OF w] assms(3)
    by (auto simp: write_field_def read_field_def)
qed

end
