(* ===== verification/Service_Provider.thy ===== *)
theory Service_Provider
  imports Ias_Ra Sp_Constants
begin

text \<open>
  \<open>service_provider/service_provider.cpp\<close>: the global state of the service provider and its two
  live handlers, \<open>sp_ra_proc_msg0_req\<close> (registration with the attestation server) and
  \<open>sp_ra_proc_msg1_req\<close> (the key exchange that answers message 1 with message 2).  The handlers
  take the table of extended EPID groups as an argument, as the code reads it through the
  function pointers of \<open>g_extended_epid_groups\<close>.  Messages are written into an allocated
  block by bounds-checked stores; a result \<open>Inl Undefined\<close> is undefined behaviour.

  A handler returns its code and what it did to the caller's response pointer:
  \<open>None\<close> when the pointer was not written, \<open>Some None\<close> when it was set to null,
  \<open>Some (Some b)\<close> when it was set to the block \<open>b\<close>.
\<close>

section \<open>State\<close>

record 'w sample_extended_epid_group =
  group_id :: u32
  grp_enroll :: "int \<Rightarrow> byte list option \<Rightarrow> int option \<Rightarrow> int \<times> byte list option \<times> int option"
  grp_get_sigrl ::
    "byte list \<Rightarrow> u32 option \<Rightarrow> byte list option option \<Rightarrow> int \<times> u32 option \<times> byte list option option"
  grp_verify :: "byte list option \<Rightarrow> byte list option \<Rightarrow> ias_att_report_t option \<Rightarrow> 'w \<Rightarrow>
    (int \<times> ias_att_report_t option) \<times> 'w"

definition g_extended_epid_groups :: "'w libcrypto \<Rightarrow> 'w sample_extended_epid_group list" where
  "g_extended_epid_groups L =
     [\<lparr>group_id = 0, grp_enroll = ias_enroll, grp_get_sigrl = ias_get_sigrl,
       grp_verify = ias_verify_attestation_evidence L\<rparr>]"

record sp_db_item_t =
  db_g_a :: "byte list"
  db_g_b :: "byte list"
  vk_key :: "byte list"
  mk_key :: "byte list"
  sk_key :: "byte list"
  smk_key :: "byte list"
  db_b :: "byte list"
  ps_sec_prop :: "byte list"

text \<open>The globals; \<open>g_sp_extended_epid_group_id\<close> points into the table, so it is an index.\<close>

record 'w sp_state =
  g_sp_db :: sp_db_item_t
  g_sp_extended_epid_group_id :: "nat option"
  g_is_sp_registered :: bool
  g_sp_credentials :: int
  g_authentication_token :: int
  g_spid :: "byte list"
  sp_world :: 'w

definition sp_init :: "'w \<Rightarrow> 'w sp_state" where
  "sp_init w =
     \<lparr>g_sp_db = \<lparr>db_g_a = replicate 64 0, db_g_b = replicate 64 0, vk_key = replicate 16 0,
        mk_key = replicate 16 0, sk_key = replicate 16 0, smk_key = replicate 16 0,
        db_b = replicate 32 0, ps_sec_prop = replicate 256 0\<rparr>,
      g_sp_extended_epid_group_id = None, g_is_sp_registered = False,
      g_sp_credentials = 0, g_authentication_token = 0, g_spid = replicate 16 0, sp_world = w\<rparr>"

type_synonym handler_result = "ub + int \<times> byte list option option"

definition group_at :: "'g list \<Rightarrow> nat option \<Rightarrow> 'g option" where
  "group_at groups p = (case p of None \<Rightarrow> None | Some i \<Rightarrow> if i < length groups then Some (groups ! i) else None)"

section \<open>Message 0\<close>

text \<open>
  The search through the group table from index \<open>i\<close> on: a match stores the pointer and
  enrolls; a failed enrollment jumps to \<open>CLEANUP\<close>.
\<close>

fun msg0_register ::
  "'w sample_extended_epid_group list \<Rightarrow> nat \<Rightarrow> u32 \<Rightarrow> 'w sp_state \<Rightarrow> (stop + int) \<times> 'w sp_state" where
  "msg0_register [] i gid s = (Inr (sp_code SP_UNSUPPORTED_EXTENDED_EPID_GROUP), s)"
| "msg0_register (g # gs) i gid s =
     (if group_id g = gid then
        (let s1 = s\<lparr>g_sp_extended_epid_group_id := Some i\<rparr> in
         case grp_enroll g (g_sp_credentials s1) (Some (g_spid s1)) (Some (g_authentication_token s1)) of
           (ret, Some spid, Some tok) \<Rightarrow>
             (let s2 = s1\<lparr>g_spid := spid, g_authentication_token := tok\<rparr> in
              if ret \<noteq> 0 then (Inl (Break (sp_code SP_IAS_FAILED)), s2)
              else (Inr ret, s2\<lparr>g_is_sp_registered := True\<rparr>))
         | _ \<Rightarrow> (Inl Fault, s1))
      else msg0_register gs (Suc i) gid s)"

definition msg0_must_register :: "'w sample_extended_epid_group list \<Rightarrow> u32 \<Rightarrow> 'w sp_state \<Rightarrow> bool" where
  "msg0_must_register groups gid s \<longleftrightarrow>
     \<not> g_is_sp_registered s \<or>
     (g_sp_extended_epid_group_id s \<noteq> None \<and>
      (case group_at groups (g_sp_extended_epid_group_id s) of None \<Rightarrow> False | Some g \<Rightarrow> group_id g \<noteq> gid))"

text \<open>The response block: zeroed, the key ids copied into its body, then the header fields.\<close>

definition msg0_response :: "byte list option" where
  "msg0_response =
     (let msg0_resp_size = length g_ecdsa_p256_att_key_id_list in
      do {
        (_, b1) \<leftarrow> memcpy_s (off_resp 4) msg0_resp_size g_ecdsa_p256_att_key_id_list msg0_resp_size
                     (replicate (msg0_resp_size + sizeof_response_header) 0);
        b2 \<leftarrow> store (off_resp 0) [ra_msg_type_code TYPE_RA_MSG0] b1;
        b3 \<leftarrow> store (off_resp 2) (le32 (of_nat msg0_resp_size)) b2;
        b4 \<leftarrow> store (off_resp 1) [0] b3;
        store (off_resp 1 + 1) [0] b4
      })"

text \<open>From the allocation of the response to \<open>CLEANUP\<close>.\<close>

definition msg0_respond :: "'w libcrypto \<Rightarrow> 'w sp_state \<Rightarrow> handler_result \<times> 'w sp_state" where
  "msg0_respond L s =
     (case malloc L (length g_ecdsa_p256_att_key_id_list + sizeof_response_header) (sp_world s) of (got, w) \<Rightarrow>
        let s1 = s\<lparr>sp_world := w\<rparr> in
        if \<not> got then (Inr (sp_code SP_INTERNAL_ERROR, Some None), s1)
        else (case msg0_response of
                None \<Rightarrow> (Inl Undefined, s1)
              | Some b \<Rightarrow> (Inr (sp_code SP_OK, Some (Some b)), s1)))"

definition sp_ra_proc_msg0_req ::
  "'w sample_extended_epid_group list \<Rightarrow> 'w libcrypto \<Rightarrow> sample_ra_msg0_t option \<Rightarrow> u32 \<Rightarrow> bool \<Rightarrow>
   'w sp_state \<Rightarrow> handler_result \<times> 'w sp_state" where
  "sp_ra_proc_msg0_req groups L p_msg0 msg0_size pp_given s =
     (case p_msg0 of
        None \<Rightarrow> (Inr (-1, None), s)
      | Some m \<Rightarrow>
          if \<not> pp_given \<or> msg0_size \<noteq> of_nat sizeof_msg0 then (Inr (-1, None), s)
          else if msg0_must_register groups (extended_epid_group_id m) s then
            (case msg0_register groups 0 (extended_epid_group_id m) s of
               (Inl Fault, s1) \<Rightarrow> (Inl Undefined, s1)
             | (Inl (Break ret), s1) \<Rightarrow> (Inr (ret, Some None), s1)
             | (Inr _, s1) \<Rightarrow> msg0_respond L s1)
          else msg0_respond L s)"

section \<open>Message 1\<close>

text \<open>The frame of the handler: the globals and the locals its epilogue needs.\<close>

record 'w msg1_frame =
  sp :: "'w sp_state"
  ecc_state :: ecc_handle
  p_msg2_full :: "byte list option"

type_synonym ('w, 'a) msg1_stmt = "'w msg1_frame \<Rightarrow> (stop + 'a) \<times> 'w msg1_frame"

text \<open>A library call, an update of \<open>g_sp_db\<close>, a store into the response block.\<close>

definition lib_call :: "('w \<Rightarrow> 'a \<times> 'w) \<Rightarrow> ('w, 'a) msg1_stmt" where
  "lib_call f = on_part (\<lambda>fr. sp_world (sp fr)) (\<lambda>w fr. fr\<lparr>sp := (sp fr)\<lparr>sp_world := w\<rparr>\<rparr>) f"

definition set_db :: "(sp_db_item_t \<Rightarrow> sp_db_item_t) \<Rightarrow> ('w, unit) msg1_stmt" where
  "set_db f = modify (\<lambda>fr. fr\<lparr>sp := (sp fr)\<lparr>g_sp_db := f (g_sp_db (sp fr))\<rparr>\<rparr>)"

definition put :: "nat \<Rightarrow> byte list \<Rightarrow> ('w, unit) msg1_stmt" where
  "put off bs fr =
     (case p_msg2_full fr of
        None \<Rightarrow> (Inl Fault, fr)
      | Some b \<Rightarrow> (case store off bs b of
            None \<Rightarrow> (Inl Fault, fr)
          | Some b' \<Rightarrow> (Inr (), fr\<lparr>p_msg2_full := Some b'\<rparr>)))"

text \<open>\<open>if (memcpy_s(...)) { ret = SP_INTERNAL_ERROR; break; }\<close> into the block and into \<open>g_sp_db\<close>.\<close>

definition put_copy :: "nat \<Rightarrow> nat \<Rightarrow> byte list \<Rightarrow> nat \<Rightarrow> ('w, unit) msg1_stmt" where
  "put_copy off cap src n fr =
     (case p_msg2_full fr of
        None \<Rightarrow> (Inl Fault, fr)
      | Some b \<Rightarrow> (case memcpy_s off cap src n b of
            None \<Rightarrow> (Inl Fault, fr)
          | Some (err, b') \<Rightarrow>
              check (err = 0) (Break (sp_code SP_INTERNAL_ERROR)) (fr\<lparr>p_msg2_full := Some b'\<rparr>)))"

definition copy_db ::
  "(sp_db_item_t \<Rightarrow> byte list) \<Rightarrow> ((byte list \<Rightarrow> byte list) \<Rightarrow> sp_db_item_t \<Rightarrow> sp_db_item_t) \<Rightarrow>
   nat \<Rightarrow> byte list \<Rightarrow> ('w, unit) msg1_stmt" where
  "copy_db get upd n src =
     attempt (reads (\<lambda>fr. memcpy_s 0 n src n (get (g_sp_db (sp fr))))) (\<lambda>r.
     attempt (defined r) (\<lambda>(err, new).
     attempt (set_db (upd (\<lambda>_. new))) (\<lambda>_.
     check (err = 0) (Break (sp_code SP_INTERNAL_ERROR)))))"

definition msg1_open_context :: "'w libcrypto \<Rightarrow> ('w, unit) msg1_stmt" where
  "msg1_open_context L =
     attempt (lib_call (ecc256_open_context L)) (\<lambda>(sample_ret, h).
     attempt (modify (\<lambda>fr. fr\<lparr>ecc_state := h\<rparr>)) (\<lambda>_.
     check (sample_ret = SAMPLE_SUCCESS) (Break (-1))))"

definition msg1_create_keys :: "'w libcrypto \<Rightarrow> ('w, byte list \<times> byte list) msg1_stmt" where
  "msg1_create_keys L =
     attempt (reads ecc_state) (\<lambda>h.
     attempt (lib_call (ecc256_create_key_pair L h)) (\<lambda>(sample_ret, priv_key, pub_key).
     attempt (check (sample_ret = SAMPLE_SUCCESS) (Break (sp_code SP_INTERNAL_ERROR))) (\<lambda>_.
     ok (priv_key, pub_key))))"

definition msg1_shared_key :: "'w libcrypto \<Rightarrow> byte list \<Rightarrow> byte list \<Rightarrow> ('w, byte list) msg1_stmt" where
  "msg1_shared_key L priv_key g_a =
     attempt (reads ecc_state) (\<lambda>h.
     attempt (lib_call (ecc256_compute_shared_dhkey L priv_key g_a h)) (\<lambda>(sample_ret, dh_key).
     attempt (check (sample_ret = SAMPLE_SUCCESS) (Break (sp_code SP_INTERNAL_ERROR))) (\<lambda>_.
     ok dh_key)))"

text \<open>The list is requested with a zero size and an uninitialised pointer (here null).\<close>

definition msg1_get_sigrl ::
  "'w sample_extended_epid_group list \<Rightarrow> byte list \<Rightarrow> ('w, u32 \<times> byte list option) msg1_stmt" where
  "msg1_get_sigrl groups gid =
     attempt (reads (\<lambda>fr. group_at groups (g_sp_extended_epid_group_id (sp fr)))) (\<lambda>g.
     attempt (defined g) (\<lambda>grp.
       (case grp_get_sigrl grp gid (Some 0) (Some None) of (ret, n, p) \<Rightarrow>
          attempt (check (ret = 0) (Break (sp_code SP_IAS_FAILED))) (\<lambda>_.
          attempt (defined n) (\<lambda>sig_rl_size.
          attempt (defined p) (\<lambda>sig_rl.
          ok (sig_rl_size, sig_rl)))))))"

text \<open>One call of \<open>derive_key\<close> into a key of \<open>g_sp_db\<close>.\<close>

definition msg1_derive ::
  "'w libcrypto \<Rightarrow> ((byte list \<Rightarrow> byte list) \<Rightarrow> sp_db_item_t \<Rightarrow> sp_db_item_t) \<Rightarrow>
   sample_derive_key_type_t \<Rightarrow> byte list \<Rightarrow> ('w, unit) msg1_stmt" where
  "msg1_derive L upd key_id dh_key =
     attempt (lib_call (derive_key L dh_key (derive_key_code key_id))) (\<lambda>r.
       (case r of
          Inl Undefined \<Rightarrow> leave Fault
        | Inr (derive_ret, out) \<Rightarrow>
            attempt (set_db (case out of None \<Rightarrow> id | Some key \<Rightarrow> upd (\<lambda>_. key))) (\<lambda>_.
            check derive_ret (Break (sp_code SP_INTERNAL_ERROR)))))"

text \<open>One call of the supplied derivation into two keys.\<close>

definition msg1_derive_supplied ::
  "(sample_status_t, 'w) sha_api \<Rightarrow>
   ((byte list \<Rightarrow> byte list) \<Rightarrow> sp_db_item_t \<Rightarrow> sp_db_item_t) \<Rightarrow>
   ((byte list \<Rightarrow> byte list) \<Rightarrow> sp_db_item_t \<Rightarrow> sp_db_item_t) \<Rightarrow>
   sample_derive_key_type_supplied_t \<Rightarrow> byte list \<Rightarrow> ('w, unit) msg1_stmt" where
  "msg1_derive_supplied A upd1 upd2 key_id dh_key =
     attempt (lib_call (derive_key_supplied A dh_key (derive_key_supplied_code key_id))) (\<lambda>(derive_ret, out).
     attempt (set_db (case out of None \<Rightarrow> id | Some (k1, k2) \<Rightarrow> upd2 (\<lambda>_. k2) \<circ> upd1 (\<lambda>_. k1))) (\<lambda>_.
     check derive_ret (Break (sp_code SP_INTERNAL_ERROR))))"

text \<open>The four keys; \<open>supplied\<close> is the compile-time flag \<open>SUPPLIED_KEY_DERIVATION\<close>.\<close>

definition msg1_derive_keys ::
  "bool \<Rightarrow> 'w libcrypto \<Rightarrow> (sample_status_t, 'w) sha_api \<Rightarrow> byte list \<Rightarrow> ('w, unit) msg1_stmt" where
  "msg1_derive_keys supplied L A dh_key =
     (if supplied then
        attempt (msg1_derive_supplied A smk_key_update sk_key_update SAMPLE_DERIVE_KEY_SMK_SK dh_key) (\<lambda>_.
        msg1_derive_supplied A mk_key_update vk_key_update SAMPLE_DERIVE_KEY_MK_VK dh_key)
      else
        attempt (msg1_derive L smk_key_update SAMPLE_DERIVE_KEY_SMK dh_key) (\<lambda>_.
        attempt (msg1_derive L mk_key_update SAMPLE_DERIVE_KEY_MK dh_key) (\<lambda>_.
        attempt (msg1_derive L sk_key_update SAMPLE_DERIVE_KEY_SK dh_key) (\<lambda>_.
        msg1_derive L vk_key_update SAMPLE_DERIVE_KEY_VK dh_key))))"

text \<open>Allocation and header of the response; \<open>msg2_size\<close> is computed in 32 bits.\<close>

definition msg1_allocate :: "'w libcrypto \<Rightarrow> u32 \<Rightarrow> ('w, unit) msg1_stmt" where
  "msg1_allocate L sig_rl_size =
     (let msg2_size = of_nat sizeof_msg2 + sig_rl_size in
     attempt (lib_call (malloc L (unat msg2_size + sizeof_response_header))) (\<lambda>got.
     attempt (check got (Break (sp_code SP_INTERNAL_ERROR))) (\<lambda>_.
     attempt (modify (\<lambda>fr. fr\<lparr>p_msg2_full :=
         Some (replicate (unat msg2_size + sizeof_response_header) 0)\<rparr>)) (\<lambda>_.
     attempt (put (off_resp 0) [ra_msg_type_code TYPE_RA_MSG2]) (\<lambda>_.
     attempt (put (off_resp 2) (le32 msg2_size)) (\<lambda>_.
     attempt (put (off_resp 1) [0]) (\<lambda>_.
     put (off_resp 1 + 1) [0])))))))"

definition SAMPLE_QUOTE_LINKABLE_SIGNATURE :: u16 where "SAMPLE_QUOTE_LINKABLE_SIGNATURE = 1"
definition SAMPLE_AES_CMAC_KDF_ID :: u16 where "SAMPLE_AES_CMAC_KDF_ID = 0x0001"
definition SP_ISV_KDF_ID :: u16 where "SP_ISV_KDF_ID = 2"

definition msg1_assemble :: "bool \<Rightarrow> ('w, unit) msg1_stmt" where
  "msg1_assemble supplied =
     attempt (reads (\<lambda>fr. (db_g_b (g_sp_db (sp fr)), g_spid (sp fr)))) (\<lambda>(g_b, spid).
     attempt (put_copy (off_msg2 0) 64 g_b 64) (\<lambda>_.
     attempt (put_copy (off_msg2 1) 16 spid 16) (\<lambda>_.
     attempt (put (off_msg2 2) (le16 SAMPLE_QUOTE_LINKABLE_SIGNATURE)) (\<lambda>_.
     put (off_msg2 3) (le16 (if supplied then SP_ISV_KDF_ID else SAMPLE_AES_CMAC_KDF_ID))))))"

text \<open>The local \<open>gb_ga[2]\<close>, filled by two copies.\<close>

definition gb_ga :: "sp_db_item_t \<Rightarrow> (int \<times> byte list) option" where
  "gb_ga db = do {
     (err, b1) \<leftarrow> memcpy_s 0 64 (db_g_b db) 64 (replicate 128 0);
     if err \<noteq> 0 then Some (err, b1) else memcpy_s 64 64 (db_g_a db) 64 b1 }"

definition msg1_sign :: "'w libcrypto \<Rightarrow> ('w, unit) msg1_stmt" where
  "msg1_sign L =
     attempt (reads (\<lambda>fr. gb_ga (g_sp_db (sp fr)))) (\<lambda>r.
     attempt (defined r) (\<lambda>(err, data).
     attempt (check (err = 0) (Break (sp_code SP_INTERNAL_ERROR))) (\<lambda>_.
     attempt (reads ecc_state) (\<lambda>h.
     attempt (lib_call (ecdsa_sign L data g_sp_priv_key h)) (\<lambda>(sample_ret, sig).
     attempt (put (off_msg2 4) sig) (\<lambda>_.
     check (sample_ret = SAMPLE_SUCCESS) (Break (sp_code SP_INTERNAL_ERROR))))))))"

text \<open>\<open>cmac_size\<close> is the offset of the \<open>mac\<close> field in the message.\<close>

definition msg1_mac :: "'w libcrypto \<Rightarrow> ('w, unit) msg1_stmt" where
  "msg1_mac L =
     attempt (reads (\<lambda>fr. Option.bind (p_msg2_full fr) (load (off_msg2 0) (off_msg2 5 - off_msg2 0)))) (\<lambda>r.
     attempt (defined r) (\<lambda>data.
     attempt (reads (\<lambda>fr. smk_key (g_sp_db (sp fr)))) (\<lambda>smk.
     attempt (lib_call (cmac_msg L smk data)) (\<lambda>(sample_ret, mac).
     attempt (check (sample_ret = SAMPLE_SUCCESS) (Break (sp_code SP_INTERNAL_ERROR))) (\<lambda>_.
     put_copy (off_msg2 5) 16 mac 16)))))"

text \<open>
  A checked copy from a pointer that may be null: \<open>memcpy\<close> from null is undefined, except for 0
  bytes where the platform defines it.
\<close>

definition put_copy_from :: "bool \<Rightarrow> nat \<Rightarrow> nat \<Rightarrow> byte list option \<Rightarrow> nat \<Rightarrow> ('w, unit) msg1_stmt" where
  "put_copy_from null_ok off cap src n =
     (case src of
        Some bs \<Rightarrow> put_copy off cap bs n
      | None \<Rightarrow>
          if cap < n then leave (Break (sp_code SP_INTERNAL_ERROR))
          else if n = 0 \<and> null_ok then ok ()
          else leave Fault)"

definition msg1_put_sigrl :: "'w libcrypto \<Rightarrow> u32 \<Rightarrow> byte list option \<Rightarrow> ('w, unit) msg1_stmt" where
  "msg1_put_sigrl L sig_rl_size sig_rl =
     attempt (put_copy_from (null_memcpy L) (off_msg2 7) (unat sig_rl_size) sig_rl (unat sig_rl_size)) (\<lambda>_.
     put (off_msg2 6) (le32 sig_rl_size))"

text \<open>From the allocation of the response to the end of the \<open>do ... while (0)\<close> body.\<close>

definition msg1_write_response ::
  "bool \<Rightarrow> 'w libcrypto \<Rightarrow> u32 \<Rightarrow> byte list option \<Rightarrow> ('w, unit) msg1_stmt" where
  "msg1_write_response supplied L sig_rl_size sig_rl =
     attempt (msg1_allocate L sig_rl_size) (\<lambda>_.
     attempt (msg1_assemble supplied) (\<lambda>_.
     attempt (msg1_sign L) (\<lambda>_.
     attempt (msg1_mac L) (\<lambda>_.
     msg1_put_sigrl L sig_rl_size sig_rl))))"

text \<open>From the shared key on: revocation list, session keys, response.\<close>

definition msg1_agree ::
  "bool \<Rightarrow> 'w sample_extended_epid_group list \<Rightarrow> 'w libcrypto \<Rightarrow> (sample_status_t, 'w) sha_api \<Rightarrow>
   sample_ra_msg1_t \<Rightarrow> byte list \<Rightarrow> ('w, unit) msg1_stmt" where
  "msg1_agree supplied groups L A m priv_key =
     attempt (msg1_shared_key L priv_key (msg1_g_a m)) (\<lambda>dh_key.
     attempt (msg1_get_sigrl groups (msg1_gid m)) (\<lambda>(sig_rl_size, sig_rl).
     attempt (msg1_derive_keys supplied L A dh_key) (\<lambda>_.
     msg1_write_response supplied L sig_rl_size sig_rl)))"

text \<open>The body of the \<open>do ... while (0)\<close> statement.\<close>

definition msg1_body ::
  "bool \<Rightarrow> 'w sample_extended_epid_group list \<Rightarrow> 'w libcrypto \<Rightarrow> (sample_status_t, 'w) sha_api \<Rightarrow>
   sample_ra_msg1_t \<Rightarrow> ('w, unit) msg1_stmt" where
  "msg1_body supplied groups L A m =
     attempt (copy_db db_g_a db_g_a_update 64 (msg1_g_a m)) (\<lambda>_.
     attempt (msg1_open_context L) (\<lambda>_.
     attempt (msg1_create_keys L) (\<lambda>(priv_key, pub_key).
     attempt (copy_db db_b db_b_update 32 priv_key) (\<lambda>_.
     attempt (copy_db db_g_b db_g_b_update 64 pub_key) (\<lambda>_.
     msg1_agree supplied groups L A m priv_key)))))"

text \<open>The epilogue: hand over or free the response, close the ECC context.\<close>

definition msg1_finish :: "'w libcrypto \<Rightarrow> (stop + unit) \<times> 'w msg1_frame \<Rightarrow> handler_result \<times> 'w sp_state" where
  "msg1_finish L r =
     (case r of
        (Inl Fault, fr) \<Rightarrow> (Inl Undefined, sp fr)
      | (res, fr) \<Rightarrow>
          let ret = (case res of Inl (Break e) \<Rightarrow> e | _ \<Rightarrow> 0);
              s = sp fr;
              s1 = (if ret \<noteq> 0 \<and> p_msg2_full fr \<noteq> None
                    then s\<lparr>sp_world := free_block L (sp_world s)\<rparr> else s);
              s2 = (if ecc_state fr \<noteq> None
                    then s1\<lparr>sp_world := ecc256_close_context L (ecc_state fr) (sp_world s1)\<rparr> else s1)
          in (Inr (ret, Some (if ret \<noteq> 0 then None else p_msg2_full fr)), s2))"

definition sp_ra_proc_msg1_req ::
  "bool \<Rightarrow> 'w sample_extended_epid_group list \<Rightarrow> 'w libcrypto \<Rightarrow> (sample_status_t, 'w) sha_api \<Rightarrow>
   sample_ra_msg1_t option \<Rightarrow> u32 \<Rightarrow> bool \<Rightarrow> 'w sp_state \<Rightarrow> handler_result \<times> 'w sp_state" where
  "sp_ra_proc_msg1_req supplied groups L A p_msg1 msg1_size pp_given s =
     (case p_msg1 of
        None \<Rightarrow> (Inr (-1, None), s)
      | Some m \<Rightarrow>
          if \<not> pp_given \<or> msg1_size \<noteq> of_nat sizeof_msg1 then (Inr (-1, None), s)
          else if \<not> g_is_sp_registered s then (Inr (sp_code SP_UNSUPPORTED_EXTENDED_EPID_GROUP, None), s)
          else msg1_finish L (msg1_body supplied groups L A m \<lparr>sp = s, ecc_state = None, p_msg2_full = None\<rparr>))"

end
