(* ===== verification/Sp_Correctness.thy ===== *)
theory Sp_Correctness
  imports Service_Provider
begin

text \<open>
  What the handlers of the service provider guarantee: no undefined behaviour, the invariant
  of the globals, the exact bytes of message 2, the derivation of the session keys, and the
  balance of heap blocks and ECC contexts on every path.
\<close>

section \<open>Invariant of the globals\<close>

definition sp_wf :: "'g list \<Rightarrow> 'w sp_state \<Rightarrow> bool" where
  "sp_wf groups s \<longleftrightarrow>
     length (db_g_a (g_sp_db s)) = 64 \<and> length (db_g_b (g_sp_db s)) = 64 \<and>
     length (db_b (g_sp_db s)) = 32 \<and> length (g_spid s) = 16 \<and>
     (g_is_sp_registered s \<longrightarrow> g_sp_extended_epid_group_id s \<noteq> None) \<and>
     (\<forall>i. g_sp_extended_epid_group_id s = Some i \<longrightarrow> i < length groups)"

definition servers_ok :: "'w sample_extended_epid_group list \<Rightarrow> bool" where
  "servers_ok groups \<longleftrightarrow> (\<forall>g \<in> set groups. attestation_server (grp_enroll g) (grp_get_sigrl g))"

lemma sp_wf_init: "sp_wf groups (sp_init w)"
  by (simp add: sp_wf_def sp_init_def)

lemma servers_ok_ias: "servers_ok (g_extended_epid_groups L)"
  by (simp add: servers_ok_def g_extended_epid_groups_def ias.attestation_server_axioms)

lemma group_at_registered:
  "sp_wf groups s \<Longrightarrow> g_is_sp_registered s \<Longrightarrow>
   \<exists>g \<in> set groups. group_at groups (g_sp_extended_epid_group_id s) = Some g"
  by (auto simp: sp_wf_def group_at_def)

section \<open>Message 2 as bytes\<close>

text \<open>The part of the message under the MAC, and the whole response block.\<close>

definition msg2_maced :: "byte list \<Rightarrow> byte list \<Rightarrow> u16 \<Rightarrow> byte list \<Rightarrow> byte list" where
  "msg2_maced g_b spid kdf_id sig = g_b @ spid @ le16 SAMPLE_QUOTE_LINKABLE_SIGNATURE @ le16 kdf_id @ sig"

definition resp_header :: "ra_msg_type_t \<Rightarrow> u32 \<Rightarrow> byte list" where
  "resp_header ty n = [ra_msg_type_code ty, 0, 0] @ le32 n @ [0]"

definition msg2_block :: "byte list \<Rightarrow> byte list \<Rightarrow> u32 \<Rightarrow> byte list \<Rightarrow> byte list" where
  "msg2_block maced mac n rl = resp_header TYPE_RA_MSG2 (168 + n) @ maced @ mac @ le32 n @ rl"

lemma resp_header_length [simp]: "length (resp_header ty n) = 8"
  by (simp add: resp_header_def)

lemma resp_header_fields:
  "resp_type (resp_header ty n @ body) = ra_msg_type_code ty"
  "resp_size (resp_header ty n @ body) = n"
  "resp_status (resp_header ty n @ body) = [0, 0]"
  "resp_body (resp_header ty n @ body) = body"
  by (simp_all add: resp_type_def resp_size_def resp_status_def resp_body_def resp_header_def le32.dec_enc)

text \<open>A response block is as long as its header says, and that length is a 32-bit number.\<close>

definition sized_response :: "byte list \<Rightarrow> bool" where
  "sized_response b \<longleftrightarrow> length b = 8 + unat (resp_size b) \<and> length b < 2 ^ 32"

lemma sized_header:
  "length body = unat n \<Longrightarrow> 8 + unat n < 2 ^ 32 \<Longrightarrow> sized_response (resp_header ty n @ body)"
  by (simp add: sized_response_def resp_header_fields)

section \<open>The statements of the message 1 handler\<close>

lemmas stmt_defs = attempt_def lib_call_def on_part_def reads_def modify_def defined_def check_def
  ok_def leave_def set_db_def put_def put_copy_def

lemmas stmt_splits = prod.splits option.splits sum.splits if_splits

text \<open>An early exit of the body is a \<open>break\<close> with a nonzero code, never undefined behaviour.\<close>

definition breaks :: "stop \<Rightarrow> 'w msg1_frame \<Rightarrow> bool" where
  "breaks e fr \<longleftrightarrow> (\<exists>ret. e = Break ret \<and> ret \<noteq> 0)"

text \<open>Before the response is allocated: the globals are well formed, the provider is registered.\<close>

definition ready :: "'g list \<Rightarrow> byte list \<Rightarrow> 'w msg1_frame \<Rightarrow> bool" where
  "ready groups spid fr \<longleftrightarrow> sp_wf groups (sp fr) \<and> g_is_sp_registered (sp fr) \<and> g_spid (sp fr) = spid"

lemma copy_g_a_triple:
  assumes "length g_a = 64"
  shows "triple (ready groups spid) (copy_db db_g_a db_g_a_update 64 g_a)
    (\<lambda>_ fr. ready groups spid fr \<and> db_g_a (g_sp_db (sp fr)) = g_a) breaks"
  using assms by (auto simp: triple_def copy_db_def stmt_defs ready_def sp_wf_def memcpy_s_whole breaks_def)

lemma open_context_triple:
  "triple (\<lambda>fr. ready groups spid fr \<and> db_g_a (g_sp_db (sp fr)) = g_a) (msg1_open_context L)
    (\<lambda>_ fr. ready groups spid fr \<and> db_g_a (g_sp_db (sp fr)) = g_a) breaks"
  by (auto simp: triple_def msg1_open_context_def stmt_defs ready_def sp_wf_def breaks_def split: stmt_splits)

lemma create_keys_triple:
  assumes "sizes_law L"
  shows "triple (\<lambda>fr. ready groups spid fr \<and> db_g_a (g_sp_db (sp fr)) = g_a) (msg1_create_keys L)
    (\<lambda>(priv, pub) fr. ready groups spid fr \<and> db_g_a (g_sp_db (sp fr)) = g_a \<and>
       length priv = 32 \<and> length pub = 64) breaks"
  by (auto simp: triple_def msg1_create_keys_def stmt_defs ready_def sp_wf_def breaks_def
      dest: key_pair_priv_size [OF assms] key_pair_pub_size [OF assms] split: stmt_splits)

lemma copy_b_triple:
  assumes "length priv = 32"
  shows "triple (\<lambda>fr. ready groups spid fr \<and> db_g_a (g_sp_db (sp fr)) = g_a)
    (copy_db db_b db_b_update 32 priv)
    (\<lambda>_ fr. ready groups spid fr \<and> db_g_a (g_sp_db (sp fr)) = g_a \<and> db_b (g_sp_db (sp fr)) = priv) breaks"
  using assms by (auto simp: triple_def copy_db_def stmt_defs ready_def sp_wf_def memcpy_s_whole breaks_def)

text \<open>Both key pairs stored: \<open>g_a\<close> from the message, \<open>b\<close> and \<open>g_b\<close> generated.\<close>

definition exchanged ::
  "'g list \<Rightarrow> byte list \<Rightarrow> byte list \<Rightarrow> byte list \<Rightarrow> byte list \<Rightarrow> 'w msg1_frame \<Rightarrow> bool" where
  "exchanged groups spid g_a priv pub fr \<longleftrightarrow>
     ready groups spid fr \<and> db_g_a (g_sp_db (sp fr)) = g_a \<and> db_b (g_sp_db (sp fr)) = priv \<and>
     db_g_b (g_sp_db (sp fr)) = pub"

lemmas frame_defs = exchanged_def ready_def sp_wf_def

lemma copy_g_b_triple:
  assumes "length pub = 64"
  shows "triple (\<lambda>fr. ready groups spid fr \<and> db_g_a (g_sp_db (sp fr)) = g_a \<and> db_b (g_sp_db (sp fr)) = priv)
    (copy_db db_g_b db_g_b_update 64 pub) (\<lambda>_. exchanged groups spid g_a priv pub) breaks"
  using assms
  by (auto simp: triple_def copy_db_def stmt_defs frame_defs memcpy_s_whole breaks_def)

lemma shared_key_triple:
  assumes "sizes_law L" "dh_law L D"
  shows "triple (exchanged groups spid g_a priv pub) (msg1_shared_key L priv g_a)
    (\<lambda>dh fr. exchanged groups spid g_a priv pub fr \<and> dh = D priv g_a \<and> length dh = 32) breaks"
  by (auto simp: triple_def msg1_shared_key_def stmt_defs frame_defs breaks_def
      dest: dh_size [OF assms(1)] dh_lawD [OF assms(2)] split: stmt_splits)

lemma get_sigrl_triple:
  fixes groups :: "'w sample_extended_epid_group list"
  assumes "servers_ok groups"
  shows "triple (exchanged groups spid g_a priv pub) (msg1_get_sigrl groups gid)
    (\<lambda>(n, rl) fr. exchanged groups spid g_a priv pub fr \<and> unat n + 176 < 2 ^ 32 \<and>
       unat n \<le> length (case rl of None \<Rightarrow> [] | Some bs \<Rightarrow> bs)) breaks"
  unfolding triple_def
proof (intro allI impI)
  fix fr :: "'w msg1_frame"
  assume ex: "exchanged groups spid g_a priv pub fr"
  then obtain g where g: "g \<in> set groups" "group_at groups (g_sp_extended_epid_group_id (sp fr)) = Some g"
    using group_at_registered by (auto simp: exchanged_def ready_def)
  obtain ret n p where res: "grp_get_sigrl g gid (Some 0) (Some None) = (ret, n, p)"
    by (cases "grp_get_sigrl g gid (Some 0) (Some None)")
  have server: "attestation_server (grp_enroll g) (grp_get_sigrl g)"
    using assms g by (simp add: servers_ok_def)
  show "case msg1_get_sigrl groups gid fr of
      (Inl e, t) \<Rightarrow> breaks e t
    | (Inr a, t) \<Rightarrow> (case a of (n, rl) \<Rightarrow> \<lambda>fr. exchanged groups spid g_a priv pub fr \<and>
        unat n + 176 < 2 ^ 32 \<and> unat n \<le> length (case rl of None \<Rightarrow> [] | Some bs \<Rightarrow> bs)) t"
  proof (cases "ret = 0")
    case True
    with attestation_server.sigrl_sets [OF server, of gid 0 None n p] res
    obtain m q where "n = Some m" "p = Some q" "unat m + 176 < 2 ^ 32"
      "case q of None \<Rightarrow> m = 0 | Some bs \<Rightarrow> unat m \<le> length bs" by auto
    with True res g ex show ?thesis
      by (auto simp: msg1_get_sigrl_def stmt_defs split: option.splits)
  next
    case False
    with res g show ?thesis by (simp add: msg1_get_sigrl_def stmt_defs breaks_def)
  qed
qed

text \<open>The session keys of a shared secret, for each of the two derivations.\<close>

definition session_keys ::
  "bool \<Rightarrow> (byte list \<Rightarrow> byte list \<Rightarrow> byte list) \<Rightarrow> (byte list \<Rightarrow> byte list) \<Rightarrow> byte list \<Rightarrow> sp_db_item_t \<Rightarrow> bool" where
  "session_keys supplied C H dh db \<longleftrightarrow>
     (if supplied then
        smk_key db = take 16 (supplied_kdf H dh 0) \<and> sk_key db = take 16 (drop 16 (supplied_kdf H dh 0)) \<and>
        mk_key db = take 16 (supplied_kdf H dh 1) \<and> vk_key db = take 16 (drop 16 (supplied_kdf H dh 1))
      else
        smk_key db = kdf C dh str_SMK \<and> sk_key db = kdf C dh str_SK \<and>
        mk_key db = kdf C dh str_MK \<and> vk_key db = kdf C dh str_VK)"

definition label_of :: "sample_derive_key_type_t \<Rightarrow> byte list" where
  "label_of k = the (key_label (derive_key_code k))"

lemma label_of_values [simp]:
  "label_of SAMPLE_DERIVE_KEY_SMK = str_SMK" "label_of SAMPLE_DERIVE_KEY_SK = str_SK"
  "label_of SAMPLE_DERIVE_KEY_MK = str_MK" "label_of SAMPLE_DERIVE_KEY_VK = str_VK"
  by (simp_all add: label_of_def key_label_code del: derive_key_code.simps)

text \<open>A derivation either breaks or replaces exactly one key of the globals.\<close>

definition rekeyed :: "(sp_db_item_t \<Rightarrow> sp_db_item_t) \<Rightarrow> 'w msg1_frame \<Rightarrow> 'w msg1_frame \<Rightarrow> bool" where
  "rekeyed f fr fr' \<longleftrightarrow>
     (\<exists>w. fr' = fr\<lparr>sp := (sp fr)\<lparr>sp_world := w, g_sp_db := f (g_sp_db (sp fr))\<rparr>\<rparr>)"

lemma rekeyed_refl: "rekeyed id fr fr"
  unfolding rekeyed_def by (rule exI [of _ "sp_world (sp fr)"]) simp

lemma rekeyed_comp: "rekeyed f fr fr' \<Longrightarrow> rekeyed g fr' fr'' \<Longrightarrow> rekeyed (g \<circ> f) fr fr''"
  by (auto simp: rekeyed_def)

lemma rekeyed_triple:
  assumes "\<And>t. case m t of (Inl e, u) \<Rightarrow> breaks e u | (Inr a, u) \<Rightarrow> rekeyed g t u"
  shows "triple (rekeyed f fr) m (\<lambda>_. rekeyed (g \<circ> f) fr) breaks"
  unfolding triple_def
proof (intro allI impI)
  fix t assume "rekeyed f fr t"
  with assms [of t] show "case m t of (Inl e, u) \<Rightarrow> breaks e u | (Inr a, u) \<Rightarrow> rekeyed (g \<circ> f) fr u"
    by (auto intro: rekeyed_comp split: prod.splits sum.splits)
qed

lemma msg1_derive_triple:
  assumes "cmac_law L C" "misaligned_store L"
  shows "triple (rekeyed f fr) (msg1_derive L upd k dh)
    (\<lambda>_. rekeyed (upd (\<lambda>_. kdf C dh (label_of k)) \<circ> f) fr) breaks"
proof (rule rekeyed_triple)
  fix t :: "'a msg1_frame"
  show "case msg1_derive L upd k dh t of (Inl e, u) \<Rightarrow> breaks e u
      | (Inr a, u) \<Rightarrow> rekeyed (upd (\<lambda>_. kdf C dh (label_of k))) t u"
  proof (cases "derive_key L dh (derive_key_code k) (sp_world (sp t))")
    case (Pair r w)
    show ?thesis
    proof (cases r)
      case (Inl e)
      with Pair derive_key_defined [OF assms(2), of dh "derive_key_code k" "sp_world (sp t)"] show ?thesis
        by (cases e) simp
    next
      case (Inr x)
      obtain flag out where x: "x = (flag, out)" by (cases x)
      show ?thesis
      proof (cases flag)
        case True
        with Pair Inr x derive_key_result [OF assms(1)]
        have "out = Some (kdf C dh (label_of k))" by (fastforce simp: label_of_def)
        with Pair Inr x True show ?thesis
          by (auto simp: msg1_derive_def stmt_defs rekeyed_def)
      next
        case False
        with Pair Inr x show ?thesis
          by (auto simp: msg1_derive_def stmt_defs breaks_def)
      qed
    qed
  qed
qed

lemma msg1_derive_supplied_triple:
  assumes "sha_law A SAMPLE_SUCCESS absorbed H" "length dh = 32"
  shows "triple (rekeyed f fr) (msg1_derive_supplied A upd1 upd2 k dh)
    (\<lambda>_. rekeyed (upd2 (\<lambda>_. take 16 (drop 16 (supplied_kdf H dh (derive_key_supplied_code k)))) \<circ>
       upd1 (\<lambda>_. take 16 (supplied_kdf H dh (derive_key_supplied_code k))) \<circ> f) fr) breaks"
proof (rule rekeyed_triple)
  fix t :: "'a msg1_frame"
  let ?km = "supplied_kdf H dh (derive_key_supplied_code k)"
  show "case msg1_derive_supplied A upd1 upd2 k dh t of (Inl e, u) \<Rightarrow> breaks e u
      | (Inr a, u) \<Rightarrow> rekeyed (upd2 (\<lambda>_. take 16 (drop 16 ?km)) \<circ> upd1 (\<lambda>_. take 16 ?km)) t u"
  proof (cases "derive_key_supplied A dh (derive_key_supplied_code k) (sp_world (sp t))")
    case (Pair r w)
    obtain flag out where r: "r = (flag, out)" by (cases r)
    show ?thesis
    proof (cases flag)
      case True
      with Pair r have "derive_key_supplied A dh (derive_key_supplied_code k) (sp_world (sp t)) = ((True, out), w)"
        by simp
      from derive_key_supplied_result [OF assms this] Pair r True show ?thesis
        by (auto simp: msg1_derive_supplied_def stmt_defs rekeyed_def)
    next
      case False
      with Pair r show ?thesis
        by (auto simp: msg1_derive_supplied_def stmt_defs breaks_def)
    qed
  qed
qed

lemma derive_keys_triple:
  assumes "cmac_law L C" "sha_law A SAMPLE_SUCCESS absorbed H" "length dh = 32" "misaligned_store L"
  shows "triple (exchanged groups spid g_a priv pub) (msg1_derive_keys supplied L A dh)
    (\<lambda>_ fr. exchanged groups spid g_a priv pub fr \<and> session_keys supplied C H dh (g_sp_db (sp fr))) breaks"
proof (rule triple_from)
  fix fr0 :: "'a msg1_frame"
  assume ex: "exchanged groups spid g_a priv pub fr0"
  have "triple (rekeyed id fr0) (msg1_derive_keys supplied L A dh)
      (\<lambda>_ fr. \<exists>f. rekeyed f fr0 fr \<and> session_keys supplied C H dh (f (g_sp_db (sp fr0))) \<and>
         (\<forall>db. db_g_a (f db) = db_g_a db \<and> db_g_b (f db) = db_g_b db \<and> db_b (f db) = db_b db)) breaks"
  proof (cases supplied)
    case True
    note two = triple_attempt [OF msg1_derive_supplied_triple [OF assms(2,3)]
        msg1_derive_supplied_triple [OF assms(2,3)]]
    show ?thesis
      unfolding msg1_derive_keys_def if_P [OF True]
      by (rule triple_weaken [OF two]) (auto simp: session_keys_def True intro!: exI)
  next
    case False
    note call = msg1_derive_triple [OF assms(1,4)]
    note four = triple_attempt [OF call triple_attempt [OF call triple_attempt [OF call call]]]
    show ?thesis
      unfolding msg1_derive_keys_def if_not_P [OF False]
      by (rule triple_weaken [OF four]) (auto simp: session_keys_def False intro!: exI)
  qed
  then show "triple (\<lambda>s. s = fr0) (msg1_derive_keys supplied L A dh)
      (\<lambda>_ fr. exchanged groups spid g_a priv pub fr \<and> session_keys supplied C H dh (g_sp_db (sp fr))) breaks"
    by (rule triple_weaken)
      (simp add: rekeyed_refl, use ex in \<open>auto simp: rekeyed_def frame_defs\<close>)
qed

section \<open>Assembling the response\<close>

text \<open>
  The state while message 2 is written: what holds of the globals, and the block.
\<close>

definition session ::
  "'g list \<Rightarrow> byte list \<Rightarrow> byte list \<Rightarrow> byte list \<Rightarrow> byte list \<Rightarrow> (sp_db_item_t \<Rightarrow> bool) \<Rightarrow> 'w sp_state \<Rightarrow> bool" where
  "session groups spid g_a priv pub keys s \<longleftrightarrow>
     sp_wf groups s \<and> g_is_sp_registered s \<and> g_spid s = spid \<and> db_g_a (g_sp_db s) = g_a \<and>
     db_b (g_sp_db s) = priv \<and> db_g_b (g_sp_db s) = pub \<and> keys (g_sp_db s)"

definition writing :: "('w sp_state \<Rightarrow> bool) \<Rightarrow> byte list \<Rightarrow> 'w msg1_frame \<Rightarrow> bool" where
  "writing A b fr \<longleftrightarrow> A (sp fr) \<and> p_msg2_full fr = Some b"

lemma exchanged_session:
  "exchanged groups spid g_a priv pub fr \<and> keys (g_sp_db (sp fr)) \<longleftrightarrow>
   session groups spid g_a priv pub keys (sp fr)"
  by (auto simp: exchanged_def ready_def session_def)

lemma session_world [simp]:
  "session groups spid g_a priv pub keys (s\<lparr>sp_world := w\<rparr>) = session groups spid g_a priv pub keys s"
  by (simp add: session_def sp_wf_def)

lemma put_triple:
  "store off bs b = Some b' \<Longrightarrow> triple (writing A b) (put off bs) (\<lambda>_. writing A b') E"
  by (simp add: triple_def put_def writing_def)

lemma put_copy_triple:
  "memcpy_s off cap src n b = Some (0, b') \<Longrightarrow> triple (writing A b) (put_copy off cap src n) (\<lambda>_. writing A b') E"
  by (simp add: triple_def put_copy_def writing_def check_def)

lemma zeros_split:
  "replicate (176 + k) (0 :: byte) =
     replicate 8 0 @ replicate 64 0 @ replicate 16 0 @ replicate 2 0 @ replicate 2 0 @ replicate 64 0 @
     replicate 16 0 @ replicate 4 0 @ replicate k 0"
proof -
  have "(176 :: nat) + k = 8 + (64 + (16 + (2 + (2 + (64 + (16 + (4 + k)))))))" by simp
  then show ?thesis by (simp only: replicate_add)
qed

abbreviation zeroed :: "nat \<Rightarrow> byte list" where
  "zeroed k \<equiv> replicate 64 0 @ replicate 16 0 @ replicate 2 0 @ replicate 2 0 @ replicate 64 0 @
     replicate 16 0 @ replicate 4 0 @ replicate k 0"

lemma store_header:
  shows "store 0 [a] (replicate 8 0 @ rest) = Some ((a # replicate 7 0) @ rest)"
    and "store 3 (le32 w) ((a # replicate 7 0) @ rest) = Some (([a, 0, 0] @ le32 w @ [0]) @ rest)"
    and "store (Suc 0) [0] (([a, 0, 0] @ le32 w @ [0]) @ rest) = Some (([a, 0, 0] @ le32 w @ [0]) @ rest)"
    and "store (Suc (Suc 0)) [0] (([a, 0, 0] @ le32 w @ [0]) @ rest) = Some (([a, 0, 0] @ le32 w @ [0]) @ rest)"
  by (simp_all add: store_def le32_def numeral_eq_Suc)

lemma header_triple:
  "triple (writing A (replicate 8 0 @ rest))
    (attempt (put (off_resp 0) [ra_msg_type_code ty]) (\<lambda>_.
     attempt (put (off_resp 2) (le32 n)) (\<lambda>_.
     attempt (put (off_resp 1) [0]) (\<lambda>_. put (off_resp 1 + 1) [0]))))
    (\<lambda>_. writing A (resp_header ty n @ rest)) E"
  unfolding resp_header_def One_nat_def off_resp_values add_Suc_right add_0_right
  by (rule triple_attempt [OF put_triple [OF store_header(1)]
      triple_attempt [OF put_triple [OF store_header(2)]
      triple_attempt [OF put_triple [OF store_header(3)] put_triple [OF store_header(4)]]]])

lemma allocate_triple:
  assumes "unat n + 176 < 2 ^ 32"
  shows "triple (\<lambda>fr. session groups spid g_a priv pub keys (sp fr)) (msg1_allocate L n)
    (\<lambda>_. writing (session groups spid g_a priv pub keys)
       (resp_header TYPE_RA_MSG2 (168 + n) @ zeroed (unat n))) breaks"
proof -
  have size: "unat (168 + n) + 8 = 176 + unat n"
    using assms by (simp add: unat_word_ariths)
  let ?S = "\<lambda>fr. session groups spid g_a priv pub keys (sp fr)"
  have alloc: "triple ?S (lib_call (malloc L k)) (\<lambda>_. ?S) breaks" for k
    by (simp add: lib_call_def) (rule triple_on_part, simp)
  have guard: "triple ?S (check got (Break (sp_code SP_INTERNAL_ERROR))) (\<lambda>_. ?S) breaks" for got
    by (rule triple_check) (simp_all add: breaks_def)
  have start: "triple ?S (modify (\<lambda>fr. fr\<lparr>p_msg2_full := Some (replicate (176 + unat n) 0)\<rparr>))
      (\<lambda>_. writing (session groups spid g_a priv pub keys) (replicate 8 0 @ zeroed (unat n))) breaks"
    by (rule triple_modify) (simp add: writing_def zeros_split)
  show ?thesis
    unfolding msg1_allocate_def Let_def sizeof_values of_nat_numeral size
    by (rule triple_attempt [OF alloc triple_attempt [OF guard triple_attempt [OF start header_triple]]])
qed

text \<open>Filling the fields of the block in the order the code writes them.\<close>

lemma fill_fields:
  assumes "length h = 8" "length g_b = 64" "length spid = 16" "length q = 2" "length k = 2"
    "length sig = 64" "length mac = 16" "length sz = 4"
  shows "memcpy_s 8 64 g_b 64 (h @ replicate 64 0 @ r) = Some (0, h @ g_b @ r)"
    and "memcpy_s 72 16 spid 16 (h @ g_b @ replicate 16 0 @ r) = Some (0, h @ g_b @ spid @ r)"
    and "store 88 q (h @ g_b @ spid @ replicate 2 0 @ r) = Some (h @ g_b @ spid @ q @ r)"
    and "store 90 k (h @ g_b @ spid @ q @ replicate 2 0 @ r) = Some (h @ g_b @ spid @ q @ k @ r)"
    and "store 92 sig (h @ g_b @ spid @ q @ k @ replicate 64 0 @ r) = Some (h @ g_b @ spid @ q @ k @ sig @ r)"
    and "load 8 148 (h @ g_b @ spid @ q @ k @ sig @ r) = Some (g_b @ spid @ q @ k @ sig)"
    and "memcpy_s 156 16 mac 16 (h @ g_b @ spid @ q @ k @ sig @ replicate 16 0 @ r) =
      Some (0, h @ g_b @ spid @ q @ k @ sig @ mac @ r)"
    and "store 172 sz (h @ g_b @ spid @ q @ k @ sig @ mac @ replicate 4 0 @ r) =
      Some (h @ g_b @ spid @ q @ k @ sig @ mac @ sz @ r)"
    and "length rl = n \<Longrightarrow> n \<le> length src \<Longrightarrow>
      memcpy_s 176 n src n (h @ g_b @ spid @ q @ k @ sig @ mac @ sz @ rl) =
      Some (0, h @ g_b @ spid @ q @ k @ sig @ mac @ sz @ take n src)"
  using assms by (simp_all add: memcpy_s_def load_def store_def)

text \<open>Read the values a statement needs; then it runs with known arguments.\<close>

lemma triple_reads_known:
  assumes "\<And>s. P s \<Longrightarrow> f s = v" and "triple P (k v) Q E"
  shows "triple P (attempt (reads f) k) Q E"
  using assms by (simp add: triple_def attempt_def reads_def)

lemma assemble_triple:
  assumes "length pub = 64" "length spid = 16"
  shows "triple (writing (session groups spid g_a priv pub keys) (resp_header TYPE_RA_MSG2 m @ zeroed k))
    (msg1_assemble supplied)
    (\<lambda>_. writing (session groups spid g_a priv pub keys) (resp_header TYPE_RA_MSG2 m @
       pub @ spid @ le16 SAMPLE_QUOTE_LINKABLE_SIGNATURE @
       le16 (if supplied then SP_ISV_KDF_ID else SAMPLE_AES_CMAC_KDF_ID) @
       replicate 64 0 @ replicate 16 0 @ replicate 4 0 @ replicate k 0)) breaks"
proof -
  note fill = fill_fields [OF resp_header_length assms le16_length le16_length _ _ le32_length, of "replicate 64 0" "replicate 16 0", simplified]
  show ?thesis
    unfolding msg1_assemble_def off_msg2_values One_nat_def
    by (rule triple_reads_known [where v = "(pub, spid)"], simp add: writing_def session_def, simp only: prod.case)
      (rule triple_attempt [OF put_copy_triple [OF fill(1)] triple_attempt [OF put_copy_triple [OF fill(2)]
          triple_attempt [OF put_triple [OF fill(3)] put_triple [OF fill(4)]]]])
qed

lemma attempt_defined_Some [simp]: "attempt (defined (Some a)) k = k a"
  by (rule ext) (simp add: attempt_def defined_def)

lemma attempt_check_True [simp]: "attempt (check True e) k = k ()"
  by (rule ext) (simp add: attempt_def check_def)

lemma triple_ex: "(\<And>x. triple (P x) m Q E) \<Longrightarrow> triple (\<lambda>s. \<exists>x. P x s) m Q E"
  by (fastforce simp: triple_def)

lemma gb_ga_eq:
  assumes "length (db_g_b db) = 64" "length (db_g_a db) = 64"
  shows "gb_ga db = Some (0, db_g_b db @ db_g_a db)"
proof -
  have zeros: "replicate 128 (0 :: byte) = replicate 64 0 @ replicate 64 0"
    by (simp flip: replicate_add)
  show ?thesis
    using assms memcpy_s_fits [of "[]" 0 "replicate 64 0" "db_g_b db" 64 "replicate 64 0"]
      memcpy_s_fits [of "db_g_b db" 64 "replicate 64 0" "db_g_a db" 64 "[]"]
    by (simp add: gb_ga_def zeros)
qed

lemma session_gb_ga:
  "writing (session groups spid g_a priv pub keys) b fr \<Longrightarrow> gb_ga (g_sp_db (sp fr)) = Some (0, pub @ g_a)"
  by (auto simp: writing_def session_def sp_wf_def gb_ga_eq)

lemma writing_world [simp]:
  "writing (session groups spid g_a priv pub keys) b (fr\<lparr>sp := (sp fr)\<lparr>sp_world := w\<rparr>\<rparr>) =
   writing (session groups spid g_a priv pub keys) b fr"
  by (simp add: writing_def)

lemma triple_and_pure: "(c \<Longrightarrow> triple P m Q E) \<Longrightarrow> triple (\<lambda>s. P s \<and> c) m Q E"
  by (auto simp: triple_def)

lemma sign_triple:
  assumes "sizes_law L" "sign_law L V" "length h = 8" "length pub = 64" "length spid = 16"
    "length q = 2" "length k = 2"
  shows "triple (writing (session groups spid g_a priv pub keys) (h @ pub @ spid @ q @ k @ replicate 64 0 @ r))
    (msg1_sign L)
    (\<lambda>_ fr. \<exists>sig. writing (session groups spid g_a priv pub keys) (h @ pub @ spid @ q @ k @ sig @ r) fr \<and>
       length sig = 64 \<and> V g_sp_priv_key (pub @ g_a) sig) breaks"
    (is "triple ?P _ ?Q _")
proof -
  note fill = fill_fields(5) [OF assms(3-7) _ _ le32_length, of _ "replicate 16 0", simplified]
  have call: "triple ?P (lib_call (ecdsa_sign L (pub @ g_a) g_sp_priv_key hd))
      (\<lambda>x fr. ?P fr \<and> length (snd x) = 64 \<and> (fst x = SAMPLE_SUCCESS \<longrightarrow> V g_sp_priv_key (pub @ g_a) (snd x)))
      breaks" for hd
    unfolding lib_call_def
    by (rule triple_on_part)
      (auto dest: sign_size [OF assms(1)] sign_lawD [OF assms(2)])
  have store: "triple (\<lambda>fr. ?P fr \<and> length (snd x) = 64 \<and>
        (fst x = SAMPLE_SUCCESS \<longrightarrow> V g_sp_priv_key (pub @ g_a) (snd x)))
      (case x of (sample_ret, sig) \<Rightarrow> attempt (put 92 sig) (\<lambda>_.
         check (sample_ret = SAMPLE_SUCCESS) (Break (sp_code SP_INTERNAL_ERROR)))) ?Q breaks" for x
  proof (cases x)
    case (Pair st sig)
    show ?thesis
      unfolding Pair prod.case
      by (rule triple_and_pure, rule triple_attempt, rule put_triple, rule fill, simp)
        (rule triple_check, auto simp: breaks_def)
  qed
  have reads: "triple ?P (reads ecc_state) (\<lambda>_. ?P) breaks"
    by (rule triple_reads)
  show ?thesis
    unfolding msg1_sign_def off_msg2_values
    by (rule triple_reads_known [where v = "Some (0, pub @ g_a)"], rule session_gb_ga, assumption)
      (simp only: attempt_defined_Some attempt_check_True prod.case simp_thms,
        rule triple_attempt [OF reads triple_attempt [OF call store]])
qed

lemma mac_triple:
  assumes "sizes_law L" "cmac_law L C" "length h = 8" "length pub = 64" "length spid = 16"
    "length q = 2" "length k = 2" "length sig = 64"
  shows "triple (writing (session groups spid g_a priv pub keys)
        (h @ pub @ spid @ q @ k @ sig @ replicate 16 0 @ r))
    (msg1_mac L)
    (\<lambda>_ fr. \<exists>mac. writing (session groups spid g_a priv pub keys) (h @ pub @ spid @ q @ k @ sig @ mac @ r) fr \<and>
       length mac = 16 \<and> mac = C (smk_key (g_sp_db (sp fr))) (pub @ spid @ q @ k @ sig)) breaks"
    (is "triple ?P _ ?Q _")
proof (rule triple_from)
  fix fr0 :: "'a msg1_frame" assume P: "?P fr0"
  let ?m = "pub @ spid @ q @ k @ sig" and ?smk = "smk_key (g_sp_db (sp fr0))"
  let ?P' = "\<lambda>fr. ?P fr \<and> smk_key (g_sp_db (sp fr)) = ?smk"
  note fill = fill_fields [OF assms(3-8) _ le32_length]
  have data: "Option.bind (p_msg2_full fr0) (load 8 (156 - 8)) = Some ?m"
    using P fill(6) [of "replicate 16 0" "replicate 16 0 @ r"] by (simp add: writing_def)
  show "triple (\<lambda>s. s = fr0) (msg1_mac L) ?Q breaks"
  proof (cases "cmac_msg L ?smk ?m (sp_world (sp fr0))")
    case (Pair res w)
    obtain st mac where res: "res = (st, mac)" by (cases res)
    have len: "length mac = 16" using Pair res cmac_size [OF assms(1)] by blast
    show ?thesis
    proof (cases "st = SAMPLE_SUCCESS")
      case True
      then have "mac = C ?smk ?m" using Pair res cmac_lawD [OF assms(2)] by blast
      then show ?thesis
        using P data Pair res True len fill(7) [OF len, of r]
        by (auto simp: triple_def msg1_mac_def stmt_defs writing_def)
    next
      case False
      then show ?thesis
        using P data Pair res by (simp add: triple_def msg1_mac_def stmt_defs breaks_def)
    qed
  qed
qed

lemma put_sigrl_triple:
  assumes "length h = 8" "length pub = 64" "length spid = 16"
    "length q = 2" "length k = 2" "length sig = 64" "length mac = 16"
    and src: "unat n \<le> length (case rl of None \<Rightarrow> [] | Some bs \<Rightarrow> bs)" and null: "null_memcpy L"
  shows "triple (writing A
        (h @ pub @ spid @ q @ k @ sig @ mac @ replicate 4 0 @ replicate (unat n) 0))
    (msg1_put_sigrl L n rl)
    (\<lambda>_. writing A (h @ pub @ spid @ q @ k @ sig @ mac @ le32 n @
       take (unat n) (case rl of None \<Rightarrow> [] | Some bs \<Rightarrow> bs))) breaks"
proof -
  note fill = fill_fields [OF assms(1-7)]
  have "length (replicate 4 (0::byte)) = 4" by simp
  note copy = fill(9) [OF this _ src, of "replicate (unat n) 0", simplified]
  have from_list: "triple (writing A (h @ pub @ spid @ q @ k @ sig @ mac @ replicate 4 0 @ replicate (unat n) 0))
      (put_copy_from (null_memcpy L) 176 (unat n) rl (unat n))
      (\<lambda>_. writing A (h @ pub @ spid @ q @ k @ sig @ mac @ replicate 4 0 @
         take (unat n) (case rl of None \<Rightarrow> [] | Some bs \<Rightarrow> bs))) breaks"
  proof (cases rl)
    case None
    with src null show ?thesis by (simp add: put_copy_from_def triple_def ok_def)
  next
    case (Some bs)
    with put_copy_triple [OF copy] show ?thesis by (simp add: put_copy_from_def)
  qed
  show ?thesis
    unfolding msg1_put_sigrl_def off_msg2_values
    by (rule triple_attempt [OF from_list put_triple [OF fill(8) [OF le32_length]]])
qed

section \<open>The body and the handler\<close>

definition msg2_kdf_id :: "bool \<Rightarrow> u16" where
  "msg2_kdf_id supplied = (if supplied then SP_ISV_KDF_ID else SAMPLE_AES_CMAC_KDF_ID)"

text \<open>
  What message 2 promises: \<open>block\<close> is the response whose body carries the fresh public key, the
  SPID, a signature by the provider over both public keys, the MAC of all that under the SMK, and
  the revocation list; the session keys come from the secret shared with the enclave's \<open>g_a\<close>.
\<close>

definition msg2_answers ::
  "bool \<Rightarrow> (byte list \<Rightarrow> byte list \<Rightarrow> byte list) \<Rightarrow> (byte list \<Rightarrow> byte list) \<Rightarrow>
   (byte list \<Rightarrow> byte list \<Rightarrow> byte list) \<Rightarrow> (byte list \<Rightarrow> byte list \<Rightarrow> byte list \<Rightarrow> bool) \<Rightarrow>
   byte list \<Rightarrow> 'w sp_state \<Rightarrow> byte list \<Rightarrow> bool" where
  "msg2_answers supplied C H D V g_a s block \<longleftrightarrow>
     db_g_a (g_sp_db s) = g_a \<and>
     session_keys supplied C H (D (db_b (g_sp_db s)) g_a) (g_sp_db s) \<and>
     (\<exists>sig n rl. length sig = 64 \<and> length rl = unat n \<and> unat n + 176 < 2 ^ 32 \<and> V g_sp_priv_key (db_g_b (g_sp_db s) @ g_a) sig \<and>
        (let maced = msg2_maced (db_g_b (g_sp_db s)) (g_spid s) (msg2_kdf_id supplied) sig
         in length (C (smk_key (g_sp_db s)) maced) = 16 \<and>
            block = msg2_block maced (C (smk_key (g_sp_db s)) maced) n rl))"

text \<open>The laws of the libraries, together.\<close>

definition crypto_laws ::
  "'w libcrypto \<Rightarrow> (sample_status_t, 'w) sha_api \<Rightarrow> (byte list \<Rightarrow> byte list \<Rightarrow> byte list) \<Rightarrow>
   ('w \<Rightarrow> nat \<Rightarrow> byte list) \<Rightarrow> (byte list \<Rightarrow> byte list) \<Rightarrow> (byte list \<Rightarrow> byte list \<Rightarrow> byte list) \<Rightarrow>
   (byte list \<Rightarrow> byte list \<Rightarrow> byte list \<Rightarrow> bool) \<Rightarrow> bool" where
  "crypto_laws L A C absorbed H D V \<longleftrightarrow>
     sizes_law L \<and> cmac_law L C \<and> sha_law A SAMPLE_SUCCESS absorbed H \<and> dh_law L D \<and> sign_law L V"

lemma crypto_lawsD:
  assumes "crypto_laws L A C absorbed H D V"
  shows "sizes_law L" "cmac_law L C" "sha_law A SAMPLE_SUCCESS absorbed H" "dh_law L D" "sign_law L V"
  using assms by (simp_all add: crypto_laws_def)

text \<open>What holds when the whole response is written.\<close>

definition answered ::
  "bool \<Rightarrow> 'g list \<Rightarrow> (byte list \<Rightarrow> byte list \<Rightarrow> byte list) \<Rightarrow> (byte list \<Rightarrow> byte list) \<Rightarrow>
   (byte list \<Rightarrow> byte list \<Rightarrow> byte list) \<Rightarrow> (byte list \<Rightarrow> byte list \<Rightarrow> byte list \<Rightarrow> bool) \<Rightarrow>
   byte list \<Rightarrow> byte list \<Rightarrow> 'w msg1_frame \<Rightarrow> bool" where
  "answered supplied groups C H D V spid g_a fr \<longleftrightarrow> ready groups spid fr \<and>
     (\<exists>b. p_msg2_full fr = Some b \<and> msg2_answers supplied C H D V g_a (sp fr) b)"

abbreviation msg2_frag :: "bool \<Rightarrow> u32 \<Rightarrow> byte list \<Rightarrow> byte list \<Rightarrow> byte list \<Rightarrow> byte list" where
  "msg2_frag supplied n pub spid rest \<equiv> resp_header TYPE_RA_MSG2 (168 + n) @ pub @ spid @
     le16 SAMPLE_QUOTE_LINKABLE_SIGNATURE @ le16 (msg2_kdf_id supplied) @ rest"

lemma written_answered:
  assumes "writing (\<lambda>s. session groups spid g_a priv pub (session_keys supplied C H (D priv g_a)) s \<and>
        mac = C (smk_key (g_sp_db s)) (msg2_maced pub spid (msg2_kdf_id supplied) sig))
      (msg2_frag supplied n pub spid (sig @ mac @ le32 n @ rl)) fr"
    and "length sig = 64" "V g_sp_priv_key (pub @ g_a) sig" "length rl = unat n" "length mac = 16"
    and "unat n + 176 < 2 ^ 32"
  shows "answered supplied groups C H D V spid g_a fr"
proof -
  from assms(1) have s: "session groups spid g_a priv pub (session_keys supplied C H (D priv g_a)) (sp fr)"
      "mac = C (smk_key (g_sp_db (sp fr))) (msg2_maced pub spid (msg2_kdf_id supplied) sig)"
    and b: "p_msg2_full fr = Some (msg2_block (msg2_maced pub spid (msg2_kdf_id supplied) sig) mac n rl)"
    by (simp_all add: writing_def msg2_block_def msg2_maced_def)
  with assms(2-6) have "msg2_answers supplied C H D V g_a (sp fr)
      (msg2_block (msg2_maced pub spid (msg2_kdf_id supplied) sig) mac n rl)"
    unfolding msg2_answers_def session_def Let_def by blast
  with s b show ?thesis by (auto simp: answered_def ready_def session_def)
qed

lemma write_list_triple:
  assumes "unat n \<le> length (case rl of None \<Rightarrow> [] | Some bs \<Rightarrow> bs)" "length pub = 64" "length spid = 16"
    and n: "unat n + 176 < 2 ^ 32"
    and sig: "length sig = 64" "V g_sp_priv_key (pub @ g_a) sig" and null: "null_memcpy L"
  shows "triple (\<lambda>fr. \<exists>mac. writing (session groups spid g_a priv pub (session_keys supplied C H (D priv g_a)))
        (msg2_frag supplied n pub spid (sig @ mac @ replicate 4 0 @ replicate (unat n) 0)) fr \<and>
      length mac = 16 \<and> mac = C (smk_key (g_sp_db (sp fr))) (msg2_maced pub spid (msg2_kdf_id supplied) sig))
    (msg1_put_sigrl L n rl) (\<lambda>_. answered supplied groups C H D V spid g_a) breaks"
    (is "triple (\<lambda>fr. \<exists>mac. ?P mac fr) _ _ _")
proof (rule triple_ex, rule triple_assume)
  fix mac :: "byte list"
  show "length mac = 16" if "?P mac fr" for fr using that by blast
  assume mac: "length mac = 16"
  have "length (take (unat n) (case rl of None \<Rightarrow> [] | Some bs \<Rightarrow> bs)) = unat n"
    using assms(1) by simp
  note final = written_answered [where C = C and D = D and V = V and g_a = g_a, OF _ sig this mac n]
  show "triple (?P mac) (msg1_put_sigrl L n rl) (\<lambda>_. answered supplied groups C H D V spid g_a) breaks"
    by (rule triple_weaken [OF put_sigrl_triple [where
            A = "\<lambda>s. session groups spid g_a priv pub (session_keys supplied C H (D priv g_a)) s \<and>
              mac = C (smk_key (g_sp_db s)) (msg2_maced pub spid (msg2_kdf_id supplied) sig)",
            OF resp_header_length assms(2,3) le16_length le16_length sig(1) mac assms(1) null]])
      (simp add: writing_def, erule final, assumption)
qed

lemma write_response_triple:
  assumes L: "crypto_laws L A C absorbed H D V" and len: "length pub = 64" "length spid = 16"
    and n: "unat n + 176 < 2 ^ 32" "unat n \<le> length (case rl of None \<Rightarrow> [] | Some bs \<Rightarrow> bs)"
    and null: "null_memcpy L"
  shows "triple (\<lambda>fr. session groups spid g_a priv pub (session_keys supplied C H (D priv g_a)) (sp fr))
    (msg1_write_response supplied L n rl) (\<lambda>_. answered supplied groups C H D V spid g_a) breaks"
proof -
  note laws = crypto_lawsD [OF L]
  note lens = resp_header_length len le16_length le16_length
  let ?S = "session groups spid g_a priv pub (session_keys supplied C H (D priv g_a))"
  have mac: "triple (\<lambda>fr. \<exists>sig. writing ?S (msg2_frag supplied n pub spid
        (sig @ replicate 16 0 @ replicate 4 0 @ replicate (unat n) 0)) fr \<and>
        length sig = 64 \<and> V g_sp_priv_key (pub @ g_a) sig)
      (attempt (msg1_mac L) (\<lambda>_. msg1_put_sigrl L n rl)) (\<lambda>_. answered supplied groups C H D V spid g_a) breaks"
  proof (rule triple_ex, rule triple_and_pure)
    fix sig :: "byte list" assume "length sig = 64 \<and> V g_sp_priv_key (pub @ g_a) sig"
    then show "triple (writing ?S (msg2_frag supplied n pub spid
        (sig @ replicate 16 0 @ replicate 4 0 @ replicate (unat n) 0)))
      (attempt (msg1_mac L) (\<lambda>_. msg1_put_sigrl L n rl)) (\<lambda>_. answered supplied groups C H D V spid g_a) breaks"
      using triple_attempt [OF mac_triple [OF laws(1,2) lens]
          write_list_triple [where C = C and D = D and V = V and g_a = g_a and groups = groups,
            OF n(2) len n(1) _ _ null, unfolded msg2_maced_def]] by blast
  qed
  show ?thesis
    unfolding msg1_write_response_def
    by (rule triple_attempt [OF allocate_triple [OF n(1)] triple_attempt [OF assemble_triple [OF len]
          triple_attempt [OF sign_triple [OF laws(1,5) lens] mac [unfolded msg2_kdf_id_def]]]])
qed

lemma agree_triple:
  assumes L: "crypto_laws L A C absorbed H D V" "platform_law L" and servers: "servers_ok groups"
    and len: "length pub = 64" "length spid = 16"
  shows "triple (exchanged groups spid (msg1_g_a m) priv pub) (msg1_agree supplied groups L A m priv)
    (\<lambda>_. answered supplied groups C H D V spid (msg1_g_a m)) breaks"
  unfolding msg1_agree_def
proof (rule triple_attempt [OF shared_key_triple [OF crypto_lawsD(1,4) [OF L(1)]]], rule triple_and_pure)
  fix dh assume "dh = D priv (msg1_g_a m) \<and> length dh = 32"
  then have dh: "dh = D priv (msg1_g_a m)" "length (D priv (msg1_g_a m)) = 32" by auto
  have plat: "misaligned_store L" "null_memcpy L" using L(2) by (simp_all add: platform_law_def)
  note keys = derive_keys_triple [OF crypto_lawsD(2,3) [OF L(1)] dh(2) plat(1), unfolded exchanged_session]
  show "triple (exchanged groups spid (msg1_g_a m) priv pub)
    (attempt (msg1_get_sigrl groups (msg1_gid m)) (\<lambda>(sig_rl_size, sig_rl).
     attempt (msg1_derive_keys supplied L A dh) (\<lambda>_. msg1_write_response supplied L sig_rl_size sig_rl)))
    (\<lambda>_. answered supplied groups C H D V spid (msg1_g_a m)) breaks"
    unfolding dh(1)
    by (rule triple_attempt [OF get_sigrl_triple [OF servers]], clarify, rule triple_and_pure, elim conjE)
      (rule triple_attempt [OF keys write_response_triple [OF L(1) len _ _ plat(2)]])
qed

lemma body_triple:
  assumes L: "crypto_laws L A C absorbed H D V" "platform_law L" and servers: "servers_ok groups"
    and len: "length (msg1_g_a m) = 64" "length spid = 16"
  shows "triple (ready groups spid) (msg1_body supplied groups L A m)
    (\<lambda>_. answered supplied groups C H D V spid (msg1_g_a m)) breaks"
  unfolding msg1_body_def
  by (rule triple_attempt [OF copy_g_a_triple [OF len(1)] triple_attempt [OF open_context_triple
          triple_attempt [OF create_keys_triple [OF crypto_lawsD(1) [OF L(1)]]]]], clarify,
        unfold conj_assoc [symmetric], rule triple_and_pure, rule triple_and_pure)
    (rule triple_attempt [OF copy_b_triple triple_attempt [OF copy_g_b_triple
            agree_triple [OF L servers _ len(2)]]])

lemma msg2_answers_sized:
  assumes "sp_wf groups s" "msg2_answers supplied C H D V g_a s b"
  shows "sized_response b"
proof -
  from assms(2) obtain sig n rl mac where "length sig = 64" "length rl = unat n" "unat n + 176 < 2 ^ 32"
    "length mac = 16" and b: "b = msg2_block (msg2_maced (db_g_b (g_sp_db s)) (g_spid s) (msg2_kdf_id supplied) sig) mac n rl"
    by (auto simp: msg2_answers_def Let_def)
  moreover have "unat (168 + n) = 168 + unat n"
    using \<open>unat n + 176 < 2 ^ 32\<close> by (simp add: unat_word_ariths)
  ultimately show ?thesis
    using assms(1) unfolding b msg2_block_def
    by (intro sized_header) (simp_all add: sp_wf_def msg2_maced_def)
qed

section \<open>Balance of resources\<close>

text \<open>
  The globals stay well formed, and the frame owns one heap block if the response is allocated
  and one ECC context if the handle is not null, on top of the counts at the start.
\<close>

definition tidy ::
  "'g list \<Rightarrow> ('w \<Rightarrow> nat) \<Rightarrow> ('w \<Rightarrow> nat) \<Rightarrow> nat \<Rightarrow> nat \<Rightarrow> 'w msg1_frame \<Rightarrow> bool" where
  "tidy groups blocks ctxs b0 c0 fr \<longleftrightarrow> sp_wf groups (sp fr) \<and>
     blocks (sp_world (sp fr)) = b0 + (if p_msg2_full fr = None then 0 else 1) \<and>
     ctxs (sp_world (sp fr)) = c0 + (if ecc_state fr = None then 0 else 1)"

definition resource_laws ::
  "'w libcrypto \<Rightarrow> (sample_status_t, 'w) sha_api \<Rightarrow> ('w \<Rightarrow> nat) \<Rightarrow> ('w \<Rightarrow> nat) \<Rightarrow> bool" where
  "resource_laws L A blocks ctxs \<longleftrightarrow>
     heap_law L blocks \<and> ecc_law L ctxs \<and> sha_keeps A blocks \<and> sha_keeps A ctxs \<and> sizes_law L"

lemma resource_lawsD:
  assumes "resource_laws L A blocks ctxs"
  shows "heap_law L blocks" "ecc_law L ctxs" "sha_keeps A blocks" "sha_keeps A ctxs" "sizes_law L"
  using assms by (simp_all add: resource_laws_def)

text \<open>\<open>keeps J I m\<close>: \<open>m\<close> preserves \<open>J\<close>, and leaves in \<open>I\<close> when it leaves early.\<close>

definition keeps :: "('s \<Rightarrow> bool) \<Rightarrow> ('s \<Rightarrow> bool) \<Rightarrow> ('s \<Rightarrow> ('e + 'a) \<times> 's) \<Rightarrow> bool" where
  "keeps J I m \<longleftrightarrow> triple J m (\<lambda>_. J) (\<lambda>_. I)"

lemma keeps_attempt: "keeps J I m \<Longrightarrow> (\<And>a. keeps J I (k a)) \<Longrightarrow> keeps J I (attempt m k)"
  unfolding keeps_def by (rule triple_attempt)

lemma keeps_pure:
  assumes "\<And>s. J s \<Longrightarrow> I s"
  shows "keeps J I (ok a)" "keeps J I (leave e)" "keeps J I (check c e)" "keeps J I (reads f)"
    "keeps J I (defined x)"
  using assms by (auto simp: keeps_def triple_def ok_def leave_def check_def reads_def defined_def
      split: option.splits)

abbreviation (input) unallocated where
  "unallocated groups blocks ctxs b0 c0 fr \<equiv> tidy groups blocks ctxs b0 c0 fr \<and> p_msg2_full fr = None"

lemma memcpy_s_length: "memcpy_s off n src count m = Some (err, m') \<Longrightarrow> length m' = length m"
  by (auto simp: memcpy_s_def bind_eq_Some_conv dest: store_length split: if_splits)

lemma keeps_copy_db:
  assumes "\<And>fr v. J fr \<Longrightarrow> length v = length (get (g_sp_db (sp fr))) \<Longrightarrow>
    J (fr\<lparr>sp := (sp fr)\<lparr>g_sp_db := upd (\<lambda>_. v) (g_sp_db (sp fr))\<rparr>\<rparr>)" and "\<And>fr. J fr \<Longrightarrow> I fr"
  shows "keeps J I (copy_db get upd n src)"
  using assms memcpy_s_length
  by (fastforce simp: keeps_def triple_def copy_db_def stmt_defs split: stmt_splits)

lemma unallocated_copies:
  "keeps (unallocated groups blocks ctxs b0 c0) (tidy groups blocks ctxs b0 c0) (copy_db db_g_a db_g_a_update n src)"
  "keeps (unallocated groups blocks ctxs b0 c0) (tidy groups blocks ctxs b0 c0) (copy_db db_g_b db_g_b_update n src)"
  "keeps (unallocated groups blocks ctxs b0 c0) (tidy groups blocks ctxs b0 c0) (copy_db db_b db_b_update n src)"
  by (rule keeps_copy_db; simp add: tidy_def sp_wf_def)+

lemma sp_wf_world [simp]: "sp_wf groups (s\<lparr>sp_world := w\<rparr>) \<longleftrightarrow> sp_wf groups s"
  by (simp add: sp_wf_def)

text \<open>What each library call does to the two counters.\<close>

lemma resource_calls:
  assumes "resource_laws L A blocks ctxs"
  shows "ecc256_open_context L w = ((st, h), w') \<Longrightarrow>
      blocks w' = blocks w \<and> ctxs w' = ctxs w + (if h = None then 0 else 1)"
    and "ecc256_create_key_pair L h w = (r1, w') \<Longrightarrow> blocks w' = blocks w \<and> ctxs w' = ctxs w"
    and "ecc256_compute_shared_dhkey L k p h w = (r2, w') \<Longrightarrow> blocks w' = blocks w \<and> ctxs w' = ctxs w"
    and "ecdsa_sign L d k h w = (r3, w') \<Longrightarrow> blocks w' = blocks w \<and> ctxs w' = ctxs w"
    and "cmac_msg L k d w = (r4, w') \<Longrightarrow> blocks w' = blocks w \<and> ctxs w' = ctxs w"
    and "malloc L n w = (got, w') \<Longrightarrow> blocks w' = blocks w + (if got then 1 else 0) \<and> ctxs w' = ctxs w"
    and "derive_key L dh key_id w = (r5, w') \<Longrightarrow> blocks w' = blocks w \<and> ctxs w' = ctxs w"
    and "derive_key_supplied A dh key_id w = (r6, w') \<Longrightarrow> blocks w' = blocks w \<and> ctxs w' = ctxs w"
proof -
  note R = resource_lawsD [OF assms]
  show "derive_key L dh key_id w = (r5, w') \<Longrightarrow> blocks w' = blocks w \<and> ctxs w' = ctxs w"
    using derive_key_heap [OF R(1), of dh key_id w] derive_key_ctxs [OF R(2), of dh key_id w] by simp
  show "derive_key_supplied A dh key_id w = (r6, w') \<Longrightarrow> blocks w' = blocks w \<and> ctxs w' = ctxs w"
    using derive_key_supplied_keeps [OF R(3), of dh key_id w] derive_key_supplied_keeps [OF R(4), of dh key_id w]
    by simp
qed (auto dest: heap_malloc [OF resource_lawsD(1) [OF assms]] heap_open [OF resource_lawsD(1) [OF assms]]
      heap_key_pair [OF resource_lawsD(1) [OF assms]] heap_dh [OF resource_lawsD(1) [OF assms]]
      heap_sign [OF resource_lawsD(1) [OF assms]] heap_cmac [OF resource_lawsD(1) [OF assms]]
      ecc_malloc [OF resource_lawsD(2) [OF assms]] ecc_open [OF resource_lawsD(2) [OF assms]]
      ecc_key_pair [OF resource_lawsD(2) [OF assms]] ecc_dh [OF resource_lawsD(2) [OF assms]]
      ecc_sign [OF resource_lawsD(2) [OF assms]] ecc_cmac [OF resource_lawsD(2) [OF assms]])

lemma keeps_open_context:
  assumes "resource_laws L A blocks ctxs"
  shows "triple (\<lambda>fr. unallocated groups blocks ctxs b0 c0 fr \<and> ecc_state fr = None) (msg1_open_context L)
    (\<lambda>_. unallocated groups blocks ctxs b0 c0) (\<lambda>_. tidy groups blocks ctxs b0 c0)"
  by (auto simp: triple_def msg1_open_context_def stmt_defs tidy_def
      dest!: resource_calls(1) [OF assms] split: prod.splits if_splits)

text \<open>A library call that leaves both counters alone keeps the frame tidy.\<close>

lemma keeps_lib_call:
  assumes "\<And>w a w'. f w = (a, w') \<Longrightarrow> blocks w' = blocks w \<and> ctxs w' = ctxs w"
  shows "keeps (unallocated groups blocks ctxs b0 c0) I (lib_call f)"
    and "keeps (tidy groups blocks ctxs b0 c0) I (lib_call f)"
  unfolding keeps_def lib_call_def
  by (rule triple_on_part, drule assms, simp add: tidy_def)+

lemma keeps_key_calls:
  assumes "resource_laws L A blocks ctxs"
  shows "keeps (unallocated groups blocks ctxs b0 c0) (tidy groups blocks ctxs b0 c0) (msg1_create_keys L)"
    and "keeps (unallocated groups blocks ctxs b0 c0) (tidy groups blocks ctxs b0 c0) (msg1_shared_key L priv g_a)"
  unfolding msg1_create_keys_def msg1_shared_key_def
  by (auto intro!: keeps_attempt keeps_pure keeps_lib_call dest: resource_calls [OF assms])

lemma keeps_get_sigrl:
  "keeps (unallocated groups blocks ctxs b0 c0) (tidy groups blocks ctxs b0 c0) (msg1_get_sigrl groups gid)"
  unfolding msg1_get_sigrl_def
  by (auto intro!: keeps_attempt keeps_pure split: prod.splits)

lemma keeps_set_db:
  assumes "\<And>db. length (db_g_a (f db)) = length (db_g_a db) \<and> length (db_g_b (f db)) = length (db_g_b db) \<and>
    length (db_b (f db)) = length (db_b db)"
  shows "keeps (unallocated groups blocks ctxs b0 c0) I (set_db f)"
  unfolding keeps_def set_db_def
  by (rule triple_modify) (use assms in \<open>auto simp: tidy_def sp_wf_def\<close>)

lemma keeps_derive:
  assumes "resource_laws L A blocks ctxs" and "upd \<in> {smk_key_update, sk_key_update, mk_key_update, vk_key_update}"
  shows "keeps (unallocated groups blocks ctxs b0 c0) (tidy groups blocks ctxs b0 c0) (msg1_derive L upd k dh)"
  unfolding msg1_derive_def
  using assms(2) by (auto intro!: keeps_attempt keeps_pure keeps_lib_call keeps_set_db
      dest: resource_calls [OF assms(1)] split: sum.split ub.split option.split)

lemma keeps_derive_supplied:
  assumes "resource_laws L A blocks ctxs"
    and "{upd1, upd2} \<subseteq> {smk_key_update, sk_key_update, mk_key_update, vk_key_update}"
  shows "keeps (unallocated groups blocks ctxs b0 c0) (tidy groups blocks ctxs b0 c0)
    (msg1_derive_supplied A upd1 upd2 k dh)"
  unfolding msg1_derive_supplied_def
  using assms(2) by (auto intro!: keeps_attempt keeps_pure keeps_lib_call keeps_set_db
      dest: resource_calls [OF assms(1)] split: option.split)

lemma keeps_derive_keys:
  assumes "resource_laws L A blocks ctxs"
  shows "keeps (unallocated groups blocks ctxs b0 c0) (tidy groups blocks ctxs b0 c0)
    (msg1_derive_keys supplied L A dh)"
  unfolding msg1_derive_keys_def
  by (auto intro!: keeps_attempt keeps_derive [OF assms] keeps_derive_supplied [OF assms])

lemma keeps_put:
  shows "keeps (tidy groups blocks ctxs b0 c0) (tidy groups blocks ctxs b0 c0) (put off bs)"
    and "keeps (tidy groups blocks ctxs b0 c0) (tidy groups blocks ctxs b0 c0) (put_copy off cap src n)"
    and "keeps (tidy groups blocks ctxs b0 c0) (tidy groups blocks ctxs b0 c0) (put_copy_from null_ok off cap rl n)"
  by (auto simp: keeps_def triple_def put_def put_copy_from_def put_copy_def check_def leave_def ok_def tidy_def
      split: option.splits)

lemma tidy_allocate:
  assumes "resource_laws L A blocks ctxs"
  shows "triple (unallocated groups blocks ctxs b0 c0) (msg1_allocate L n)
    (\<lambda>_. tidy groups blocks ctxs b0 c0) (\<lambda>_. tidy groups blocks ctxs b0 c0)"
proof -
  let ?U = "unallocated groups blocks ctxs b0 c0" and ?T = "tidy groups blocks ctxs b0 c0"
  let ?M = "\<lambda>got fr. sp_wf groups (sp fr) \<and> p_msg2_full fr = None \<and>
     blocks (sp_world (sp fr)) = b0 + (if got then 1 else 0) \<and>
     ctxs (sp_world (sp fr)) = c0 + (if ecc_state fr = None then 0 else 1)"
  have alloc: "triple ?U (lib_call (malloc L k)) ?M (\<lambda>_. ?T)" for k
    unfolding lib_call_def
    by (rule triple_on_part, drule resource_calls(6) [OF assms], simp add: tidy_def)
  have guard: "triple (?M got) (check got e) (\<lambda>_. ?M True) (\<lambda>_. ?T)" for got e
    by (rule triple_check) (auto simp: tidy_def)
  have start: "triple (?M True) (modify (\<lambda>fr. fr\<lparr>p_msg2_full := Some b\<rparr>)) (\<lambda>_. ?T) (\<lambda>_. ?T)" for b
    by (rule triple_modify) (simp add: tidy_def)
  have fill: "triple ?T (attempt (put o1 b1) (\<lambda>_. attempt (put o2 b2) (\<lambda>_. attempt (put o3 b3) (\<lambda>_. put o4 b4))))
      (\<lambda>_. ?T) (\<lambda>_. ?T)" for o1 b1 o2 b2 o3 b3 o4 b4
    using keeps_put(1) unfolding keeps_def by (intro triple_attempt) blast+
  show ?thesis
    unfolding msg1_allocate_def Let_def
    by (rule triple_attempt [OF alloc triple_attempt [OF guard triple_attempt [OF start fill]]])
qed

lemma keeps_fill:
  assumes "resource_laws L A blocks ctxs"
  shows "keeps (tidy groups blocks ctxs b0 c0) (tidy groups blocks ctxs b0 c0) (msg1_assemble supplied)"
    and "keeps (tidy groups blocks ctxs b0 c0) (tidy groups blocks ctxs b0 c0) (msg1_sign L)"
    and "keeps (tidy groups blocks ctxs b0 c0) (tidy groups blocks ctxs b0 c0) (msg1_mac L)"
    and "keeps (tidy groups blocks ctxs b0 c0) (tidy groups blocks ctxs b0 c0) (msg1_put_sigrl L n rl)"
  unfolding msg1_assemble_def msg1_sign_def msg1_mac_def msg1_put_sigrl_def
  by (auto intro!: keeps_attempt keeps_pure keeps_put keeps_lib_call dest: resource_calls [OF assms])

lemma body_tidy:
  assumes "resource_laws L A blocks ctxs"
  shows "triple (\<lambda>fr. unallocated groups blocks ctxs b0 c0 fr \<and> ecc_state fr = None)
    (msg1_body supplied groups L A m)
    (\<lambda>_. tidy groups blocks ctxs b0 c0) (\<lambda>_. tidy groups blocks ctxs b0 c0)"
proof -
  let ?U = "unallocated groups blocks ctxs b0 c0" and ?T = "tidy groups blocks ctxs b0 c0"
  let ?Start = "\<lambda>fr. unallocated groups blocks ctxs b0 c0 fr \<and> ecc_state fr = None"
  have response: "triple ?U (msg1_write_response supplied L n rl) (\<lambda>_. ?T) (\<lambda>_. ?T)" for n rl
    unfolding msg1_write_response_def
    by (rule triple_attempt [OF tidy_allocate [OF assms] keeps_attempt [unfolded keeps_def, OF
            keeps_fill(1) [OF assms, unfolded keeps_def] keeps_attempt [unfolded keeps_def, OF
            keeps_fill(2) [OF assms, unfolded keeps_def] keeps_attempt [unfolded keeps_def, OF
            keeps_fill(3,4) [OF assms, unfolded keeps_def]]]]])
  have agree: "triple ?U (msg1_agree supplied groups L A m priv) (\<lambda>_. ?T) (\<lambda>_. ?T)" for priv
    unfolding msg1_agree_def
    by (rule triple_attempt [OF keeps_key_calls(2) [OF assms, unfolded keeps_def] triple_attempt [OF
            keeps_get_sigrl [unfolded keeps_def]]], clarify)
      (rule triple_attempt [OF keeps_derive_keys [OF assms, unfolded keeps_def] response])
  have g_a: "triple ?Start (copy_db db_g_a db_g_a_update 64 src) (\<lambda>_. ?Start) (\<lambda>_. ?T)" for src
    using memcpy_s_length
    by (fastforce simp: triple_def copy_db_def stmt_defs tidy_def sp_wf_def split: stmt_splits)
  show ?thesis
    unfolding msg1_body_def
    by (rule triple_attempt [OF g_a triple_attempt [OF keeps_open_context [OF assms] triple_attempt [OF
            keeps_key_calls(1) [OF assms, unfolded keeps_def]]]], clarify)
      (rule triple_attempt [OF unallocated_copies(3) [unfolded keeps_def] triple_attempt [OF
            unallocated_copies(2) [unfolded keeps_def] agree]])
qed

section \<open>The handler of message 1\<close>

abbreviation msg1_start :: "'w sp_state \<Rightarrow> 'w msg1_frame" where
  "msg1_start s \<equiv> \<lparr>sp = s, ecc_state = None, p_msg2_full = None\<rparr>"

text \<open>The body ends in one of two ways; both hold at once of the same final frame.\<close>

lemma body_outcome:
  assumes "crypto_laws L A C absorbed H D V" "platform_law L" "servers_ok groups" "length (msg1_g_a m) = 64"
    and "sp_wf groups s" "g_is_sp_registered s"
  obtains (early) ret fr where "msg1_body supplied groups L A m (msg1_start s) = (Inl (Break ret), fr)" "ret \<noteq> 0"
  | (answer) fr b where "msg1_body supplied groups L A m (msg1_start s) = (Inr (), fr)"
      "p_msg2_full fr = Some b" "msg2_answers supplied C H D V (msg1_g_a m) (sp fr) b"
proof -
  have "length (g_spid s) = 16" using assms(5) by (simp add: sp_wf_def)
  from tripleD [OF body_triple [OF assms(1-4) this], of "msg1_start s" supplied] assms(5,6)
  show ?thesis by (auto simp: ready_def answered_def breaks_def intro: that)
qed

lemma body_tidy_outcome:
  assumes "resource_laws L A blocks ctxs" "sp_wf groups s"
    and "msg1_body supplied groups L A m (msg1_start s) = (res, fr)"
  shows "tidy groups blocks ctxs (blocks (sp_world s)) (ctxs (sp_world s)) fr"
proof -
  have "unallocated groups blocks ctxs (blocks (sp_world s)) (ctxs (sp_world s)) (msg1_start s) \<and>
      ecc_state (msg1_start s) = None"
    using assms(2) by (simp add: tidy_def)
  from tripleD [OF body_tidy [OF assms(1)] this, of supplied m] assms(3) show ?thesis by auto
qed

text \<open>The epilogue pays back what the frame owns, except a response it hands over.\<close>

lemma finish_tidy:
  assumes "resource_laws L A blocks ctxs" "tidy groups blocks ctxs b0 c0 fr"
    and "msg1_finish L (res, fr) = (Inr (ret, resp), s')"
  shows "sp_wf groups s' \<and> ctxs (sp_world s') = c0 \<and>
    blocks (sp_world s') = b0 + (case resp of Some (Some _) \<Rightarrow> 1 | _ \<Rightarrow> 0)"
  using assms(2,3)
  by (auto simp: msg1_finish_def tidy_def Let_def heap_free [OF resource_lawsD(1) [OF assms(1)]]
      heap_close [OF resource_lawsD(1) [OF assms(1)]] ecc_free [OF resource_lawsD(2) [OF assms(1)]]
      ecc_close [OF resource_lawsD(2) [OF assms(1)]]
      split: sum.splits stop.splits option.splits if_splits)

lemma finish_world:
  "msg1_finish L (res, fr) = (Inr r, s') \<Longrightarrow> \<exists>w. s' = (sp fr)\<lparr>sp_world := w\<rparr>"
  by (auto simp: msg1_finish_def Let_def split: sum.splits stop.splits if_splits
      intro: exI [of _ "sp_world (sp fr)"])

lemma msg2_answers_world [simp]:
  "msg2_answers supplied C H D V g_a (s\<lparr>sp_world := w\<rparr>) b = msg2_answers supplied C H D V g_a s b"
  by (simp add: msg2_answers_def)

lemma msg1_outcome:
  assumes laws: "crypto_laws L A C absorbed H D V" "resource_laws L A blocks ctxs" "servers_ok groups"
    and wf: "sp_wf groups s" and m: "length (msg1_g_a m) = 64" and plat: "platform_law L"
  shows "\<exists>ret resp s'. sp_ra_proc_msg1_req supplied groups L A (Some m) msize given s = (Inr (ret, resp), s') \<and>
    sp_wf groups s' \<and> ctxs (sp_world s') = ctxs (sp_world s) \<and>
    (if ret = 0
     then \<exists>b. resp = Some (Some b) \<and> msg2_answers supplied C H D V (msg1_g_a m) s' b \<and> sized_response b \<and>
       blocks (sp_world s') = Suc (blocks (sp_world s))
     else resp \<in> {None, Some None} \<and> blocks (sp_world s') = blocks (sp_world s))"
proof (cases "given \<and> msize = 68 \<and> g_is_sp_registered s")
  case False
  with wf show ?thesis by (auto simp: sp_ra_proc_msg1_req_def)
next
  case True
  then have run: "sp_ra_proc_msg1_req supplied groups L A (Some m) msize given s =
      msg1_finish L (msg1_body supplied groups L A m (msg1_start s))"
    by (simp add: sp_ra_proc_msg1_req_def)
  from True have "g_is_sp_registered s" by simp
  then show ?thesis
  proof (cases rule: body_outcome [OF laws(1) plat laws(3) m wf, of supplied, consumes 1, case_names early answer])
    case (early ret fr)
    obtain s' where fin: "msg1_finish L (Inl (Break ret), fr) = (Inr (ret, Some None), s')"
      using early(2) by (simp add: msg1_finish_def Let_def)
    show ?thesis
      using run early fin finish_tidy [OF laws(2) body_tidy_outcome [OF laws(2) wf early(1)] fin] by simp
  next
    case (answer fr b)
    obtain s' where fin: "msg1_finish L (Inr (), fr) = (Inr (0, Some (Some b)), s')"
      using answer(2) by (simp add: msg1_finish_def Let_def)
    show ?thesis
      using run answer fin finish_tidy [OF laws(2) body_tidy_outcome [OF laws(2) wf answer(1)] fin]
        finish_world [OF fin] msg2_answers_sized by auto
  qed
qed

section \<open>The handler of message 0\<close>

text \<open>The registration loop: an enrollment failure breaks, anything else leaves the state well formed.\<close>

lemma msg0_register_outcome:
  assumes "\<forall>g \<in> set gs. attestation_server (grp_enroll g) (grp_get_sigrl g)"
    and "sp_wf groups s" "i + length gs \<le> length groups"
  shows "\<exists>s'. sp_wf groups s' \<and> sp_world s' = sp_world s \<and> g_sp_db s' = g_sp_db s \<and>
    (msg0_register gs i gid s = (Inl (Break (sp_code SP_IAS_FAILED)), s') \<or>
     (\<exists>ret. msg0_register gs i gid s = (Inr ret, s') \<and>
        (if gid \<in> group_id ` set gs then g_is_sp_registered s' else s' = s)))"
  using assms
proof (induction gs arbitrary: i)
  case Nil
  then show ?case by auto
next
  case (Cons g gs)
  show ?case
  proof (cases "group_id g = gid")
    case False
    with Cons.IH [of "Suc i"] Cons.prems show ?thesis by (auto simp del: sp_code.simps)
  next
    case True
    obtain ret spid tok where "grp_enroll g (g_sp_credentials s) (Some (g_spid s)) (Some (g_authentication_token s)) =
        (ret, Some spid, Some tok)" and "length spid = 16"
      using Cons.prems attestation_server.enroll_keeps_size [of "grp_enroll g" "grp_get_sigrl g" "g_spid s"
          "g_sp_credentials s" "g_authentication_token s"] by (auto simp: sp_wf_def)
    with True Cons.prems show ?thesis
      by (auto simp: sp_wf_def Let_def simp del: sp_code.simps)
  qed
qed

end
