(* ===== verification/Sp_Platform.thy ===== *)
theory Sp_Platform
  imports Sp_Correctness
begin

text \<open>
  Message 1 on platforms that do not define the two accesses of \<open>platform_law\<close>.  The handler is
  compared with itself on the platform that defines them (\<open>defining\<close>): step by step it either
  runs into undefined behaviour or does the same, so what holds of its results there holds
  everywhere, and what is undefined is only the misaligned store and the copy from null.
\<close>

section \<open>The same library on a platform that defines both\<close>

definition defining :: "'w libcrypto \<Rightarrow> 'w libcrypto" where
  "defining L = L\<lparr>misaligned_store := True, null_memcpy := True\<rparr>"

lemma defining_platform [simp]: "platform_law (defining L)"
  by (simp add: platform_law_def defining_def)

lemma defining_calls [simp]:
  "cmac_msg (defining L) = cmac_msg L" "ecc256_open_context (defining L) = ecc256_open_context L"
  "ecc256_close_context (defining L) = ecc256_close_context L"
  "ecc256_create_key_pair (defining L) = ecc256_create_key_pair L"
  "ecc256_compute_shared_dhkey (defining L) = ecc256_compute_shared_dhkey L"
  "ecdsa_sign (defining L) = ecdsa_sign L" "malloc (defining L) = malloc L" "free_block (defining L) = free_block L"
  "misaligned_store (defining L)" "null_memcpy (defining L)"
  by (simp_all add: defining_def)

text \<open>The laws and the statements the platform does not matter to.\<close>

lemma defining_laws [simp]:
  "crypto_laws (defining L) A C absorbed H D V = crypto_laws L A C absorbed H D V"
  "resource_laws (defining L) A blocks ctxs = resource_laws L A blocks ctxs"
  "key_pair_law (defining L) P = key_pair_law L P"
  unfolding crypto_laws_def resource_laws_def key_pair_law_def sizes_law_def cmac_law_def dh_law_def sign_law_def
    heap_law_def ecc_law_def defining_calls by (rule refl)+

lemma defining_stmts [simp]:
  "msg1_open_context (defining L) = msg1_open_context L"
  "msg1_create_keys (defining L) = msg1_create_keys L"
  "msg1_shared_key (defining L) = msg1_shared_key L"
  "msg1_allocate (defining L) = msg1_allocate L"
  "msg1_sign (defining L) = msg1_sign L"
  "msg1_mac (defining L) = msg1_mac L"
  "msg1_finish (defining L) = msg1_finish L"
  unfolding fun_eq_iff msg1_open_context_def msg1_create_keys_def msg1_shared_key_def msg1_allocate_def
    msg1_sign_def msg1_mac_def msg1_finish_def defining_calls by (rule allI refl)+

section \<open>Undefined or the same\<close>

definition same_or_fault :: "('s \<Rightarrow> (stop + 'a) \<times> 's) \<Rightarrow> ('s \<Rightarrow> (stop + 'a) \<times> 's) \<Rightarrow> bool" where
  "same_or_fault m m' \<longleftrightarrow> (\<forall>s. fst (m s) = Inl Fault \<or> m s = m' s)"

lemma same_or_fault_refl [simp]: "same_or_fault m m"
  by (simp add: same_or_fault_def)

lemma same_or_fault_attempt:
  assumes "same_or_fault m m'" and "\<And>a. same_or_fault (k a) (k' a)"
  shows "same_or_fault (attempt m k) (attempt m' k')"
  unfolding same_or_fault_def
proof (rule allI)
  fix s
  from assms(1) consider "fst (m s) = Inl Fault" | "m s = m' s" by (auto simp: same_or_fault_def)
  then show "fst (attempt m k s) = Inl Fault \<or> attempt m k s = attempt m' k' s"
  proof cases
    case 1
    then show ?thesis by (cases "m s") simp
  next
    case 2
    then show ?thesis
      using assms(2) by (cases "m' s"; cases "fst (m' s)") (auto simp: same_or_fault_def)
  qed
qed

lemma derive_key_same_or_undefined:
  "derive_key L dh k w = (Inl Undefined, w) \<or> derive_key L dh k w = derive_key (defining L) dh k w"
  by (auto simp: derive_key_def derivation_buffer_eq split: prod.split option.split)

lemma derive_same_or_fault: "same_or_fault (msg1_derive L upd k dh) (msg1_derive (defining L) upd k dh)"
  unfolding same_or_fault_def
proof (rule allI)
  fix fr :: "'a msg1_frame"
  from derive_key_same_or_undefined [of L dh "derive_key_code k" "sp_world (sp fr)"]
  show "fst (msg1_derive L upd k dh fr) = Inl Fault \<or> msg1_derive L upd k dh fr = msg1_derive (defining L) upd k dh fr"
    by (auto simp: msg1_derive_def stmt_defs leave_def)
qed

lemma put_sigrl_same_or_fault: "same_or_fault (msg1_put_sigrl L n rl) (msg1_put_sigrl (defining L) n rl)"
  unfolding msg1_put_sigrl_def
  by (rule same_or_fault_attempt)
    (auto simp: same_or_fault_def put_copy_from_def leave_def split: option.split)

lemma body_same_or_fault:
  "same_or_fault (msg1_body supplied groups L A m) (msg1_body supplied groups (defining L) A m)"
  unfolding msg1_body_def msg1_agree_def msg1_derive_keys_def msg1_write_response_def defining_stmts
  by (auto intro!: same_or_fault_attempt derive_same_or_fault put_sigrl_same_or_fault)

lemma finish_defined: "msg1_finish L r = (Inr x, s') \<Longrightarrow> fst r \<noteq> Inl Fault"
  by (auto simp: msg1_finish_def split: prod.splits)

text \<open>A result of the handler is its result on the platform that defines both accesses.\<close>

lemma msg1_same_result:
  assumes "sp_ra_proc_msg1_req supplied groups L A pm msize given s = (Inr r, s')"
  shows "sp_ra_proc_msg1_req supplied groups (defining L) A pm msize given s = (Inr r, s')"
proof (cases pm)
  case None
  with assms show ?thesis by (simp add: sp_ra_proc_msg1_req_def)
next
  case (Some m)
  let ?body = "\<lambda>L. msg1_body supplied groups L A m (msg1_start s)"
  have "msg1_finish L (?body L) = (Inr r, s') \<Longrightarrow> ?body L = ?body (defining L)"
    using body_same_or_fault [of supplied groups L A m] finish_defined
    unfolding same_or_fault_def by metis
  with assms Some show ?thesis by (auto simp: sp_ra_proc_msg1_req_def split: if_splits)
qed

text \<open>What a result of message 1 promises, on any platform.\<close>

lemma msg1_result:
  assumes "crypto_laws L A C absorbed H D V" "resource_laws L A blocks ctxs" "servers_ok groups"
    and "sp_wf groups s" "length (msg1_g_a m) = 64"
    and "sp_ra_proc_msg1_req supplied groups L A (Some m) msize given s = (Inr (ret, resp), s')"
  shows "sp_wf groups s' \<and> ctxs (sp_world s') = ctxs (sp_world s) \<and>
    (if ret = 0
     then \<exists>b. resp = Some (Some b) \<and> msg2_answers supplied C H D V (msg1_g_a m) s' b \<and> sized_response b \<and>
       blocks (sp_world s') = Suc (blocks (sp_world s))
     else resp \<in> {None, Some None} \<and> blocks (sp_world s') = blocks (sp_world s))"
  using msg1_outcome [of "defining L" A C absorbed H D V blocks ctxs groups s m supplied msize given] assms(1-5)
    msg1_same_result [OF assms(6)]
  by auto

section \<open>What the platform has to define\<close>

lemma msg1_same_when_defined:
  assumes "supplied \<or> misaligned_store L" "null_memcpy L"
  shows "sp_ra_proc_msg1_req supplied groups L A pm msize given s =
    sp_ra_proc_msg1_req supplied groups (defining L) A pm msize given s"
proof (cases "misaligned_store L")
  case True
  with assms(2) have "defining L = L" by (simp add: defining_def)
  then show ?thesis by simp
next
  case False
  with assms(1) have keys: "msg1_derive_keys supplied (defining L) A = msg1_derive_keys supplied L A"
    by (simp add: fun_eq_iff msg1_derive_keys_def)
  have list: "msg1_put_sigrl (defining L) = msg1_put_sigrl L"
    using assms(2) by (simp add: fun_eq_iff msg1_put_sigrl_def)
  have "msg1_body supplied groups (defining L) A = msg1_body supplied groups L A"
    unfolding fun_eq_iff msg1_body_def msg1_agree_def msg1_write_response_def defining_stmts keys list
    by (rule allI refl)+
  then show ?thesis by (simp add: sp_ra_proc_msg1_req_def split: option.split)
qed

lemma derive_smk_aligned:
  "msg1_derive L upd SAMPLE_DERIVE_KEY_SMK dh fr = (Inr x, fr') \<Longrightarrow> misaligned_store L"
  by (auto simp: msg1_derive_def stmt_defs leave_def derive_key_def key_label_code derivation_buffer_eq label_bytes
      simp del: derive_key_code.simps split: stmt_splits)

text \<open>
  A successful message 1 has made both accesses: the misaligned one in the default derivation, the
  copy from null whenever the server has no revocation list, as the simulated one never has.
\<close>

lemma body_needs_platform:
  assumes "msg1_body supplied groups L A m fr = (Inr (), fr')"
  shows "supplied \<or> misaligned_store L"
    and "groups = g_extended_epid_groups L' \<Longrightarrow> null_memcpy L"
proof -
  from assms obtain gid fr1 n rl fr2 dh fr3 fr4 where sigrl: "msg1_get_sigrl groups gid fr1 = (Inr (n, rl), fr2)"
    and keys: "msg1_derive_keys supplied L A dh fr2 = (Inr (), fr3)"
    and copy: "msg1_put_sigrl L n rl fr4 = (Inr (), fr')"
    by (auto simp: msg1_body_def msg1_agree_def msg1_write_response_def attempt_Inr_iff)
  show "supplied \<or> misaligned_store L"
    using keys derive_smk_aligned
    by (cases supplied) (auto simp: msg1_derive_keys_def attempt_Inr_iff)
  assume "groups = g_extended_epid_groups L'"
  with sigrl have "rl = None"
    by (auto simp: msg1_get_sigrl_def g_extended_epid_groups_def group_at_def ias_get_sigrl_def stmt_defs
        split: stmt_splits)
  with copy show "null_memcpy L"
    by (auto simp: msg1_put_sigrl_def put_copy_from_def attempt_Inr_iff leave_def split: if_splits)
qed

lemma msg1_needs_platform:
  assumes "crypto_laws L A C absorbed H D V" "servers_ok groups" "sp_wf groups s" "length (msg1_g_a m) = 64"
    and run: "sp_ra_proc_msg1_req supplied groups L A (Some m) msize given s = (Inr (0, resp), s')"
  shows "supplied \<or> misaligned_store L"
    and "groups = g_extended_epid_groups L' \<Longrightarrow> null_memcpy L"
proof -
  let ?body = "\<lambda>L. msg1_body supplied groups L A m (msg1_start s)"
  from run have fin: "msg1_finish L (?body L) = (Inr (0, resp), s')" and reg: "g_is_sp_registered s"
    by (auto simp: sp_ra_proc_msg1_req_def split: if_splits)
  then have same: "?body L = ?body (defining L)"
    using body_same_or_fault [of supplied groups L A m] finish_defined unfolding same_or_fault_def by metis
  have "crypto_laws (defining L) A C absorbed H D V" using assms(1) by simp
  then have "\<exists>fr. ?body L = (Inr (), fr)"
  proof (cases rule: body_outcome [OF _ defining_platform assms(2,4,3) reg, of _ A C absorbed H D V supplied,
        consumes 1, case_names early answer])
    case (early ret fr)
    with fin same show ?thesis by (simp add: msg1_finish_def Let_def)
  next
    case (answer fr b)
    with same show ?thesis by simp
  qed
  then obtain fr where "?body L = (Inr (), fr)" ..
  from body_needs_platform [OF this] show "supplied \<or> misaligned_store L"
    "groups = g_extended_epid_groups L' \<Longrightarrow> null_memcpy L" by blast+
qed

end
