(* ===== verification/Sp_Handlers.thy ===== *)
theory Sp_Handlers
  imports Sp_Platform
begin

text \<open>
  The handlers of the service provider as their caller sees them: the outcome of message 0, the
  contract both handlers share (\<open>request_handler\<close>), interpreted on both, and the properties of
  the provider as a whole.
\<close>

section \<open>The outcome of message 0\<close>

lemma key_id_list_length [simp]: "length g_ecdsa_p256_att_key_id_list = 264"
  by (simp add: g_ecdsa_p256_att_key_id_list_def)

definition msg0_block :: "byte list" where
  "msg0_block = resp_header TYPE_RA_MSG0 264 @ g_ecdsa_p256_att_key_id_list"

lemma msg0_block_sized: "sized_response msg0_block"
  unfolding msg0_block_def by (rule sized_header) simp_all

lemma msg0_response_eq: "msg0_response = Some msg0_block"
proof -
  let ?ids = g_ecdsa_p256_att_key_id_list
  have zeros: "replicate (length ?ids + sizeof_response_header) (0 :: byte) = replicate 8 0 @ replicate 264 0"
    by (simp flip: replicate_add)
  have copy: "memcpy_s 8 264 ?ids 264 (replicate 8 0 @ replicate 264 0) = Some (0, replicate 8 0 @ ?ids)"
    using memcpy_s_fits [of "replicate 8 0" 8 "replicate 264 0" ?ids 264 "[]"] by simp
  show ?thesis
    unfolding msg0_response_def Let_def zeros msg0_block_def
    by (simp only: key_id_list_length sizeof_values off_resp_values One_nat_def copy bind.bind_lunit prod.case
        store_header ra_msg_type_code.simps of_nat_numeral resp_header_def add_Suc_right add_0_right)
qed

lemma msg0_respond_eq:
  "msg0_respond L s =
     (case malloc L 272 (sp_world s) of (got, w) \<Rightarrow>
        (Inr (if got then sp_code SP_OK else sp_code SP_INTERNAL_ERROR,
              Some (if got then Some msg0_block else None)), s\<lparr>sp_world := w\<rparr>))"
  by (simp add: msg0_respond_def msg0_response_eq split: prod.split)

lemma msg0_respond_outcome:
  assumes "resource_laws L A blocks ctxs" "sp_wf groups s"
  shows "\<exists>ret resp s'. msg0_respond L s = (Inr (ret, resp), s') \<and> sp_wf groups s' \<and>
    ctxs (sp_world s') = ctxs (sp_world s) \<and>
    (if ret = 0 then resp = Some (Some msg0_block) \<and> blocks (sp_world s') = Suc (blocks (sp_world s))
     else ret \<in> {sp_code SP_INTERNAL_ERROR} \<and> resp = Some None \<and> blocks (sp_world s') = blocks (sp_world s))"
proof (cases "malloc L 272 (sp_world s)")
  case (Pair got w)
  with assms(2) resource_calls(6) [OF assms(1) Pair] show ?thesis
    by (simp add: msg0_respond_eq)
qed

lemma msg0_by_respond:
  assumes "resource_laws L A blocks ctxs" "sp_wf groups t" "sp_world t = sp_world s"
    and "sp_ra_proc_msg0_req groups L pm msize given s = msg0_respond L t"
  shows "\<exists>ret resp s'. sp_ra_proc_msg0_req groups L pm msize given s = (Inr (ret, resp), s') \<and> sp_wf groups s' \<and>
    ctxs (sp_world s') = ctxs (sp_world s) \<and>
    (if ret = 0 then resp = Some (Some msg0_block) \<and> blocks (sp_world s') = Suc (blocks (sp_world s))
     else ret \<in> {-1, sp_code SP_IAS_FAILED, sp_code SP_INTERNAL_ERROR} \<and> resp \<in> {None, Some None} \<and>
       blocks (sp_world s') = blocks (sp_world s))"
proof -
  obtain ret resp s' where "msg0_respond L t = (Inr (ret, resp), s')" "sp_wf groups s'"
    "ctxs (sp_world s') = ctxs (sp_world t)"
    "if ret = 0 then resp = Some (Some msg0_block) \<and> blocks (sp_world s') = Suc (blocks (sp_world t))
     else ret \<in> {sp_code SP_INTERNAL_ERROR} \<and> resp = Some None \<and> blocks (sp_world s') = blocks (sp_world t)"
    using msg0_respond_outcome [OF assms(1,2)] by blast
  with assms(3,4) show ?thesis
    by (intro exI [of _ ret] exI [of _ resp] exI [of _ s']) (simp split: if_splits)
qed

lemma msg0_outcome:
  assumes "resource_laws L A blocks ctxs" "servers_ok groups" and wf: "sp_wf groups s"
  shows "\<exists>ret resp s'. sp_ra_proc_msg0_req groups L pm msize given s = (Inr (ret, resp), s') \<and> sp_wf groups s' \<and>
    ctxs (sp_world s') = ctxs (sp_world s) \<and>
    (if ret = 0 then resp = Some (Some msg0_block) \<and> blocks (sp_world s') = Suc (blocks (sp_world s))
     else ret \<in> {-1, sp_code SP_IAS_FAILED, sp_code SP_INTERNAL_ERROR} \<and> resp \<in> {None, Some None} \<and>
       blocks (sp_world s') = blocks (sp_world s))"
proof (cases pm)
  case None
  with wf show ?thesis by (simp add: sp_ra_proc_msg0_req_def)
next
  case (Some m)
  let ?gid = "extended_epid_group_id m"
  obtain s1 where s1: "sp_wf groups s1" "sp_world s1 = sp_world s"
    and reg: "msg0_register groups 0 ?gid s = (Inl (Break (sp_code SP_IAS_FAILED)), s1) \<or>
      (\<exists>ret. msg0_register groups 0 ?gid s = (Inr ret, s1))"
    using msg0_register_outcome [where gs = groups and groups = groups and i = 0 and s = s and gid = ?gid] assms(2) wf
    by (auto simp: servers_ok_def simp del: sp_code.simps)
  note respond = msg0_by_respond [where s = s, OF assms(1)]
  show ?thesis
  proof (cases "given \<and> msize = 4 \<and> msg0_must_register groups ?gid s")
    case False
    then have "sp_ra_proc_msg0_req groups L pm msize given s =
        (if given \<and> msize = 4 then msg0_respond L s else (Inr (-1, None), s))"
      by (simp add: sp_ra_proc_msg0_req_def Some)
    then consider "sp_ra_proc_msg0_req groups L pm msize given s = msg0_respond L s" |
        "sp_ra_proc_msg0_req groups L pm msize given s = (Inr (-1, None), s)"
      by (cases "given \<and> msize = 4") auto
    then show ?thesis
    proof cases
      case 1
      then show ?thesis by (rule respond [OF wf refl])
    qed (simp add: wf)
  next
    case True
    show ?thesis
    proof (rule disjE [OF reg])
      assume "msg0_register groups 0 ?gid s = (Inl (Break (sp_code SP_IAS_FAILED)), s1)"
      then have "sp_ra_proc_msg0_req groups L pm msize given s = (Inr (sp_code SP_IAS_FAILED, Some None), s1)"
        using True by (simp add: sp_ra_proc_msg0_req_def Some)
      with s1 show ?thesis by (intro exI [of _ "sp_code SP_IAS_FAILED"] exI) auto
    next
      assume "\<exists>ret. msg0_register groups 0 ?gid s = (Inr ret, s1)"
      then have "sp_ra_proc_msg0_req groups L pm msize given s = msg0_respond L s1"
        using True by (auto simp: sp_ra_proc_msg0_req_def Some)
      then show ?thesis by (rule respond [OF s1])
    qed
  qed
qed

section \<open>The contract of a request handler\<close>

text \<open>
  A handler never runs into undefined behaviour, keeps the invariant of its state, and sets the
  response pointer to a block exactly when it returns 0; then it has handed one heap block over.
  \<open>good\<close> is what the caller owes about the message it points to.
\<close>

locale request_handler =
  fixes serve :: "'p \<Rightarrow> 'm option \<Rightarrow> u32 \<Rightarrow> bool \<Rightarrow> 's \<Rightarrow> handler_result \<times> 's"
    and inv :: "'p \<Rightarrow> 's \<Rightarrow> bool" and good :: "'m \<Rightarrow> bool" and held :: "'s \<Rightarrow> nat"
  assumes answers: "inv p s \<Longrightarrow> pred_option good pm \<Longrightarrow>
      \<exists>ret resp s'. serve p pm msize given s = (Inr (ret, resp), s') \<and> inv p s' \<and>
        (if ret = 0 then (\<exists>b. resp = Some (Some b) \<and> sized_response b) \<and> held s' = Suc (held s)
         else resp \<in> {None, Some None} \<and> held s' = held s)"
begin

lemma never_undefined:
  "inv p s \<Longrightarrow> pred_option good pm \<Longrightarrow> fst (serve p pm msize given s) \<noteq> Inl Undefined"
  using answers [of p s pm msize given] by auto

lemma keeps_inv:
  "inv p s \<Longrightarrow> pred_option good pm \<Longrightarrow> serve p pm msize given s = (r, s') \<Longrightarrow> inv p s'"
  using answers [of p s pm msize given] by auto

lemma block_iff_ok:
  assumes "inv p s" "pred_option good pm" "serve p pm msize given s = (Inr (ret, resp), s')"
  shows "ret = 0 \<longleftrightarrow> (\<exists>b. resp = Some (Some b))"
    and "held s' = held s + (case resp of Some (Some _) \<Rightarrow> 1 | _ \<Rightarrow> 0)"
  using answers [OF assms(1,2), of msize given] assms(3) by (auto split: if_splits)

end

text \<open>The provider as deployed: compile-time flag, group table and libraries.\<close>

record 'w provider =
  supplied_derivation :: bool
  prov_groups :: "'w sample_extended_epid_group list"
  prov_lib :: "'w libcrypto"
  prov_sha :: "(sample_status_t, 'w) sha_api"

definition provider_inv :: "('w \<Rightarrow> nat) \<Rightarrow> ('w \<Rightarrow> nat) \<Rightarrow> 'w provider \<Rightarrow> 'w sp_state \<Rightarrow> bool" where
  "provider_inv blocks ctxs p s \<longleftrightarrow>
     (\<exists>C absorbed H D V. crypto_laws (prov_lib p) (prov_sha p) C absorbed H D V) \<and> platform_law (prov_lib p) \<and>
     resource_laws (prov_lib p) (prov_sha p) blocks ctxs \<and> servers_ok (prov_groups p) \<and>
     sp_wf (prov_groups p) s"

definition serve_msg0 ::
  "'w provider \<Rightarrow> sample_ra_msg0_t option \<Rightarrow> u32 \<Rightarrow> bool \<Rightarrow> 'w sp_state \<Rightarrow> handler_result \<times> 'w sp_state" where
  "serve_msg0 p = sp_ra_proc_msg0_req (prov_groups p) (prov_lib p)"

definition serve_msg1 ::
  "'w provider \<Rightarrow> sample_ra_msg1_t option \<Rightarrow> u32 \<Rightarrow> bool \<Rightarrow> 'w sp_state \<Rightarrow> handler_result \<times> 'w sp_state" where
  "serve_msg1 p = sp_ra_proc_msg1_req (supplied_derivation p) (prov_groups p) (prov_lib p) (prov_sha p)"

definition good_msg1 :: "sample_ra_msg1_t \<Rightarrow> bool" where
  "good_msg1 m \<longleftrightarrow> length (msg1_g_a m) = 64"

interpretation msg0: request_handler serve_msg0 "provider_inv blocks ctxs" "\<lambda>_. True" "\<lambda>s. blocks (sp_world s)"
  for blocks ctxs
proof unfold_locales
  fix p :: "'a provider" and s and pm :: "sample_ra_msg0_t option" and msize given
  assume "provider_inv blocks ctxs p s"
  then have "resource_laws (prov_lib p) (prov_sha p) blocks ctxs" "servers_ok (prov_groups p)"
      "sp_wf (prov_groups p) s" and inv: "\<And>s'. sp_wf (prov_groups p) s' \<Longrightarrow> provider_inv blocks ctxs p s'"
    by (auto simp: provider_inv_def)
  from msg0_outcome [OF this(1-3), of pm msize given] inv msg0_block_sized
  show "\<exists>ret resp s'. serve_msg0 p pm msize given s = (Inr (ret, resp), s') \<and> provider_inv blocks ctxs p s' \<and>
      (if ret = 0 then (\<exists>b. resp = Some (Some b) \<and> sized_response b) \<and> blocks (sp_world s') = Suc (blocks (sp_world s))
       else resp \<in> {None, Some None} \<and> blocks (sp_world s') = blocks (sp_world s))"
    by (fastforce simp: serve_msg0_def)
qed

lemma msg1_null [simp]: "sp_ra_proc_msg1_req supplied groups L A None msize given s = (Inr (-1, None), s)"
  by (simp add: sp_ra_proc_msg1_req_def)

interpretation msg1: request_handler serve_msg1 "provider_inv blocks ctxs" good_msg1 "\<lambda>s. blocks (sp_world s)"
  for blocks ctxs
proof unfold_locales
  fix p :: "'a provider" and s and pm :: "sample_ra_msg1_t option" and msize given
  assume inv: "provider_inv blocks ctxs p s" and good: "pred_option good_msg1 pm"
  show "\<exists>ret resp s'. serve_msg1 p pm msize given s = (Inr (ret, resp), s') \<and> provider_inv blocks ctxs p s' \<and>
      (if ret = 0 then (\<exists>b. resp = Some (Some b) \<and> sized_response b) \<and> blocks (sp_world s') = Suc (blocks (sp_world s))
       else resp \<in> {None, Some None} \<and> blocks (sp_world s') = blocks (sp_world s))"
  proof (cases pm)
    case None
    with inv show ?thesis by (simp add: serve_msg1_def)
  next
    case (Some m)
    from inv obtain C absorbed H D V where laws: "crypto_laws (prov_lib p) (prov_sha p) C absorbed H D V"
        "resource_laws (prov_lib p) (prov_sha p) blocks ctxs" "servers_ok (prov_groups p)"
      and wf: "sp_wf (prov_groups p) s" and plat: "platform_law (prov_lib p)"
      and inv': "\<And>s'. sp_wf (prov_groups p) s' \<Longrightarrow> provider_inv blocks ctxs p s'"
      by (auto simp: provider_inv_def)
    have "length (msg1_g_a m) = 64" using good Some by (simp add: good_msg1_def)
    from msg1_outcome [OF laws wf this plat, of "supplied_derivation p" msize given] inv' show ?thesis
      unfolding Some serve_msg1_def by (fastforce split: if_splits)
  qed
qed

section \<open>When every call succeeds\<close>

definition calls_succeed ::
  "'w sample_extended_epid_group list \<Rightarrow> 'w libcrypto \<Rightarrow> (sample_status_t, 'w) sha_api \<Rightarrow> bool" where
  "calls_succeed groups L A \<longleftrightarrow>
     (\<forall>k d w. fst (fst (cmac_msg L k d w)) = SAMPLE_SUCCESS) \<and>
     (\<forall>w. fst (fst (ecc256_open_context L w)) = SAMPLE_SUCCESS) \<and>
     (\<forall>h w. fst (fst (ecc256_create_key_pair L h w)) = SAMPLE_SUCCESS) \<and>
     (\<forall>k p h w. fst (fst (ecc256_compute_shared_dhkey L k p h w)) = SAMPLE_SUCCESS) \<and>
     (\<forall>d k h w. fst (fst (ecdsa_sign L d k h w)) = SAMPLE_SUCCESS) \<and>
     (\<forall>n w. fst (malloc L n w)) \<and>
     (\<forall>w. fst (fst (sha_init A w)) = SAMPLE_SUCCESS) \<and>
     (\<forall>d h w. fst (sha_update A d h w) = SAMPLE_SUCCESS) \<and>
     (\<forall>h w. fst (fst (sha_get_hash A h w)) = SAMPLE_SUCCESS) \<and>
     (\<forall>g \<in> set groups. \<forall>gid. fst (grp_get_sigrl g gid (Some 0) (Some None)) = 0)"

lemma calls_succeedD:
  assumes "calls_succeed groups L A"
  shows "cmac_msg L k d w = ((st, r1), w') \<Longrightarrow> st = SAMPLE_SUCCESS"
    and "ecc256_open_context L w = ((st, r2), w') \<Longrightarrow> st = SAMPLE_SUCCESS"
    and "ecc256_create_key_pair L h w = ((st, r3), w') \<Longrightarrow> st = SAMPLE_SUCCESS"
    and "ecc256_compute_shared_dhkey L k d h w = ((st, r4), w') \<Longrightarrow> st = SAMPLE_SUCCESS"
    and "ecdsa_sign L d k h w = ((st, r5), w') \<Longrightarrow> st = SAMPLE_SUCCESS"
    and "malloc L n w = (got, w') \<Longrightarrow> got"
    and "sha_init A w = ((st, r6), w') \<Longrightarrow> st = SAMPLE_SUCCESS"
    and "sha_update A d i w = (st, w') \<Longrightarrow> st = SAMPLE_SUCCESS"
    and "sha_get_hash A i w = ((st, r7), w') \<Longrightarrow> st = SAMPLE_SUCCESS"
    and "g \<in> set groups \<Longrightarrow> grp_get_sigrl g gid (Some 0) (Some None) = (ret, n', p') \<Longrightarrow> ret = 0"
  using assms unfolding calls_succeed_def by (metis fst_conv)+

text \<open>A statement that never takes a \<open>break\<close>.\<close>

definition unbroken :: "('w, 'a) msg1_stmt \<Rightarrow> bool" where
  "unbroken m \<longleftrightarrow> triple (\<lambda>_. True) m (\<lambda>_ _. True) (\<lambda>e _. e = Fault)"

lemma unbrokenI: "(\<And>fr e t. m fr = (Inl e, t) \<Longrightarrow> e = Fault) \<Longrightarrow> unbroken m"
  by (auto simp: unbroken_def triple_def split: prod.split sum.split)

lemma unbrokenD:
  assumes "unbroken m" "m fr = (Inl e, t)"
  shows "e = Fault"
  using assms(1) assms(2) unfolding unbroken_def triple_def by (auto dest!: spec [of _ fr])

lemma unbroken_attempt: "unbroken m \<Longrightarrow> (\<And>a. unbroken (k a)) \<Longrightarrow> unbroken (attempt m k)"
  unfolding unbroken_def by (rule triple_attempt [where R = "\<lambda>_ _. True"])

lemma memcpy_s_same: "memcpy_s off n src n m = Some (err, m') \<Longrightarrow> err = 0"
  by (auto simp: memcpy_s_def bind_eq_Some_conv)

lemma unbroken_copies:
  "unbroken (put_copy off n src n)" "unbroken (put_copy_from null_ok off n rl n)" "unbroken (copy_db get upd n src)"
  by (rule unbrokenI,
      auto simp: put_copy_def put_copy_from_def leave_def ok_def copy_db_def stmt_defs dest: memcpy_s_same split: stmt_splits)+

lemma unbroken_simple:
  "unbroken (put off bs)" "unbroken (reads f)" "unbroken (modify g)" "unbroken (defined x)"
  "unbroken (ok a)" "unbroken (set_db h)" "unbroken (lib_call l)" "unbroken (leave Fault)"
  by (rule unbrokenI, auto simp: stmt_defs split: stmt_splits)+

lemma unbroken_calls:
  assumes "calls_succeed groups L A"
  shows "unbroken (msg1_open_context L)" "unbroken (msg1_create_keys L)" "unbroken (msg1_shared_key L priv g_a)"
  by (rule unbrokenI, auto simp: msg1_open_context_def msg1_create_keys_def msg1_shared_key_def stmt_defs
      dest: calls_succeedD [OF assms] split: stmt_splits)+

lemma unbroken_get_sigrl:
  assumes "calls_succeed groups L A"
  shows "unbroken (msg1_get_sigrl groups gid)"
proof (rule unbrokenI)
  fix fr :: "'a msg1_frame" and e t
  assume run: "msg1_get_sigrl groups gid fr = (Inl e, t)"
  show "e = Fault"
  proof (cases "group_at groups (g_sp_extended_epid_group_id (sp fr))")
    case None
    with run show ?thesis by (simp add: msg1_get_sigrl_def stmt_defs)
  next
    case (Some g)
    then have "g \<in> set groups" by (auto simp: group_at_def split: option.splits if_splits)
    with run Some show ?thesis
      by (auto simp: msg1_get_sigrl_def stmt_defs dest: calls_succeedD(10) [OF assms] split: stmt_splits)
  qed
qed

lemma derive_succeeds:
  assumes "calls_succeed groups L A"
  shows "derive_key L dh (derive_key_code k) w = (Inr (r, out), w') \<Longrightarrow> r"
    and "derive_key_supplied A dh key_id w = ((r', out'), w'') \<Longrightarrow> r'"
  by (auto simp: derive_key_def key_label_code derivation_buffer_eq derive_key_supplied_def
      simp del: derive_key_code.simps
      dest: calls_succeedD [OF assms] split: prod.splits option.splits if_splits)

lemma unbroken_derive_keys:
  assumes "calls_succeed groups L A"
  shows "unbroken (msg1_derive_keys supplied L A dh)"
proof -
  have "unbroken (msg1_derive L upd k dh)" for upd k
    by (rule unbrokenI) (auto simp: msg1_derive_def stmt_defs dest: derive_succeeds [OF assms]
        split: stmt_splits ub.splits)
  moreover have "unbroken (msg1_derive_supplied A upd1 upd2 k dh)" for upd1 upd2 k
    by (rule unbrokenI) (auto simp: msg1_derive_supplied_def stmt_defs dest: derive_succeeds [OF assms]
        split: stmt_splits)
  ultimately show ?thesis
    unfolding msg1_derive_keys_def by (auto intro!: unbroken_attempt)
qed

lemma unbroken_checked_call:
  assumes "\<And>w a w'. f w = (a, w') \<Longrightarrow> P a" and "\<And>a. P a \<Longrightarrow> unbroken (k a)"
  shows "unbroken (attempt (lib_call f) k)"
proof (rule unbrokenI)
  fix fr :: "'a msg1_frame" and e t
  assume "attempt (lib_call f) k fr = (Inl e, t)"
  then obtain a w' where "f (sp_world (sp fr)) = (a, w')" "k a (fr\<lparr>sp := (sp fr)\<lparr>sp_world := w'\<rparr>\<rparr>) = (Inl e, t)"
    by (cases "f (sp_world (sp fr))") (auto simp: lib_call_def on_part_def attempt_def)
  with assms show "e = Fault" by (blast dest: unbrokenD)
qed

lemma gb_ga_error: "gb_ga db = Some (err, b) \<Longrightarrow> err = 0"
  by (auto simp: gb_ga_def bind_eq_Some_conv dest: memcpy_s_same split: if_splits)

lemma unbroken_sign:
  assumes "calls_succeed groups L A"
  shows "unbroken (msg1_sign L)"
proof -
  have checked: "unbroken (attempt (put off bs) (\<lambda>_. check True e))" for off bs e
    by (intro unbroken_attempt unbroken_simple) (simp add: unbroken_def triple_def check_def)
  have sign: "unbroken (attempt (reads ecc_state) (\<lambda>h. attempt (lib_call (ecdsa_sign L data g_sp_priv_key h))
      (\<lambda>(sample_ret, sig). attempt (put (off_msg2 4) sig) (\<lambda>_.
         check (sample_ret = SAMPLE_SUCCESS) e))))" for data e
    by (intro unbroken_attempt unbroken_simple unbroken_checked_call [where P = "\<lambda>x. fst x = SAMPLE_SUCCESS"])
      (auto dest: calls_succeedD(5) [OF assms] simp: checked)
  show ?thesis
  proof (rule unbrokenI)
    fix fr :: "'a msg1_frame" and e t
    assume run: "msg1_sign L fr = (Inl e, t)"
    show "e = Fault"
    proof (cases "gb_ga (g_sp_db (sp fr))")
      case None
      with run show ?thesis by (simp add: msg1_sign_def stmt_defs)
    next
      case (Some x)
      obtain err data where x: "x = (err, data)" by (cases x)
      with Some gb_ga_error have "err = 0" by blast
      with run Some x have "attempt (reads ecc_state) (\<lambda>h. attempt (lib_call (ecdsa_sign L data g_sp_priv_key h))
          (\<lambda>(sample_ret, sig). attempt (put (off_msg2 4) sig) (\<lambda>_.
             check (sample_ret = SAMPLE_SUCCESS) (Break (sp_code SP_INTERNAL_ERROR))))) fr = (Inl e, t)"
        by (simp add: msg1_sign_def attempt_def [of "reads _"] reads_def del: sp_code.simps)
      then show ?thesis using unbrokenD sign by blast
    qed
  qed
qed

lemma unbroken_write_response:
  assumes "calls_succeed groups L A"
  shows "unbroken (msg1_write_response supplied L n rl)"
proof -
  have "unbroken (msg1_allocate L n)"
    unfolding msg1_allocate_def Let_def
    by (rule unbroken_checked_call [where P = id])
      (auto dest: calls_succeedD(6) [OF assms] intro!: unbroken_attempt unbroken_simple)
  moreover have "unbroken (msg1_assemble supplied)" "unbroken (msg1_put_sigrl L n rl)"
    unfolding msg1_assemble_def msg1_put_sigrl_def
    by (auto intro!: unbroken_attempt unbroken_simple unbroken_copies)
  moreover have "unbroken (msg1_sign L)" using assms by (rule unbroken_sign)
  moreover have "unbroken (msg1_mac L)"
    by (rule unbrokenI) (auto simp: msg1_mac_def stmt_defs
        dest: calls_succeedD(1) [OF assms] memcpy_s_same split: stmt_splits)
  ultimately show ?thesis
    unfolding msg1_write_response_def by (auto intro!: unbroken_attempt)
qed

lemma unbroken_body:
  assumes "calls_succeed groups L A"
  shows "unbroken (msg1_body supplied groups L A m)"
  unfolding msg1_body_def msg1_agree_def
  by (auto intro!: unbroken_attempt unbroken_copies unbroken_calls [OF assms] unbroken_get_sigrl [OF assms]
      unbroken_derive_keys [OF assms] unbroken_write_response [OF assms])

end
