(* ===== verification/Sp_Properties.thy ===== *)
theory Sp_Properties
  imports Sp_Handlers
begin

text \<open>
  The properties of the service provider: registration by message 0, message 2 as the answer to
  message 1, its keys and authentication, errors, and the resources it holds.  The witnesses run
  the handlers on the example platform.
\<close>

section \<open>Reading message 2 back\<close>

lemma cast_msg2_block:
  assumes "length g_b = 64" "length spid = 16" "length sig = 64" "length mac = 16"
  shows "cast_msg2 (msg2_block (msg2_maced g_b spid kid sig) mac n rl) =
    \<lparr>msg2_g_b = g_b, msg2_spid = spid, msg2_quote_type = SAMPLE_QUOTE_LINKABLE_SIGNATURE, msg2_kdf = kid,
     msg2_sign_gb_ga = sig, msg2_mac = mac, msg2_sig_rl_size = n, msg2_sig_rl = rl\<rparr>"
  using assms by (simp add: cast_msg2_def msg2_block_def msg2_maced_def le16.dec_enc le32.dec_enc)

lemma cmac_covers:
  assumes "length g_b = 64" "length spid = 16" "length sig = 64"
  shows "take 148 (drop 8 (msg2_block (msg2_maced g_b spid kid sig) mac n rl)) = msg2_maced g_b spid kid sig"
  using assms by (simp add: msg2_block_def msg2_maced_def)

section \<open>The example run\<close>

definition example_provider :: "example_world provider" where
  "example_provider = \<lparr>supplied_derivation = False, prov_groups = g_extended_epid_groups example_lib,
     prov_lib = example_lib, prov_sha = example_sha SAMPLE_SUCCESS\<rparr>"

definition example_msg1 :: sample_ra_msg1_t where
  "example_msg1 = \<lparr>msg1_g_a = replicate 64 1, msg1_gid = replicate 4 0\<rparr>"

definition example_sp :: "example_world sp_state" where
  "example_sp = (sp_init world0)\<lparr>g_is_sp_registered := True, g_sp_extended_epid_group_id := Some 0,
     g_spid := g_sim_spid\<rparr>"

lemma example_crypto_laws:
  "crypto_laws example_lib (example_sha SAMPLE_SUCCESS) example_cmac (\<lambda>w h. sha_data w) example_hash
     example_dh example_valid"
  by (simp add: crypto_laws_def example_sizes_law example_cmac_law example_sha_law example_dh_law
      example_sign_law)

lemma example_resource_laws: "resource_laws example_lib (example_sha SAMPLE_SUCCESS) live_blocks live_ctxs"
  by (simp add: resource_laws_def example_heap_law example_ecc_law example_sha_keeps example_sizes_law)

lemma example_sp_wf: "sp_wf (g_extended_epid_groups example_lib) example_sp"
  by (simp add: sp_wf_def example_sp_def sp_init_def g_extended_epid_groups_def)

lemma example_calls_succeed:
  "calls_succeed (g_extended_epid_groups example_lib) example_lib (example_sha SAMPLE_SUCCESS)"
  by (simp add: calls_succeed_def example_lib_def example_sha_def g_extended_epid_groups_def ias_get_sigrl_def)

section \<open>Message 1\<close>

lemma msg1_answered:
  assumes "crypto_laws L A C absorbed H D V" "resource_laws L A blocks ctxs" "servers_ok groups"
    and "sp_wf groups s" "length (msg1_g_a m) = 64"
    and "sp_ra_proc_msg1_req supplied groups L A (Some m) msize given s = (Inr (0, resp), s')"
  shows "\<exists>b. resp = Some (Some b) \<and> msg2_answers supplied C H D V (msg1_g_a m) s' b"
  using msg1_result [OF assms] by auto

text \<open>When no call fails, a registered provider answers.\<close>

lemma msg1_succeeds:
  assumes "crypto_laws L A C absorbed H D V" "resource_laws L A blocks ctxs" "servers_ok groups"
    and "sp_wf groups s" "length (msg1_g_a m) = 64" "calls_succeed groups L A" "g_is_sp_registered s"
    and "platform_law L"
  shows "\<exists>b s'. sp_ra_proc_msg1_req supplied groups L A (Some m) 68 True s = (Inr (0, Some (Some b)), s')"
proof (cases rule: body_outcome [OF assms(1,8,3,5,4,7), of supplied, case_names early answer])
  case (early ret fr)
  with unbrokenD [OF unbroken_body [OF assms(6)] early(1)] show ?thesis by simp
next
  case (answer fr b)
  with assms(7) show ?thesis by (simp add: sp_ra_proc_msg1_req_def msg1_finish_def Let_def)
qed

abbreviation example_msg1_call ::
  "bool \<Rightarrow> handler_result \<times> example_world sp_state" where
  "example_msg1_call supplied \<equiv> sp_ra_proc_msg1_req supplied (g_extended_epid_groups example_lib) example_lib
     (example_sha SAMPLE_SUCCESS) (Some example_msg1) 68 True example_sp"

lemma example_msg1_size: "length (msg1_g_a example_msg1) = 64"
  by (simp add: example_msg1_def)

lemma example_registered: "g_is_sp_registered example_sp"
  by (simp add: example_sp_def)

lemmas example_laws = example_crypto_laws example_resource_laws servers_ok_ias example_sp_wf example_msg1_size

lemma example_msg1_run: "\<exists>b s'. example_msg1_call supplied = (Inr (0, Some (Some b)), s')"
  by (rule msg1_succeeds [OF example_laws example_calls_succeed example_registered example_platform_law])

lemma resp_size_block:
  "resp_type (msg2_block maced mac n rl) = ra_msg_type_code TYPE_RA_MSG2"
  "resp_size (msg2_block maced mac n rl) = 168 + n"
  by (simp_all only: msg2_block_def resp_header_fields append_assoc)

text \<open>C9: A successful message 1 is answered by a message 2 the receiver reads back field by field: its type and
  32-bit size, the provider's fresh public key and SPID, the quote type, the key derivation id of the
  build, and a revocation list as long as the size field says.\<close>

theorem msg1_sends_msg2:
  assumes "crypto_laws L A C absorbed H D V" "resource_laws L A blocks ctxs" "servers_ok groups"
    and "sp_wf groups s" "length (msg1_g_a m) = 64"
    and "sp_ra_proc_msg1_req supplied groups L A (Some m) msize given s = (Inr (0, resp), s')"
  shows "\<exists>b. resp = Some (Some b) \<and> resp_type b = ra_msg_type_code TYPE_RA_MSG2 \<and>
    resp_size b = 168 + msg2_sig_rl_size (cast_msg2 b) \<and>
    length (msg2_sig_rl (cast_msg2 b)) = unat (msg2_sig_rl_size (cast_msg2 b)) \<and>
    msg2_g_b (cast_msg2 b) = db_g_b (g_sp_db s') \<and> msg2_spid (cast_msg2 b) = g_spid s' \<and>
    msg2_quote_type (cast_msg2 b) = SAMPLE_QUOTE_LINKABLE_SIGNATURE \<and>
    msg2_kdf (cast_msg2 b) = (if supplied then SP_ISV_KDF_ID else SAMPLE_AES_CMAC_KDF_ID)"
proof -
  obtain b where resp: "resp = Some (Some b)" and ans: "msg2_answers supplied C H D V (msg1_g_a m) s' b"
    using msg1_answered [OF assms] by blast
  have wf: "sp_wf groups s'"
    using msg1_result [OF assms] by auto
  from ans obtain sig n rl where len: "length sig = 64" "length rl = unat n" and
    mac: "length (C (smk_key (g_sp_db s')) (msg2_maced (db_g_b (g_sp_db s')) (g_spid s') (msg2_kdf_id supplied) sig)) = 16" and
    b: "b = msg2_block (msg2_maced (db_g_b (g_sp_db s')) (g_spid s') (msg2_kdf_id supplied) sig)
          (C (smk_key (g_sp_db s')) (msg2_maced (db_g_b (g_sp_db s')) (g_spid s') (msg2_kdf_id supplied) sig)) n rl"
    by (auto simp: msg2_answers_def Let_def)
  have "length (db_g_b (g_sp_db s')) = 64" "length (g_spid s') = 16" using wf by (simp_all add: sp_wf_def)
  note cast = cast_msg2_block [OF this len(1) mac]
  show ?thesis
    using resp len by (simp add: b cast resp_size_block flip: msg2_kdf_id_def)
qed

theorem msg1_sends_msg2_witness:
  "\<exists>b s'. example_msg1_call True = (Inr (0, Some (Some b)), s') \<and>
     resp_type b = 2 \<and> msg2_g_b (cast_msg2 b) = db_g_b (g_sp_db s') \<and> msg2_kdf (cast_msg2 b) = 2"
proof -
  obtain b s' where run: "example_msg1_call True = (Inr (0, Some (Some b)), s')"
    using example_msg1_run by blast
  from msg1_sends_msg2 [OF example_laws run] run show ?thesis by (auto simp: SP_ISV_KDF_ID_def)
qed

text \<open>What a receiver reads in an answer: the provider's key, its signature and its MAC.\<close>

lemma msg2_answers_cast:
  assumes ans: "msg2_answers supplied C H D V g_a s b" and wf: "sp_wf groups s"
  shows "msg2_g_b (cast_msg2 b) = db_g_b (g_sp_db s) \<and>
    V g_sp_priv_key (msg2_g_b (cast_msg2 b) @ g_a) (msg2_sign_gb_ga (cast_msg2 b)) \<and>
    msg2_mac (cast_msg2 b) = C (smk_key (g_sp_db s)) (take 148 (drop 8 b)) \<and>
    msg2_kdf (cast_msg2 b) = msg2_kdf_id supplied"
proof -
  from ans obtain sig n rl where len: "length sig = 64" and
    mac: "length (C (smk_key (g_sp_db s)) (msg2_maced (db_g_b (g_sp_db s)) (g_spid s) (msg2_kdf_id supplied) sig)) = 16" and
    b: "b = msg2_block (msg2_maced (db_g_b (g_sp_db s)) (g_spid s) (msg2_kdf_id supplied) sig)
          (C (smk_key (g_sp_db s)) (msg2_maced (db_g_b (g_sp_db s)) (g_spid s) (msg2_kdf_id supplied) sig)) n rl" and
    sig: "V g_sp_priv_key (db_g_b (g_sp_db s) @ g_a) sig"
    by (auto simp: msg2_answers_def Let_def)
  have "length (db_g_b (g_sp_db s)) = 64" "length (g_spid s) = 16" using wf by (simp_all add: sp_wf_def)
  note cast = cast_msg2_block [OF this len mac] and covers = cmac_covers [OF this len]
  show ?thesis using sig by (simp add: b cast covers)
qed

text \<open>C6: Message 2 is authentic: its signature field is the provider's ECDSA signature over both public keys of
  the exchange, \<open>g_b || g_a\<close>, and its MAC field is the CMAC under the session's SMK of the 148 bytes
  before it, the key derivation id included.\<close>

theorem msg1_msg2_authentic:
  assumes "crypto_laws L A C absorbed H D V" "resource_laws L A blocks ctxs" "servers_ok groups"
    and "sp_wf groups s" "length (msg1_g_a m) = 64"
    and "sp_ra_proc_msg1_req supplied groups L A (Some m) msize given s = (Inr (0, resp), s')"
  shows "\<exists>b. resp = Some (Some b) \<and>
    V g_sp_priv_key (msg2_g_b (cast_msg2 b) @ msg1_g_a m) (msg2_sign_gb_ga (cast_msg2 b)) \<and>
    msg2_mac (cast_msg2 b) = C (smk_key (g_sp_db s')) (take 148 (drop 8 b))"
proof -
  obtain b where resp: "resp = Some (Some b)" and ans: "msg2_answers supplied C H D V (msg1_g_a m) s' b"
    using msg1_answered [OF assms] by blast
  have "sp_wf groups s'"
    using msg1_result [OF assms] by auto
  from resp msg2_answers_cast [OF ans this] show ?thesis by blast
qed

theorem msg1_msg2_authentic_witness:
  "\<exists>b s'. example_msg1_call False = (Inr (0, Some (Some b)), s') \<and>
     example_valid g_sp_priv_key (msg2_g_b (cast_msg2 b) @ replicate 64 1) (msg2_sign_gb_ga (cast_msg2 b)) \<and>
     msg2_mac (cast_msg2 b) = example_cmac (smk_key (g_sp_db s')) (take 148 (drop 8 b))"
proof -
  obtain b s' where run: "example_msg1_call False = (Inr (0, Some (Some b)), s')"
    using example_msg1_run by blast
  from msg1_msg2_authentic [OF example_laws run] run show ?thesis by (auto simp: example_msg1_def)
qed

text \<open>C7: After a successful message 1 the globals hold the session: the enclave's public key and the four keys
  derived from the secret shared with it, each under its own label, by the derivation of the build.\<close>

theorem msg1_session_keys:
  assumes "crypto_laws L A C absorbed H D V" "resource_laws L A blocks ctxs" "servers_ok groups"
    and "sp_wf groups s" "length (msg1_g_a m) = 64"
    and "sp_ra_proc_msg1_req supplied groups L A (Some m) msize given s = (Inr (0, resp), s')"
  shows "db_g_a (g_sp_db s') = msg1_g_a m \<and>
    session_keys supplied C H (D (db_b (g_sp_db s')) (msg1_g_a m)) (g_sp_db s')"
  using msg1_answered [OF assms] by (auto simp: msg2_answers_def)

theorem msg1_session_keys_witness:
  "\<exists>b s'. example_msg1_call True = (Inr (0, Some (Some b)), s') \<and>
     session_keys True example_cmac example_hash (example_dh (db_b (g_sp_db s')) (replicate 64 1)) (g_sp_db s')"
proof -
  obtain b s' where run: "example_msg1_call True = (Inr (0, Some (Some b)), s')"
    using example_msg1_run by blast
  from msg1_session_keys [OF example_laws run] run show ?thesis by (auto simp: example_msg1_def)
qed

text \<open>
  C8: Message 1 is safe and balanced up to what ISO C leaves to the platform: its only undefined
  accesses are the misaligned store of the key length for the SMK, in the default derivation, and
  the copy of no bytes from a null revocation list, each only where the platform does not define it;
  a success has made the first.  On every other path the globals stay well formed, every ECC context
  is closed again, the response pointer is a block exactly when the code is 0, and no other heap
  block outlives the call.
\<close>

theorem msg1_safe:
  assumes "crypto_laws L A C absorbed H D V" "resource_laws L A blocks ctxs" "servers_ok groups"
    and "sp_wf groups s" "length (msg1_g_a m) = 64"
  shows "case sp_ra_proc_msg1_req supplied groups L A (Some m) msize given s of
      (Inl Undefined, s') \<Rightarrow> (\<not> supplied \<and> \<not> misaligned_store L) \<or> \<not> null_memcpy L
    | (Inr (ret, resp), s') \<Rightarrow>
        (ret = 0 \<longrightarrow> supplied \<or> misaligned_store L) \<and>
        sp_wf groups s' \<and> ctxs (sp_world s') = ctxs (sp_world s) \<and>
        (ret = 0 \<longleftrightarrow> (\<exists>b. resp = Some (Some b))) \<and>
        blocks (sp_world s') = blocks (sp_world s) + (if ret = 0 then 1 else 0)"
proof (cases "sp_ra_proc_msg1_req supplied groups L A (Some m) msize given s")
  case (Pair r s')
  show ?thesis
  proof (cases r)
    case (Inl e)
    have "\<exists>x s'. sp_ra_proc_msg1_req supplied groups (defining L) A (Some m) msize given s = (Inr x, s')"
      using msg1_outcome [of "defining L" A C absorbed H D V blocks ctxs groups s m supplied msize given] assms by auto
    with Pair Inl have "\<not> (supplied \<or> misaligned_store L) \<or> \<not> null_memcpy L"
      using msg1_same_when_defined [of supplied L groups A "Some m" msize given s] by auto
    with Pair Inl show ?thesis by (cases e) auto
  next
    case (Inr x)
    obtain ret resp where x: "x = (ret, resp)" by (cases x)
    with Pair Inr have run: "sp_ra_proc_msg1_req supplied groups L A (Some m) msize given s = (Inr (ret, resp), s')"
      by simp
    from msg1_result [OF assms run] msg1_needs_platform(1) [OF assms(1,3,4,5), of supplied msize given resp s'] run
    show ?thesis by (auto split: if_splits)
  qed
qed

theorem msg1_safe_witness:
  "\<exists>ret resp s'. example_msg1_call False = (Inr (ret, resp), s') \<and>
     live_ctxs (sp_world s') = 0 \<and> live_blocks (sp_world s') = (if ret = 0 then 1 else 0)"
proof -
  obtain b s' where run: "example_msg1_call False = (Inr (0, Some (Some b)), s')"
    using example_msg1_run by blast
  from msg1_safe [OF example_laws, of False 68 True] run show ?thesis
    by (auto simp: example_sp_def sp_init_def world0_def)
qed

text \<open>
  In ISO C alone, without what the platform adds, message 1 to the simulated server never succeeds:
  when no call fails and the provider is registered it ends in undefined behaviour, in both derivations.
\<close>

lemma msg1_iso_c:
  assumes "calls_succeed (g_extended_epid_groups L) L A" "g_is_sp_registered s" "\<not> null_memcpy L"
  shows "fst (sp_ra_proc_msg1_req supplied (g_extended_epid_groups L) L A (Some m) 68 True s) = Inl Undefined"
proof -
  let ?run = "sp_ra_proc_msg1_req supplied (g_extended_epid_groups L) L A (Some m) 68 True s"
  let ?body = "msg1_body supplied (g_extended_epid_groups L) L A m (msg1_start s)"
  have run: "?run = msg1_finish L ?body" using assms(2) by (simp add: sp_ra_proc_msg1_req_def)
  obtain r fr where body: "?body = (r, fr)" by (metis prod.exhaust)
  show ?thesis
  proof (cases r)
    case (Inl e)
    with unbrokenD [OF unbroken_body [OF assms(1)]] body have "e = Fault" by blast
    with run body Inl show ?thesis by (simp add: msg1_finish_def)
  next
    case (Inr x)
    with body body_needs_platform(2) [of supplied "g_extended_epid_groups L" L A m "msg1_start s" fr L] assms(3)
    show ?thesis by simp
  qed
qed

text \<open>Message 1 refuses bad requests before it touches anything: a null message, a null response pointer or a
  wrong size gives -1, and before registration \<open>SP_UNSUPPORTED_EXTENDED_EPID_GROUP\<close>; state and
  response pointer are left as they were.\<close>

lemma msg1_refuses:
  assumes "p_msg1 = None \<or> \<not> given \<or> msize \<noteq> 68 \<or> \<not> g_is_sp_registered s"
  shows "sp_ra_proc_msg1_req supplied groups L A p_msg1 msize given s =
    (Inr (if p_msg1 = None \<or> \<not> given \<or> msize \<noteq> 68 then -1 else sp_code SP_UNSUPPORTED_EXTENDED_EPID_GROUP,
          None), s)"
  using assms by (auto simp: sp_ra_proc_msg1_req_def split: option.split)

section \<open>Message 0\<close>

lemma msg0_register_first:
  "msg0_register (g_extended_epid_groups L) 0 0 s =
     (if length (g_spid s) = 16
      then (Inr 0, s\<lparr>g_sp_extended_epid_group_id := Some 0, g_spid := g_sim_spid, g_is_sp_registered := True\<rparr>)
      else msg0_register (g_extended_epid_groups L) 0 0 s)"
  by (simp add: g_extended_epid_groups_def ias_enroll_def memcpy_s_whole Let_def)

lemma msg0_register_unknown:
  "gid \<notin> group_id ` set gs \<Longrightarrow>
   msg0_register gs i gid s = (Inr (sp_code SP_UNSUPPORTED_EXTENDED_EPID_GROUP), s)"
  by (induction gs arbitrary: i) auto

lemma msg0_registered:
  assumes "sp_wf (g_extended_epid_groups L) s" "\<not> g_is_sp_registered s"
  shows "sp_ra_proc_msg0_req (g_extended_epid_groups L) L (Some \<lparr>extended_epid_group_id = 0\<rparr>) 4 True s =
    (case malloc L 272 (sp_world s) of (got, w) \<Rightarrow>
      (Inr (if got then 0 else 5,
            Some (if got then Some (resp_header TYPE_RA_MSG0 264 @ g_ecdsa_p256_att_key_id_list) else None)),
       s\<lparr>g_sp_extended_epid_group_id := Some 0, g_spid := g_sim_spid, g_is_sp_registered := True, sp_world := w\<rparr>))"
proof -
  have "length (g_spid s) = 16" using assms(1) by (simp add: sp_wf_def)
  with assms(2) msg0_register_first [of L s] show ?thesis
    by (simp add: sp_ra_proc_msg0_req_def msg0_must_register_def msg0_respond_eq msg0_block_def split: prod.split)
qed

text \<open>C15: Message 0 for the group of the simulated server registers the provider: the table entry is selected, the
  SPID is the server's, and the response, when memory allows, lists the supported attestation key ids.\<close>

theorem msg0_registers:
  assumes "sp_wf (g_extended_epid_groups L) s" "\<not> g_is_sp_registered s"
  shows "sp_ra_proc_msg0_req (g_extended_epid_groups L) L (Some \<lparr>extended_epid_group_id = 0\<rparr>) 4 True s =
    (case malloc L 272 (sp_world s) of (got, w) \<Rightarrow>
      (Inr (if got then 0 else 5,
            Some (if got then Some (resp_header TYPE_RA_MSG0 264 @ g_ecdsa_p256_att_key_id_list) else None)),
       s\<lparr>g_sp_extended_epid_group_id := Some 0, g_spid := g_sim_spid, g_is_sp_registered := True, sp_world := w\<rparr>))"
  using assms by (rule msg0_registered)

theorem msg0_registers_witness:
  "\<exists>s'. sp_ra_proc_msg0_req (g_extended_epid_groups example_lib) example_lib
      (Some \<lparr>extended_epid_group_id = 0\<rparr>) 4 True (sp_init world0) =
      (Inr (0, Some (Some (resp_header TYPE_RA_MSG0 264 @ g_ecdsa_p256_att_key_id_list))), s') \<and>
    g_is_sp_registered s' \<and> g_spid s' = g_sim_spid"
  using msg0_registers [OF sp_wf_init, of world0 example_lib]
  by (simp add: sp_init_def example_lib_def)

text \<open>C16: A group the table does not list is not refused: message 0 still returns \<open>SP_OK\<close> with the key ids when
  memory allows, since the code's status is overwritten; only the registration does not happen.\<close>

theorem msg0_unsupported_group_ok:
  assumes "extended_epid_group_id m \<notin> group_id ` set groups"
  shows "sp_ra_proc_msg0_req groups L (Some m) 4 True s =
    (case malloc L 272 (sp_world s) of (got, w) \<Rightarrow>
      (Inr (if got then sp_code SP_OK else sp_code SP_INTERNAL_ERROR,
            Some (if got then Some (resp_header TYPE_RA_MSG0 264 @ g_ecdsa_p256_att_key_id_list) else None)),
       s\<lparr>sp_world := w\<rparr>))"
  using msg0_register_unknown [OF assms, of 0 s]
  by (simp add: sp_ra_proc_msg0_req_def msg0_respond_eq msg0_block_def split: prod.split)

theorem msg0_unsupported_group_ok_witness:
  "fst (sp_ra_proc_msg0_req (g_extended_epid_groups example_lib) example_lib
      (Some \<lparr>extended_epid_group_id = 7\<rparr>) 4 True (sp_init world0)) =
     Inr (0, Some (Some (resp_header TYPE_RA_MSG0 264 @ g_ecdsa_p256_att_key_id_list)))"
proof -
  have unknown: "extended_epid_group_id \<lparr>extended_epid_group_id = 7\<rparr> \<notin> group_id ` set (g_extended_epid_groups example_lib)"
    by (simp add: g_extended_epid_groups_def)
  show ?thesis
    unfolding msg0_unsupported_group_ok [OF unknown] by (simp add: example_lib_def)
qed

end
