(* ===== verification/Msg_Layouts.thy ===== *)
theory Msg_Layouts
  imports Layouts Sp_Properties
begin

text \<open>
  The exchange of messages 1 and 2 read through the structure declarations of the headers: the
  bytes the handler is given are a \<open>sample_ra_msg1_t\<close>, and the block it answers with is, member by
  member, a \<open>ra_samp_response_header_t\<close> in front of a \<open>sample_ra_msg2_t\<close>.
\<close>

section \<open>Members of message 2\<close>

lemma response_members:
  "offset_of ra_samp_response_header_layout ''type'' = 0" "fst (field_type ra_samp_response_header_layout ''type'') = 1"
  "offset_of ra_samp_response_header_layout ''status'' = 1" "fst (field_type ra_samp_response_header_layout ''status'') = 2"
  "offset_of ra_samp_response_header_layout ''size'' = 3" "fst (field_type ra_samp_response_header_layout ''size'') = 4"
  "offset_of ra_samp_response_header_layout ''align'' = 7" "fst (field_type ra_samp_response_header_layout ''align'') = 1"
  "offset_of ra_samp_response_header_layout ''body'' = 8"
  by code_simp+

lemma sizeof_messages:
  "sizeof ra_samp_response_header_layout = 8" "sizeof sample_ra_msg1_layout = 68" "sizeof sample_ra_msg2_layout = 168"
  by (simp_all add: layout_defs ctype_defs)

lemma response_read:
  "read_field ra_samp_response_header_layout ''type'' (resp_header ty n @ body) = Some [ra_msg_type_code ty]"
  "read_field ra_samp_response_header_layout ''status'' (resp_header ty n @ body) = Some [0, 0]"
  "read_field ra_samp_response_header_layout ''size'' (resp_header ty n @ body) = Some (le32 n)"
  "read_field ra_samp_response_header_layout ''align'' (resp_header ty n @ body) = Some [0]"
  by (simp_all add: read_field_def load_def response_members resp_header_def)

lemma msg2_read:
  assumes "length g_b = 64" "length spid = 16" "length sig = 64" "length mac = 16"
    and "body = msg2_maced g_b spid kid sig @ mac @ le32 n @ rl"
  shows "read_field sample_ra_msg2_layout ''g_b'' body = Some g_b"
    "read_field sample_ra_msg2_layout ''spid'' body = Some spid"
    "read_field sample_ra_msg2_layout ''quote_type'' body = Some (le16 SAMPLE_QUOTE_LINKABLE_SIGNATURE)"
    "read_field sample_ra_msg2_layout ''kdf_id'' body = Some (le16 kid)"
    "read_field sample_ra_msg2_layout ''sign_gb_ga'' body = Some sig"
    "read_field sample_ra_msg2_layout ''mac'' body = Some mac"
    "read_field sample_ra_msg2_layout ''sig_rl_size'' body = Some (le32 n)"
    "take (offset_of sample_ra_msg2_layout ''mac'') body = msg2_maced g_b spid kid sig"
    "length body = 168 + length rl"
  using assms by (simp_all add: read_field_def load_def msg2_offsets msg2_types msg2_maced_def)

section \<open>The exchange\<close>

text \<open>
  C18: Messages 1 and 2 have the types the headers declare.  The handler accepts only a message as
  long as a \<open>sample_ra_msg1_t\<close>, and the session's \<open>g_a\<close> is its member \<open>g_a\<close>.  Its answer is a packed
  \<open>ra_samp_response_header_t\<close> with type, status, size and padding filled in, followed by a
  \<open>sample_ra_msg2_t\<close> whose every member has the provider's value at the offset the declaration gives:
  public key, SPID, quote type, key derivation id, signature, the MAC over the members in front of
  it, and the size of the revocation list, which ends the block.
\<close>

theorem msg2_typed:
  assumes laws: "crypto_laws L A C absorbed H D V" "resource_laws L A blocks ctxs" "servers_ok groups" "sp_wf groups s"
    and raw: "length raw = sizeof sample_ra_msg1_layout"
    and run: "sp_ra_proc_msg1_req supplied groups L A (Some (cast_msg1 raw)) msize given s = (Inr (0, resp), s')"
  shows "unat msize = sizeof sample_ra_msg1_layout \<and>
    read_field sample_ra_msg1_layout ''g_a'' raw = Some (db_g_a (g_sp_db s')) \<and>
    (\<exists>b body sig n. resp = Some (Some b) \<and>
      read_field ra_samp_response_header_layout ''type'' b = Some [ra_msg_type_code TYPE_RA_MSG2] \<and>
      read_field ra_samp_response_header_layout ''status'' b = Some [0, 0] \<and>
      read_field ra_samp_response_header_layout ''size'' b = Some (le32 (of_nat (length body))) \<and>
      read_field ra_samp_response_header_layout ''align'' b = Some [0] \<and>
      body = drop (offset_of ra_samp_response_header_layout ''body'') b \<and>
      length b = sizeof ra_samp_response_header_layout + sizeof sample_ra_msg2_layout + unat n \<and>
      read_field sample_ra_msg2_layout ''g_b'' body = Some (db_g_b (g_sp_db s')) \<and>
      read_field sample_ra_msg2_layout ''spid'' body = Some (g_spid s') \<and>
      read_field sample_ra_msg2_layout ''quote_type'' body = Some (le16 SAMPLE_QUOTE_LINKABLE_SIGNATURE) \<and>
      read_field sample_ra_msg2_layout ''kdf_id'' body =
        Some (le16 (if supplied then SP_ISV_KDF_ID else SAMPLE_AES_CMAC_KDF_ID)) \<and>
      read_field sample_ra_msg2_layout ''sign_gb_ga'' body = Some sig \<and>
      V g_sp_priv_key (db_g_b (g_sp_db s') @ db_g_a (g_sp_db s')) sig \<and>
      read_field sample_ra_msg2_layout ''mac'' body =
        Some (C (smk_key (g_sp_db s')) (take (offset_of sample_ra_msg2_layout ''mac'') body)) \<and>
      read_field sample_ra_msg2_layout ''sig_rl_size'' body = Some (le32 n) \<and>
      length body = offset_of sample_ra_msg2_layout ''sig_rl'' + unat n)"
    (is "?size \<and> ?given \<and> ?answer")
proof (intro conjI)
  let ?m = "cast_msg1 raw"
  have g_a: "length (msg1_g_a ?m) = 64" using raw by (simp add: cast_msg1_def sizeof_messages)
  have "msize = 68"
  proof (rule ccontr)
    assume "msize \<noteq> 68"
    with run msg1_refuses [of "Some ?m" given msize s supplied groups L A] show False by simp
  qed
  then show ?size by (simp add: sizeof_messages)
  obtain b where resp: "resp = Some (Some b)" and ans: "msg2_answers supplied C H D V (msg1_g_a ?m) s' b"
    using msg1_answered [OF laws g_a run] by blast
  have db: "db_g_a (g_sp_db s') = msg1_g_a ?m" using ans by (simp add: msg2_answers_def)
  show ?given using cast_msg1_members(1) [of raw] raw by (simp add: db sizeof_messages)
  have "sp_wf groups s'" using msg1_result [OF laws g_a run] by auto
  then have len: "length (db_g_b (g_sp_db s')) = 64" "length (g_spid s') = 16" by (simp_all add: sp_wf_def)
  let ?maced = "\<lambda>sig. msg2_maced (db_g_b (g_sp_db s')) (g_spid s') (msg2_kdf_id supplied) sig"
  let ?mac = "\<lambda>sig. C (smk_key (g_sp_db s')) (?maced sig)"
  from ans obtain sig n rl where sig: "length sig = 64" "V g_sp_priv_key (db_g_b (g_sp_db s') @ msg1_g_a ?m) sig" and
    rl: "length rl = unat n" and mac: "length (?mac sig) = 16" and b: "b = msg2_block (?maced sig) (?mac sig) n rl"
    by (auto simp: msg2_answers_def Let_def)
  define body where "body = ?maced sig @ ?mac sig @ le32 n @ rl"
  have block: "b = resp_header TYPE_RA_MSG2 (168 + n) @ body" by (simp add: b msg2_block_def body_def)
  note members = msg2_read [OF len sig(1) mac body_def]
  have size: "of_nat (length body) = 168 + n" by (simp add: members(9) rl)
  show ?answer
    by (rule exI [of _ b], rule exI [of _ body], rule exI [of _ sig], rule exI [of _ n], intro conjI)
      (simp_all add: size resp sig(2) rl block response_read response_members sizeof_messages members
        members(8) [unfolded msg2_offsets] db msg2_offsets
        flip: msg2_kdf_id_def)
qed

theorem msg2_typed_witness:
  "\<exists>b s' sig. sp_ra_proc_msg1_req False (g_extended_epid_groups example_lib) example_lib
      (example_sha SAMPLE_SUCCESS) (Some (cast_msg1 (replicate 64 1 @ replicate 4 0))) 68 True example_sp =
      (Inr (0, Some (Some b)), s') \<and>
    read_field ra_samp_response_header_layout ''type'' b = Some [2] \<and>
    read_field sample_ra_msg2_layout ''kdf_id'' (drop 8 b) = Some [1, 0] \<and>
    read_field sample_ra_msg2_layout ''sign_gb_ga'' (drop 8 b) = Some sig \<and>
    example_valid g_sp_priv_key (db_g_b (g_sp_db s') @ replicate 64 1) sig"
proof -
  let ?raw = "replicate 64 1 @ replicate 4 0 :: byte list"
  have m: "cast_msg1 ?raw = example_msg1" by (simp add: cast_msg1_def example_msg1_def)
  have size: "length ?raw = sizeof sample_ra_msg1_layout" by (simp add: sizeof_messages)
  obtain b s' where run: "example_msg1_call False = (Inr (0, Some (Some b)), s')"
    using example_msg1_run by blast
  note typed = msg2_typed [OF example_laws(1-4) size, unfolded m, OF run]
  have g_a: "db_g_a (g_sp_db s') = replicate 64 1"
    using typed cast_msg1_members(1) [of ?raw] by (simp add: cast_msg1_def sizeof_messages)
  have "le16 SAMPLE_AES_CMAC_KDF_ID = [1, 0]" by code_simp
  with typed run g_a show ?thesis by (auto simp: m response_members)
qed

end
