(* ===== verification/Network_Ra.thy ===== *)
theory Network_Ra
  imports Sp_Properties
begin

text \<open>
  \<open>service_provider/network_ra.cpp\<close>: the simulated network.  A request is dispatched on its
  type byte to a handler of the service provider; the response pointer the handler leaves in an
  uninitialised local is stored through \<open>p_resp\<close> only when the handler returned 0.  The client
  lemmas are proved once in \<open>request_handler\<close>; \<open>net_step\<close> is the provider under any sequence
  of requests and releases of responses.
\<close>

section \<open>Dispatch\<close>

text \<open>
  What the caller sees: the code and what was stored through \<open>p_resp\<close> (\<open>None\<close>: nothing).
  Reading the local \<open>p_resp_msg\<close> when the handler did not set it is undefined.
\<close>

definition deliver :: "handler_result \<Rightarrow> handler_result" where
  "deliver r =
     (case r of
        Inl u \<Rightarrow> Inl u
      | Inr (ret, p_resp_msg) \<Rightarrow>
          if ret \<noteq> 0 then Inr (ret, None)
          else (case p_resp_msg of None \<Rightarrow> Inl Undefined | Some p \<Rightarrow> Inr (ret, Some p)))"

text \<open>
  The handler casts the body and reads it when the size field is the size of its message; a body
  shorter than that is read past its end.
\<close>

definition body_readable :: "nat \<Rightarrow> ra_samp_request_header_t \<Rightarrow> bool" where
  "body_readable n p_req \<longleftrightarrow> (req_size p_req = of_nat n \<longrightarrow> n \<le> length (req_body p_req))"

definition ra_network_send_receive ::
  "'w provider \<Rightarrow> bool \<Rightarrow> ra_samp_request_header_t option \<Rightarrow> bool \<Rightarrow> 'w sp_state \<Rightarrow>
   handler_result \<times> 'w sp_state" where
  "ra_network_send_receive p url_given p_req p_resp_given s =
     (case p_req of
        None \<Rightarrow> (Inr (-1, None), s)
      | Some r \<Rightarrow>
          if \<not> url_given \<or> \<not> p_resp_given then (Inr (-1, None), s)
          else if req_type r = ra_msg_type_code TYPE_RA_MSG0 then
            (if \<not> body_readable sizeof_msg0 r then (Inl Undefined, s)
             else (case serve_msg0 p (Some (cast_msg0 (req_body r))) (req_size r) True s of
                     (res, s') \<Rightarrow> (deliver res, s')))
          else if req_type r = ra_msg_type_code TYPE_RA_MSG1 then
            (if \<not> body_readable sizeof_msg1 r then (Inl Undefined, s)
             else (case serve_msg1 p (Some (cast_msg1 (req_body r))) (req_size r) True s of
                     (res, s') \<Rightarrow> (deliver res, s')))
          else (Inr (-1, None), s))"

definition ra_free_network_response_buffer ::
  "'w provider \<Rightarrow> byte list option \<Rightarrow> 'w sp_state \<Rightarrow> 'w sp_state" where
  "ra_free_network_response_buffer p resp s =
     (if resp \<noteq> None then s\<lparr>sp_world := free_block (prov_lib p) (sp_world s)\<rparr> else s)"

section \<open>What a client of a handler gets\<close>

context request_handler begin

lemma delivered:
  assumes "inv p s" "pred_option good pm"
  shows "\<exists>ret resp s'. (case serve p pm msize given s of (res, s') \<Rightarrow> (deliver res, s')) = (Inr (ret, resp), s') \<and>
    inv p s' \<and> (if ret = 0 then (\<exists>b. resp = Some (Some b) \<and> sized_response b) \<and> held s' = Suc (held s)
      else resp = None \<and> held s' = held s)"
proof -
  obtain ret resp s' where "serve p pm msize given s = (Inr (ret, resp), s')" "inv p s'"
    "if ret = 0 then (\<exists>b. resp = Some (Some b) \<and> sized_response b) \<and> held s' = Suc (held s)
     else resp \<in> {None, Some None} \<and> held s' = held s"
    using answers [OF assms] by blast
  then show ?thesis by (cases "ret = 0") (auto simp: deliver_def)
qed

end

definition wf_request :: "ra_samp_request_header_t \<Rightarrow> bool" where
  "wf_request r \<longleftrightarrow> unat (req_size r) \<le> length (req_body r)"

lemma wf_request_readable:
  assumes "wf_request r" "n < 2 ^ 32"
  shows "body_readable n r"
  using assms by (auto simp: wf_request_def body_readable_def unat_of_nat)

text \<open>Outside its two accepted sizes a cast message is never read; inside it is long enough.\<close>

lemma serve_msg1_short:
  "msize \<noteq> 68 \<Longrightarrow> serve_msg1 p (Some m) msize given s = (Inr (-1, None), s)"
  by (simp add: serve_msg1_def sp_ra_proc_msg1_req_def)

lemma send_receive_outcome:
  assumes inv: "provider_inv blocks ctxs p s" and wf: "pred_option wf_request p_req"
  shows "\<exists>ret resp s'. ra_network_send_receive p url_given p_req p_resp_given s = (Inr (ret, resp), s') \<and>
    provider_inv blocks ctxs p s' \<and>
    (if ret = 0 then (\<exists>b. resp = Some (Some b) \<and> sized_response b) \<and> blocks (sp_world s') = Suc (blocks (sp_world s))
     else resp = None \<and> blocks (sp_world s') = blocks (sp_world s))"
proof (cases "\<exists>r. p_req = Some r \<and> url_given \<and> p_resp_given \<and> req_type r \<in> {0, 1}")
  case False
  then have "ra_network_send_receive p url_given p_req p_resp_given s = (Inr (-1, None), s)"
    by (auto simp: ra_network_send_receive_def split: option.split)
  with inv show ?thesis by simp
next
  case True
  then obtain r where r: "p_req = Some r" "url_given" "p_resp_given" "req_type r \<in> {0, 1}" by blast
  with wf have read: "body_readable 4 r" "body_readable 68 r" by (simp_all add: wf_request_readable)
  show ?thesis
  proof (cases "req_type r = 0")
    case True
    with r read msg0.delivered [OF inv, of "Some (cast_msg0 (req_body r))" "req_size r" True]
    show ?thesis by (simp add: ra_network_send_receive_def)
  next
    case nonzero: False
    show ?thesis
    proof (cases "req_size r = 68")
      case True
      then have "pred_option good_msg1 (Some (cast_msg1 (req_body r)))"
        using read(2) by (simp add: body_readable_def good_msg1_def cast_msg1_def)
      from msg1.delivered [OF inv this, of "req_size r" True] r read nonzero
      show ?thesis by (simp add: ra_network_send_receive_def)
    next
      case False
      with r read nonzero inv show ?thesis
        by (simp add: ra_network_send_receive_def serve_msg1_short deliver_def)
    qed
  qed
qed

section \<open>Any sequence of requests\<close>

text \<open>
  The provider and the number of responses the application still owns: a request is sent, or a
  response is released through \<open>ra_free_network_response_buffer\<close>.
\<close>

inductive net_step :: "'w provider \<Rightarrow> 'w sp_state \<times> nat \<Rightarrow> 'w sp_state \<times> nat \<Rightarrow> bool" for p where
  send: "wf_request r \<Longrightarrow> ra_network_send_receive p True (Some r) True s = (Inr (ret, resp), s') \<Longrightarrow>
    net_step p (s, n) (s', if ret = 0 then Suc n else n)"
| release: "net_step p (s, Suc n) (ra_free_network_response_buffer p (Some b) s, n)"

inductive_cases net_step_cases: "net_step p (s, n) (s', n')"

definition net_inv :: "('w \<Rightarrow> nat) \<Rightarrow> ('w \<Rightarrow> nat) \<Rightarrow> 'w provider \<Rightarrow> nat \<Rightarrow> 'w sp_state \<times> nat \<Rightarrow> bool" where
  "net_inv blocks ctxs p b0 = (\<lambda>(s, n). provider_inv blocks ctxs p s \<and> blocks (sp_world s) = b0 + n)"

lemma provider_inv_world:
  "provider_inv blocks ctxs p (s\<lparr>sp_world := w\<rparr>) \<longleftrightarrow> provider_inv blocks ctxs p s"
  by (simp add: provider_inv_def)

lemma net_step_inv:
  assumes "net_step p x y" "net_inv blocks ctxs p b0 x"
  shows "net_inv blocks ctxs p b0 y"
  using assms
proof (induction rule: net_step.induct)
  case (send r s ret resp s' n)
  with send_receive_outcome [of blocks ctxs p s "Some r" True True] show ?case
    by (auto simp: net_inv_def split: if_splits)
next
  case (release s n b)
  then have "heap_law (prov_lib p) blocks"
    by (auto simp: net_inv_def provider_inv_def resource_laws_def)
  with release show ?case
    by (auto simp: net_inv_def ra_free_network_response_buffer_def provider_inv_world heap_free)
qed

lemma net_reachable_inv:
  "(net_step p)\<^sup>*\<^sup>* x y \<Longrightarrow> net_inv blocks ctxs p b0 x \<Longrightarrow> net_inv blocks ctxs p b0 y"
  by (induction rule: rtranclp_induct) (auto intro: net_step_inv)

definition provider_ok :: "('w \<Rightarrow> nat) \<Rightarrow> ('w \<Rightarrow> nat) \<Rightarrow> 'w provider \<Rightarrow> bool" where
  "provider_ok blocks ctxs p \<longleftrightarrow>
     (\<exists>C absorbed H D V. crypto_laws (prov_lib p) (prov_sha p) C absorbed H D V) \<and> platform_law (prov_lib p) \<and>
     resource_laws (prov_lib p) (prov_sha p) blocks ctxs \<and> servers_ok (prov_groups p)"

lemma provider_inv_init: "provider_ok blocks ctxs p \<Longrightarrow> provider_inv blocks ctxs p (sp_init w)"
  by (simp add: provider_ok_def provider_inv_def sp_wf_init)

lemma example_provider_ok: "provider_ok live_blocks live_ctxs example_provider"
  unfolding provider_ok_def example_provider_def
  using example_crypto_laws example_platform_law example_resource_laws servers_ok_ias by (simp, blast)

text \<open>C12: One request through the network is never undefined behaviour: the uninitialised response pointer is
  copied out only after a handler has set it, so code 0 comes with a block and any other code leaves the
  caller's pointer alone.\<close>

theorem send_receive_safe:
  assumes "provider_inv blocks ctxs p s" "pred_option wf_request p_req"
  shows "\<exists>ret resp s'. ra_network_send_receive p url_given p_req p_resp_given s = (Inr (ret, resp), s') \<and>
    provider_inv blocks ctxs p s' \<and> resp \<noteq> Some None \<and> (ret = 0 \<longleftrightarrow> resp \<noteq> None)"
proof -
  obtain ret resp s' where "ra_network_send_receive p url_given p_req p_resp_given s = (Inr (ret, resp), s')"
    "provider_inv blocks ctxs p s'"
    "if ret = 0 then (\<exists>b. resp = Some (Some b) \<and> sized_response b) \<and> blocks (sp_world s') = Suc (blocks (sp_world s))
     else resp = None \<and> blocks (sp_world s') = blocks (sp_world s)"
    using send_receive_outcome [OF assms] by blast
  then show ?thesis by (cases "ret = 0") auto
qed

theorem send_receive_safe_witness:
  "\<exists>ret resp s'. ra_network_send_receive example_provider True
      (Some \<lparr>req_type = 1, req_size = 68, req_align = [0, 0, 0], req_body = replicate 68 2\<rparr>) True (sp_init world0) =
      (Inr (ret, resp), s') \<and> (ret = 0 \<longleftrightarrow> resp \<noteq> None)"
  using send_receive_safe [OF provider_inv_init [OF example_provider_ok],
      of "Some \<lparr>req_type = 1, req_size = 68, req_align = [0, 0, 0], req_body = replicate 68 2\<rparr>" True True]
  by (fastforce simp: wf_request_def)

text \<open>C11: Whatever requests arrive in whatever order, interleaved with releases of responses, the globals stay
  well formed, a registered provider keeps a selected group, and the live heap blocks are exactly the
  responses the application has not released.\<close>

theorem net_run_balanced:
  assumes "provider_ok blocks ctxs p" "(net_step p)\<^sup>*\<^sup>* (sp_init w, 0) (s, n)"
  shows "sp_wf (prov_groups p) s \<and> blocks (sp_world s) = blocks w + n"
proof -
  have "net_inv blocks ctxs p (blocks w) (sp_init w, 0)"
    using provider_inv_init [OF assms(1)] by (simp add: net_inv_def) (simp add: sp_init_def)
  from net_reachable_inv [OF assms(2) this] show ?thesis
    by (simp add: net_inv_def provider_inv_def)
qed

lemma example_msg0_sent:
  "net_step example_provider (sp_init world0, 0)
     ((sp_init world0)\<lparr>g_sp_extended_epid_group_id := Some 0, g_spid := g_sim_spid,
        g_is_sp_registered := True, sp_world := world0\<lparr>live_blocks := 1\<rparr>\<rparr>, 1)"
proof -
  let ?r = "\<lparr>req_type = 0, req_size = 4, req_align = [0, 0, 0], req_body = [0, 0, 0, 0]\<rparr>"
  have body: "body_readable 4 ?r" "wf_request ?r" "cast_msg0 (req_body ?r) = \<lparr>extended_epid_group_id = 0\<rparr>"
    by (simp_all add: body_readable_def wf_request_def cast_msg0_def of_le32_def)
  have "length (g_spid (sp_init world0)) = 16" "\<not> g_is_sp_registered (sp_init world0)"
    by (simp_all add: sp_init_def)
  with msg0_register_first [of example_lib "sp_init world0"]
  have "ra_network_send_receive example_provider True (Some ?r) True (sp_init world0) =
      (Inr (0, Some (Some msg0_block)), (sp_init world0)\<lparr>g_sp_extended_epid_group_id := Some 0,
        g_spid := g_sim_spid, g_is_sp_registered := True, sp_world := world0\<lparr>live_blocks := 1\<rparr>\<rparr>)"
    using body by (simp add: ra_network_send_receive_def serve_msg0_def sp_ra_proc_msg0_req_def
        msg0_must_register_def msg0_respond_eq example_provider_def deliver_def)
      (simp add: example_lib_def sp_init_def world0_def)
  from net_step.send [OF body(2) this, of 0] show ?thesis by simp
qed

theorem net_run_balanced_witness:
  "live_blocks (sp_world ((sp_init world0)\<lparr>g_sp_extended_epid_group_id := Some 0, g_spid := g_sim_spid,
     g_is_sp_registered := True, sp_world := world0\<lparr>live_blocks := 1\<rparr>\<rparr>)) = live_blocks world0 + 1"
  using net_run_balanced [OF example_provider_ok r_into_rtranclp [of "net_step example_provider", OF example_msg0_sent]]
  by simp

end
