(* ===== verification/Sp_Session.thy ===== *)
theory Sp_Session
  imports Sp_Properties
begin

text \<open>
  What message 1 keeps and what it stores besides the session keys: the registration is left alone
  on every path, and an answered message 1 stores a generated key pair, private and public key
  together.
\<close>

section \<open>Statements that leave the key pair alone\<close>

text \<open>A predicate of the registration flag and of the stored key pair.\<close>

definition of_pair :: "(bool \<Rightarrow> byte list \<Rightarrow> byte list \<Rightarrow> bool) \<Rightarrow> 'w msg1_frame \<Rightarrow> bool" where
  "of_pair Q fr \<longleftrightarrow> Q (g_is_sp_registered (sp fr)) (db_b (g_sp_db (sp fr))) (db_g_b (g_sp_db (sp fr)))"

lemma pair_lib_call: "keeps (of_pair Q) (of_pair Q) (lib_call f)"
  unfolding keeps_def lib_call_def by (rule triple_on_part) (simp add: of_pair_def)

lemma pair_set_db:
  "(\<And>db. db_b (f db) = db_b db \<and> db_g_b (f db) = db_g_b db) \<Longrightarrow> keeps (of_pair Q) (of_pair Q) (set_db f)"
  unfolding keeps_def set_db_def by (rule triple_modify) (simp add: of_pair_def)

lemma pair_frame:
  "keeps (of_pair Q) (of_pair Q) (modify (\<lambda>fr. fr\<lparr>p_msg2_full := b\<rparr>))"
  "keeps (of_pair Q) (of_pair Q) (modify (\<lambda>fr. fr\<lparr>ecc_state := h\<rparr>))"
  "keeps (of_pair Q) (of_pair Q) (put off bs)"
  "keeps (of_pair Q) (of_pair Q) (put_copy off cap src n)"
  "keeps (of_pair Q) (of_pair Q) (put_copy_from null_ok off cap rl n)"
  by (auto simp: keeps_def triple_def of_pair_def put_def put_copy_from_def put_copy_def modify_def check_def
      leave_def ok_def split: option.splits)

lemmas pair_keeps = keeps_attempt keeps_pure pair_lib_call pair_set_db pair_frame

lemma pair_derive_keys: "keeps (of_pair Q) (of_pair Q) (msg1_derive_keys supplied L A dh)"
  unfolding msg1_derive_keys_def msg1_derive_def msg1_derive_supplied_def
  by (auto intro!: pair_keeps split: sum.split ub.split option.split)

lemma pair_write_response: "keeps (of_pair Q) (of_pair Q) (msg1_write_response supplied L n rl)"
  unfolding msg1_write_response_def msg1_allocate_def msg1_assemble_def msg1_sign_def msg1_mac_def
    msg1_put_sigrl_def Let_def
  by (auto intro!: pair_keeps)

lemma pair_agree: "keeps (of_pair Q) (of_pair Q) (msg1_agree supplied groups L A m priv)"
  unfolding msg1_agree_def msg1_shared_key_def msg1_get_sigrl_def
  by (auto intro!: pair_keeps pair_derive_keys pair_write_response split: prod.split)

section \<open>The registration\<close>

definition registration :: "bool \<Rightarrow> bool \<Rightarrow> byte list \<Rightarrow> byte list \<Rightarrow> bool" where
  "registration r reg b g_b \<longleftrightarrow> reg = r"

lemma registration_copy: "keeps (of_pair (registration r)) (of_pair (registration r)) (copy_db get upd n src)"
  by (auto simp: keeps_def triple_def copy_db_def stmt_defs of_pair_def registration_def split: stmt_splits)

lemma body_registration:
  "keeps (of_pair (registration r)) (of_pair (registration r)) (msg1_body supplied groups L A m)"
  unfolding msg1_body_def msg1_open_context_def msg1_create_keys_def
  by (auto intro!: pair_keeps pair_agree registration_copy split: prod.split)

lemma finish_registration:
  "msg1_finish L (res, fr) = (r, s') \<Longrightarrow> g_is_sp_registered s' = g_is_sp_registered (sp fr)"
  by (auto simp: msg1_finish_def Let_def split: sum.splits stop.splits if_splits)

lemma msg1_registration:
  assumes "sp_ra_proc_msg1_req supplied groups L A pm msize given s = (r, s')"
  shows "g_is_sp_registered s' = g_is_sp_registered s"
proof (cases "\<exists>m. pm = Some m \<and> given \<and> msize = 68 \<and> g_is_sp_registered s")
  case False
  with assms show ?thesis by (auto simp: sp_ra_proc_msg1_req_def split: option.splits if_splits)
next
  case True
  then obtain m where run: "msg1_finish L (msg1_body supplied groups L A m (msg1_start s)) = (r, s')"
    using assms by (auto simp: sp_ra_proc_msg1_req_def)
  obtain res fr where body: "msg1_body supplied groups L A m (msg1_start s) = (res, fr)"
    by (metis prod.exhaust)
  have "of_pair (registration (g_is_sp_registered s)) (msg1_start s)"
    by (simp add: of_pair_def registration_def)
  from tripleD [OF body_registration [unfolded keeps_def] this, of supplied groups L A m] body
  have "g_is_sp_registered (sp fr) = g_is_sp_registered s"
    by (auto simp: of_pair_def registration_def)
  with finish_registration run body show ?thesis by metis
qed

section \<open>The key pair\<close>

lemma triple_any_exit: "triple P m Q E \<Longrightarrow> triple P m Q (\<lambda>_ _. True)"
  by (erule triple_weaken) simp_all

lemma created_pair:
  assumes "sizes_law L" "key_pair_law L P"
  shows "triple (\<lambda>fr. ready groups spid fr \<and> db_g_a (g_sp_db (sp fr)) = g_a) (msg1_create_keys L)
    (\<lambda>(priv, pub) fr. (ready groups spid fr \<and> db_g_a (g_sp_db (sp fr)) = g_a) \<and>
       length priv = 32 \<and> length pub = 64 \<and> pub = P priv) breaks"
  by (auto simp: triple_def msg1_create_keys_def stmt_defs ready_def sp_wf_def breaks_def
      dest: key_pair_priv_size [OF assms(1)] key_pair_pub_size [OF assms(1)] key_pair_lawD [OF assms(2)]
      split: stmt_splits)

lemma body_pair:
  assumes "sizes_law L" "key_pair_law L P" and len: "length (msg1_g_a m) = 64"
  shows "triple (ready groups spid) (msg1_body supplied groups L A m)
    (\<lambda>_. of_pair (\<lambda>_ b g_b. g_b = P b)) (\<lambda>_ _. True)"
proof -
  have agree: "triple (exchanged groups spid (msg1_g_a m) priv (P priv)) (msg1_agree supplied groups L A m priv)
      (\<lambda>_. of_pair (\<lambda>_ b g_b. g_b = P b)) (\<lambda>_ _. True)" for priv
    by (rule triple_weaken [OF pair_agree [unfolded keeps_def]])
      (auto simp: exchanged_def of_pair_def)
  show ?thesis
    unfolding msg1_body_def
    by (rule triple_attempt [OF triple_any_exit [OF copy_g_a_triple [OF len]] triple_attempt [OF
            triple_any_exit [OF open_context_triple] triple_attempt [OF
            triple_any_exit [OF created_pair [OF assms(1,2)]]]]], clarify, rule triple_and_pure)
      (elim conjE, hypsubst, rule triple_attempt [OF triple_any_exit [OF copy_b_triple] triple_attempt [OF
            triple_any_exit [OF copy_g_b_triple] agree]])
qed

lemma msg1_pair:
  assumes laws: "crypto_laws L A C absorbed H D V" "servers_ok groups" "key_pair_law L P"
    and wf: "sp_wf groups s" and m: "length (msg1_g_a m) = 64"
    and run: "sp_ra_proc_msg1_req supplied groups L A (Some m) msize given s = (Inr (0, resp), s')"
  shows "db_g_b (g_sp_db s') = P (db_b (g_sp_db s'))"
proof -
  from msg1_same_result [OF run]
  have run': "sp_ra_proc_msg1_req supplied groups (defining L) A (Some m) msize given s = (Inr (0, resp), s')" .
  then have reg: "g_is_sp_registered s" "given" "msize = 68"
    by (auto simp: sp_ra_proc_msg1_req_def split: if_splits)
  then have fin: "msg1_finish L (msg1_body supplied groups (defining L) A m (msg1_start s)) = (Inr (0, resp), s')"
    using run' by (simp add: sp_ra_proc_msg1_req_def)
  have L: "crypto_laws (defining L) A C absorbed H D V" "key_pair_law (defining L) P" using laws(1,3) by simp_all
  show ?thesis
  proof (cases rule: body_outcome [OF L(1) defining_platform laws(2) m wf reg(1), of supplied, case_names early answer])
    case (early ret fr)
    with fin show ?thesis by (simp add: msg1_finish_def Let_def)
  next
    case (answer fr b)
    have "ready groups (g_spid s) (msg1_start s)" using wf reg(1) by (simp add: ready_def)
    from tripleD [OF body_pair [OF crypto_lawsD(1) [OF L(1)] L(2) m] this, of supplied A] answer(1)
    have "db_g_b (g_sp_db (sp fr)) = P (db_b (g_sp_db (sp fr)))" by (auto simp: of_pair_def)
    with fin answer(1) show ?thesis by (auto simp: msg1_finish_def Let_def)
  qed
qed

end
