(* ===== verification/Transition_System.thy ===== *)
theory Transition_System
  imports Main
begin

text \<open>
  Interleaved threads as transition systems.  \<open>transition_system\<close> is the contract of an
  inductive invariant; \<open>terminating_system\<close> adds a measure every step decreases and a set of
  final states outside which some step is enabled, and concludes that every run is finite, can be
  completed and can only stop in a final state.  Both thread demos of the basic enclave interpret
  them.  The sums over threads that their invariants use change in one summand per step.
\<close>

lemma sum_change:
  fixes f g :: "'a :: finite \<Rightarrow> nat"
  assumes "\<And>u. u \<noteq> t \<Longrightarrow> f u = g u"
  shows "(\<Sum>u\<in>UNIV. f u) + g t = (\<Sum>u\<in>UNIV. g u) + f t"
proof -
  have "(\<Sum>u\<in>UNIV - {t}. f u) = (\<Sum>u\<in>UNIV - {t}. g u)"
    using assms by (intro sum.cong) auto
  then show ?thesis by (simp add: sum.remove [of UNIV t])
qed

lemma sum_change2:
  fixes f g :: "'a :: finite \<Rightarrow> nat"
  assumes "t \<noteq> v" "\<And>u. u \<noteq> t \<Longrightarrow> u \<noteq> v \<Longrightarrow> f u = g u"
  shows "(\<Sum>u\<in>UNIV. f u) + g t + g v = (\<Sum>u\<in>UNIV. g u) + f t + f v"
proof -
  have "(\<Sum>u\<in>UNIV - {t} - {v}. f u) = (\<Sum>u\<in>UNIV - {t} - {v}. g u)"
    using assms(2) by (intro sum.cong) auto
  moreover have "v \<in> UNIV - {t}" using assms(1) by simp
  ultimately show ?thesis
    by (simp add: sum.remove [of UNIV t] sum.remove [of "UNIV - {t}" v])
qed

text \<open>
  A mutex and the threads inside its critical section: \<open>inside\<close> says which program counters hold
  it, \<open>owner\<close> is the mutex.  Taking it, giving it back, and steps that stay on one side keep the
  agreement.
\<close>

definition mutex_ok :: "('pc \<Rightarrow> bool) \<Rightarrow> ('t \<Rightarrow> 'pc) \<Rightarrow> 't option \<Rightarrow> bool" where
  "mutex_ok inside pc owner \<longleftrightarrow> (\<forall>t. inside (pc t) \<longleftrightarrow> owner = Some t)"

lemma mutex_owner: "mutex_ok inside pc owner \<Longrightarrow> inside (pc t) \<longleftrightarrow> owner = Some t"
  by (simp add: mutex_ok_def)

lemma mutex_acquire: "mutex_ok inside pc None \<Longrightarrow> inside x \<Longrightarrow> mutex_ok inside (pc(t := x)) (Some t)"
  by (auto simp: mutex_ok_def)

lemma mutex_release:
  "mutex_ok inside pc owner \<Longrightarrow> inside (pc t) \<Longrightarrow> \<not> inside x \<Longrightarrow> mutex_ok inside (pc(t := x)) None"
  by (auto simp: mutex_ok_def)

lemma mutex_stay:
  "mutex_ok inside pc owner \<Longrightarrow> inside x = inside (pc t) \<Longrightarrow> mutex_ok inside (pc(t := x)) owner"
  by (simp add: mutex_ok_def)

lemmas mutex_steps = mutex_acquire mutex_release mutex_stay

locale transition_system =
  fixes step :: "'s \<Rightarrow> 's \<Rightarrow> bool" and init :: "'s \<Rightarrow> bool" and inv :: "'s \<Rightarrow> bool"
  assumes init_inv: "init s \<Longrightarrow> inv s"
    and step_inv: "inv s \<Longrightarrow> step s t \<Longrightarrow> inv t"
begin

lemma steps_inv: "step\<^sup>*\<^sup>* s t \<Longrightarrow> inv s \<Longrightarrow> inv t"
  by (induction rule: rtranclp_induct) (auto intro: step_inv)

lemma reachable_inv: "init s \<Longrightarrow> step\<^sup>*\<^sup>* s t \<Longrightarrow> inv t"
  using init_inv steps_inv by blast

end

locale terminating_system = transition_system step init inv
  for step :: "'s \<Rightarrow> 's \<Rightarrow> bool" and init :: "'s \<Rightarrow> bool" and inv :: "'s \<Rightarrow> bool" +
  fixes rank :: "'s \<Rightarrow> nat" and final :: "'s \<Rightarrow> bool"
  assumes rank_decreases: "inv s \<Longrightarrow> step s t \<Longrightarrow> rank t < rank s"
    and progress: "inv s \<Longrightarrow> \<not> final s \<Longrightarrow> \<exists>t. step s t"
begin

text \<open>A run of \<open>n\<close> steps uses up at least \<open>n\<close> of the rank: no run is infinite.\<close>

lemma run_length:
  assumes "(step ^^ n) s t" "inv s"
  shows "n + rank t \<le> rank s"
  using assms
proof (induction n arbitrary: t)
  case (Suc n)
  from Suc.prems(1) obtain u where u: "(step ^^ n) s u" "step u t" by auto
  then have "inv u" using Suc.prems(2) steps_inv relpowp_imp_rtranclp by metis
  with u Suc.IH [OF u(1)] Suc.prems(2) rank_decreases show ?case by fastforce
qed simp

text \<open>From every state that satisfies the invariant a final state is reached.\<close>

lemma completes: "inv s \<Longrightarrow> \<exists>t. step\<^sup>*\<^sup>* s t \<and> final t"
proof (induction "rank s" arbitrary: s rule: less_induct)
  case less
  show ?case
  proof (cases "final s")
    case False
    with progress [OF less.prems] obtain u where u: "step s u" by blast
    with less.hyps [of u] rank_decreases step_inv less.prems obtain t where "step\<^sup>*\<^sup>* u t" "final t" by blast
    with u show ?thesis by (meson converse_rtranclp_into_rtranclp)
  qed blast
qed

text \<open>A run that cannot go on has ended in a final state: there is no deadlock.\<close>

lemma stuck_final: "init s \<Longrightarrow> step\<^sup>*\<^sup>* s t \<Longrightarrow> \<nexists>u. step t u \<Longrightarrow> final t"
  using progress reachable_inv by blast

end

text \<open>
  A detailed system simulated by a coarser one: every step is a step of the coarser system on the
  abstracted states, or leaves the abstracted state alone.
\<close>

locale simulation = transition_system cstep cinit cinv
  for cstep :: "'c \<Rightarrow> 'c \<Rightarrow> bool" and cinit :: "'c \<Rightarrow> bool" and cinv :: "'c \<Rightarrow> bool" +
  fixes astep :: "'a \<Rightarrow> 'a \<Rightarrow> bool" and ainit :: "'a \<Rightarrow> bool" and abs :: "'c \<Rightarrow> 'a"
  assumes init_abs: "cinit s \<Longrightarrow> ainit (abs s)"
    and step_abs: "cinv s \<Longrightarrow> cstep s t \<Longrightarrow> abs t = abs s \<or> astep (abs s) (abs t)"
begin

lemma steps_abs: "cstep\<^sup>*\<^sup>* s t \<Longrightarrow> cinv s \<Longrightarrow> astep\<^sup>*\<^sup>* (abs s) (abs t)"
proof (induction rule: rtranclp_induct)
  case (step t u)
  then show ?case using steps_inv [of s t] step_abs [of t u] by (metis rtranclp.rtrancl_into_rtrancl)
qed simp

lemma reachable_abs: "cinit s \<Longrightarrow> cstep\<^sup>*\<^sup>* s t \<Longrightarrow> ainit (abs s) \<and> astep\<^sup>*\<^sup>* (abs s) (abs t)"
  using init_abs init_inv steps_abs by blast

end

text \<open>
  When the coarser system terminates and the steps it does not see use up a bounded rest, the
  detailed system terminates too.
\<close>

locale stuttering_simulation = simulation cstep cinit cinv astep ainit abs
  for cstep :: "'c \<Rightarrow> 'c \<Rightarrow> bool" and cinit :: "'c \<Rightarrow> bool" and cinv :: "'c \<Rightarrow> bool"
    and astep :: "'a \<Rightarrow> 'a \<Rightarrow> bool" and ainit :: "'a \<Rightarrow> bool" and abs :: "'c \<Rightarrow> 'a" +
  fixes arank :: "'a \<Rightarrow> nat" and rest :: "'c \<Rightarrow> nat" and bound :: nat and cfinal :: "'c \<Rightarrow> bool"
  assumes arank_decreases: "cinv s \<Longrightarrow> astep (abs s) b \<Longrightarrow> arank b < arank (abs s)"
    and rest_bound: "rest s \<le> bound"
    and rest_decreases: "cinv s \<Longrightarrow> cstep s t \<Longrightarrow> abs t = abs s \<Longrightarrow> rest t < rest s"
    and detailed_progress: "cinv s \<Longrightarrow> \<not> cfinal s \<Longrightarrow> \<exists>t. cstep s t"
begin

definition detailed_rank :: "'c \<Rightarrow> nat" where
  "detailed_rank s = Suc bound * arank (abs s) + rest s"

lemma detailed_rank_decreases:
  assumes "cinv s" "cstep s t"
  shows "detailed_rank t < detailed_rank s"
proof (cases "abs t = abs s")
  case True
  then show ?thesis using rest_decreases [OF assms] by (simp add: detailed_rank_def)
next
  case False
  then have "Suc (arank (abs t)) \<le> arank (abs s)"
    using step_abs [OF assms] arank_decreases [OF assms(1)] by (simp add: Suc_le_eq)
  then have "Suc bound * Suc (arank (abs t)) \<le> Suc bound * arank (abs s)" by (rule mult_le_mono2)
  then show ?thesis using rest_bound [of t] by (simp add: detailed_rank_def)
qed

end

sublocale stuttering_simulation \<subseteq> terminating_system cstep cinit cinv detailed_rank cfinal
  by unfold_locales (auto intro: detailed_rank_decreases detailed_progress)

end
