(* ===== verification/Provider_Protocol.thy ===== *)
theory Provider_Protocol
  imports Network_Ra Sp_Session Transition_System
begin

text \<open>
  What the service provider promises its clients, as an abstract machine, and that the provider
  behind \<open>ra_network_send_receive\<close> refines it.  The machine knows three things: whether the
  provider is registered, the pair of public keys of the session it holds, and how many responses
  are unreleased.  An event is a request with its answer, or a release.  The concrete runs are those
  of \<open>Network_Ra\<close> with their events written down.
\<close>

section \<open>The abstract machine\<close>

datatype sp_event =
    Msg0_answered u32 bool
  | Msg2_sent "byte list" "byte list" "byte list"
  | Msg1_failed int
  | Refused
  | Released

record protocol =
  p_registered :: bool
  p_session :: "(byte list \<times> byte list) option"
  p_owned :: nat

definition proto_init :: protocol where
  "proto_init = \<lparr>p_registered = False, p_session = None, p_owned = 0\<rparr>"

text \<open>
  Message 0 registers for the group of the simulated server; a message 2 opens the session of its
  two public keys; a message 1 that fails after registration spoils the session.
\<close>

fun after :: "sp_event \<Rightarrow> protocol \<Rightarrow> protocol" where
  "after (Msg0_answered gid given) a =
     a\<lparr>p_registered := p_registered a \<or> gid = 0, p_owned := p_owned a + (if given then 1 else 0)\<rparr>"
| "after (Msg2_sent g_a g_b sig) a = a\<lparr>p_session := Some (g_a, g_b), p_owned := Suc (p_owned a)\<rparr>"
| "after (Msg1_failed code) a = (if p_registered a then a\<lparr>p_session := None\<rparr> else a)"
| "after Refused a = a"
| "after Released a = a\<lparr>p_owned := p_owned a - 1\<rparr>"

text \<open>
  When an event may happen: message 2 only once registered, signed by the provider over both keys;
  before that, message 1 is refused with the code for it; only what is owned can be released.
\<close>

fun allowed :: "(byte list \<Rightarrow> byte list \<Rightarrow> byte list \<Rightarrow> bool) \<Rightarrow> protocol \<Rightarrow> sp_event \<Rightarrow> bool" where
  "allowed V a (Msg2_sent g_a g_b sig) \<longleftrightarrow> p_registered a \<and> V g_sp_priv_key (g_b @ g_a) sig"
| "allowed V a (Msg1_failed code) \<longleftrightarrow>
     code \<noteq> 0 \<and> (\<not> p_registered a \<longrightarrow> code = sp_code SP_UNSUPPORTED_EXTENDED_EPID_GROUP)"
| "allowed V a Released \<longleftrightarrow> 0 < p_owned a"
| "allowed V a _ \<longleftrightarrow> True"

definition replay :: "sp_event list \<Rightarrow> protocol" where
  "replay h = foldl (\<lambda>a e. after e a) proto_init h"

lemma replay_simps [simp]: "replay [] = proto_init" "replay (h @ [e]) = after e (replay h)"
  by (simp_all add: replay_def)

text \<open>A step of the machine, with the events so far.\<close>

inductive proto_step ::
  "(byte list \<Rightarrow> byte list \<Rightarrow> byte list \<Rightarrow> bool) \<Rightarrow> protocol \<times> sp_event list \<Rightarrow> protocol \<times> sp_event list \<Rightarrow> bool"
  for V where
  event: "allowed V a e \<Longrightarrow> proto_step V (a, h) (after e a, h @ [e])"

section \<open>The provider with its events\<close>

definition event_of :: "ra_samp_request_header_t \<Rightarrow> int \<Rightarrow> byte list option option \<Rightarrow> sp_event" where
  "event_of r ret resp =
     (if req_type r = ra_msg_type_code TYPE_RA_MSG0 \<and> req_size r = of_nat sizeof_msg0
      then Msg0_answered (extended_epid_group_id (cast_msg0 (req_body r))) (ret = 0)
      else if req_type r = ra_msg_type_code TYPE_RA_MSG1 \<and> req_size r = of_nat sizeof_msg1
      then (case resp of
              Some (Some b) \<Rightarrow>
                Msg2_sent (msg1_g_a (cast_msg1 (req_body r))) (msg2_g_b (cast_msg2 b)) (msg2_sign_gb_ga (cast_msg2 b))
            | _ \<Rightarrow> Msg1_failed ret)
      else Refused)"

inductive logged_step ::
  "'w provider \<Rightarrow> ('w sp_state \<times> nat) \<times> sp_event list \<Rightarrow> ('w sp_state \<times> nat) \<times> sp_event list \<Rightarrow> bool"
  for p where
  sent: "wf_request r \<Longrightarrow> ra_network_send_receive p True (Some r) True s = (Inr (ret, resp), s') \<Longrightarrow>
    logged_step p ((s, n), h) ((s', if ret = 0 then Suc n else n), h @ [event_of r ret resp])"
| released: "logged_step p ((s, Suc n), h) ((ra_free_network_response_buffer p (Some b) s, n), h @ [Released])"

text \<open>Writing events down changes nothing: these are the steps of \<open>net_step\<close>.\<close>

lemma logged_net_step: "logged_step p (x, h) (y, h') \<Longrightarrow> net_step p x y"
  by (auto elim!: logged_step.cases intro: net_step.intros)

lemma net_logged_step: "net_step p x y \<Longrightarrow> \<exists>e. logged_step p (x, h) (y, h @ [e])"
  by (auto elim!: net_step.cases intro: logged_step.intros)

section \<open>What the requests do\<close>

text \<open>Message 0 registers exactly for the group of the simulated server and leaves the session alone.\<close>

lemma msg0_respond_state:
  "msg0_respond L s = (r, s') \<Longrightarrow> g_is_sp_registered s' = g_is_sp_registered s \<and> g_sp_db s' = g_sp_db s"
  by (auto simp: msg0_respond_eq split: prod.splits)

lemma msg0_responds:
  assumes wf: "sp_wf (g_extended_epid_groups L) s"
  obtains t where "sp_ra_proc_msg0_req (g_extended_epid_groups L) L (Some m) 4 True s = msg0_respond L t"
    "g_is_sp_registered t = (g_is_sp_registered s \<or> extended_epid_group_id m = 0)" "g_sp_db t = g_sp_db s"
proof (cases "extended_epid_group_id m = 0 \<and> \<not> g_is_sp_registered s")
  case True
  have "length (g_spid s) = 16" using wf by (simp add: sp_wf_def)
  with True msg0_register_first [of L s] show thesis
    by (intro that [of "s\<lparr>g_sp_extended_epid_group_id := Some 0, g_spid := g_sim_spid, g_is_sp_registered := True\<rparr>"])
      (simp_all add: sp_ra_proc_msg0_req_def msg0_must_register_def)
next
  case False
  have current: "group_at (g_extended_epid_groups L) (g_sp_extended_epid_group_id s) = Some g \<Longrightarrow> group_id g = 0" for g
    by (auto simp: group_at_def g_extended_epid_groups_def split: option.splits if_splits)
  have "msg0_register (g_extended_epid_groups L) 0 (extended_epid_group_id m) s =
      (Inr (sp_code SP_UNSUPPORTED_EXTENDED_EPID_GROUP), s)" if "extended_epid_group_id m \<noteq> 0"
    using that by (intro msg0_register_unknown) (simp add: g_extended_epid_groups_def)
  moreover have "extended_epid_group_id m \<noteq> 0" if "msg0_must_register (g_extended_epid_groups L) (extended_epid_group_id m) s"
    using that False current by (auto simp: msg0_must_register_def split: option.splits)
  ultimately have "sp_ra_proc_msg0_req (g_extended_epid_groups L) L (Some m) 4 True s = msg0_respond L s"
    by (auto simp: sp_ra_proc_msg0_req_def)
  with False show thesis by (intro that [of s]) auto
qed

lemma msg0_state:
  assumes "sp_wf (g_extended_epid_groups L) s"
    and "sp_ra_proc_msg0_req (g_extended_epid_groups L) L (Some m) 4 True s = (r, s')"
  shows "g_is_sp_registered s' = (g_is_sp_registered s \<or> extended_epid_group_id m = 0) \<and> g_sp_db s' = g_sp_db s"
  using msg0_responds [OF assms(1), of m] assms(2) msg0_respond_state by metis

text \<open>A request reaches its handler when its size is that of its message; otherwise nothing happens.\<close>

lemma send_cases:
  assumes "wf_request r" "ra_network_send_receive p True (Some r) True s = (Inr (ret, resp), s')"
  obtains (msg0) resp0 where "req_type r = 0" "req_size r = 4" "resp = (if ret = 0 then resp0 else None)"
      "serve_msg0 p (Some (cast_msg0 (req_body r))) 4 True s = (Inr (ret, resp0), s')"
  | (msg1) resp0 where "req_type r = 1" "req_size r = 68" "resp = (if ret = 0 then resp0 else None)"
      "serve_msg1 p (Some (cast_msg1 (req_body r))) 68 True s = (Inr (ret, resp0), s')"
      "length (msg1_g_a (cast_msg1 (req_body r))) = 64"
  | (refused) "\<not> (req_type r = 0 \<and> req_size r = 4)" "\<not> (req_type r = 1 \<and> req_size r = 68)"
      "ret = -1" "resp = None" "s' = s"
proof -
  have read: "body_readable 4 r" "body_readable 68 r" using assms(1) by (simp_all add: wf_request_readable)
  have taken: "\<exists>resp0. res = Inr (ret, resp0) \<and> resp = (if ret = 0 then resp0 else None)"
    if "deliver res = Inr (ret, resp)" for res
    using that by (auto simp: deliver_def split: sum.splits prod.splits if_splits option.splits)
  show thesis
  proof (cases "req_type r = 0")
    case True
    obtain res s1 where run: "serve_msg0 p (Some (cast_msg0 (req_body r))) (req_size r) True s = (res, s1)"
      by (metis prod.exhaust)
    with True assms(2) read have res: "deliver res = Inr (ret, resp)" "s1 = s'"
      by (simp_all add: ra_network_send_receive_def)
    then show thesis
    proof (cases "req_size r = 4")
      case False
      with run have "res = Inr (-1, None)" "s1 = s"
        by (auto simp: serve_msg0_def sp_ra_proc_msg0_req_def)
      with res False True refused show thesis by (auto simp: deliver_def)
    qed (use taken run res True msg0 in fastforce)
  next
    case nonzero: False
    show thesis
    proof (cases "req_type r = 1")
      case True
      obtain res s1 where run: "serve_msg1 p (Some (cast_msg1 (req_body r))) (req_size r) True s = (res, s1)"
        by (metis prod.exhaust)
      with True assms(2) read have res: "deliver res = Inr (ret, resp)" "s1 = s'"
        by (simp_all add: ra_network_send_receive_def)
      show thesis
      proof (cases "req_size r = 68")
        case size: True
        then have "length (msg1_g_a (cast_msg1 (req_body r))) = 64"
          using read(2) by (simp add: body_readable_def cast_msg1_def)
        with taken [OF res(1)] run res(2) True size msg1 show thesis by fastforce
      next
        case False
        with run serve_msg1_short [OF False, of p _ True s] have "res = Inr (-1, None)" "s1 = s" by simp_all
        with res False True refused show thesis by (simp add: deliver_def)
      qed
    qed (use nonzero assms(2) refused in \<open>auto simp: ra_network_send_receive_def\<close>)
  qed
qed

section \<open>The refinement\<close>

text \<open>The provider's globals hold the session of two public keys.\<close>

definition holds_session ::
  "bool \<Rightarrow> (byte list \<Rightarrow> byte list \<Rightarrow> byte list) \<Rightarrow> (byte list \<Rightarrow> byte list) \<Rightarrow>
   (byte list \<Rightarrow> byte list \<Rightarrow> byte list) \<Rightarrow> byte list \<Rightarrow> byte list \<Rightarrow> sp_db_item_t \<Rightarrow> bool" where
  "holds_session supplied C H D g_a g_b db \<longleftrightarrow>
     db_g_a db = g_a \<and> db_g_b db = g_b \<and> session_keys supplied C H (D (db_b db) g_a) db"

text \<open>A provider over the simulated attestation server, with libraries that keep their laws.\<close>

definition protocol_laws ::
  "('w \<Rightarrow> nat) \<Rightarrow> ('w \<Rightarrow> nat) \<Rightarrow> (byte list \<Rightarrow> byte list \<Rightarrow> byte list) \<Rightarrow> (byte list \<Rightarrow> byte list) \<Rightarrow>
   (byte list \<Rightarrow> byte list \<Rightarrow> byte list) \<Rightarrow> (byte list \<Rightarrow> byte list \<Rightarrow> byte list \<Rightarrow> bool) \<Rightarrow> 'w provider \<Rightarrow> bool" where
  "protocol_laws blocks ctxs C H D V p \<longleftrightarrow>
     (\<exists>absorbed. crypto_laws (prov_lib p) (prov_sha p) C absorbed H D V) \<and> platform_law (prov_lib p) \<and>
     resource_laws (prov_lib p) (prov_sha p) blocks ctxs \<and>
     prov_groups p = g_extended_epid_groups (prov_lib p)"

text \<open>The provider's globals agree with the machine's state.\<close>

definition matches ::
  "(byte list \<Rightarrow> byte list \<Rightarrow> byte list) \<Rightarrow> (byte list \<Rightarrow> byte list) \<Rightarrow>
   (byte list \<Rightarrow> byte list \<Rightarrow> byte list) \<Rightarrow> 'w provider \<Rightarrow> protocol \<Rightarrow> 'w sp_state \<times> nat \<Rightarrow> bool" where
  "matches C H D p a = (\<lambda>(s, n). p_registered a = g_is_sp_registered s \<and> p_owned a = n \<and>
     (\<forall>g_a g_b. p_session a = Some (g_a, g_b) \<longrightarrow>
        holds_session (supplied_derivation p) C H D g_a g_b (g_sp_db s)))"

definition logged_init where
  "logged_init blocks ctxs C H D V p x \<longleftrightarrow> protocol_laws blocks ctxs C H D V p \<and> (\<exists>w. x = ((sp_init w, 0), []))"

definition logged_inv where
  "logged_inv blocks ctxs C H D V p = (\<lambda>((s, n), h). protocol_laws blocks ctxs C H D V p \<and>
     sp_wf (prov_groups p) s \<and> matches C H D p (replay h) (s, n))"

lemma protocol_laws_inv:
  "protocol_laws blocks ctxs C H D V p \<Longrightarrow> provider_inv blocks ctxs p s \<longleftrightarrow> sp_wf (prov_groups p) s"
  by (auto simp: protocol_laws_def provider_inv_def servers_ok_ias) blast

lemma matches_release:
  "matches C H D p a (s, Suc n) \<Longrightarrow>
   matches C H D p (after Released a) (ra_free_network_response_buffer q b s, n) \<and> allowed V a Released"
  by (auto simp: matches_def ra_free_network_response_buffer_def)

lemma sent_msg0:
  assumes "protocol_laws blocks ctxs C H D V p" "sp_wf (prov_groups p) s" "matches C H D p a (s, n)"
    and "serve_msg0 p (Some m) 4 True s = (Inr (ret, resp), s')"
  shows "matches C H D p (after (Msg0_answered (extended_epid_group_id m) (ret = 0)) a)
    (s', if ret = 0 then Suc n else n)"
proof -
  have "prov_groups p = g_extended_epid_groups (prov_lib p)" using assms(1) by (simp add: protocol_laws_def)
  with assms(2,4) msg0_state [of "prov_lib p" s m] show ?thesis
    using assms(3) by (auto simp: serve_msg0_def matches_def)
qed

lemma sent_msg1:
  assumes "protocol_laws blocks ctxs C H D V p" "sp_wf (prov_groups p) s" "matches C H D p a (s, n)"
    and "length (msg1_g_a m) = 64" and run: "serve_msg1 p (Some m) 68 True s = (Inr (ret, resp), s')"
    and e: "e = (case (if ret = 0 then resp else None) of
        Some (Some b) \<Rightarrow> Msg2_sent (msg1_g_a m) (msg2_g_b (cast_msg2 b)) (msg2_sign_gb_ga (cast_msg2 b))
      | _ \<Rightarrow> Msg1_failed ret)"
  shows "matches C H D p (after e a) (s', if ret = 0 then Suc n else n) \<and> allowed V a e"
proof -
  obtain absorbed where laws: "crypto_laws (prov_lib p) (prov_sha p) C absorbed H D V"
      "resource_laws (prov_lib p) (prov_sha p) blocks ctxs" "servers_ok (prov_groups p)"
    using assms(1) by (auto simp: protocol_laws_def servers_ok_ias)
  note run = run [unfolded serve_msg1_def]
  have reg: "g_is_sp_registered s' = g_is_sp_registered s" using msg1_registration [OF run] .
  have outcome: "sp_wf (prov_groups p) s'"
    "ret = 0 \<Longrightarrow> \<exists>b. resp = Some (Some b) \<and> msg2_answers (supplied_derivation p) C H D V (msg1_g_a m) s' b"
    using msg1_result [OF laws assms(2,4) run] by auto
  show ?thesis
  proof (cases "ret = 0")
    case True
    with outcome obtain b where b: "resp = Some (Some b)"
      "msg2_answers (supplied_derivation p) C H D V (msg1_g_a m) s' b" by blast
    have "g_is_sp_registered s" using run True by (auto simp: sp_ra_proc_msg1_req_def split: if_splits)
    with True b e reg msg2_answers_cast [OF b(2) outcome(1)] assms(3) show ?thesis
      by (auto simp: matches_def holds_session_def msg2_answers_def)
  next
    case False
    with e have e: "e = Msg1_failed ret" by simp
    show ?thesis
    proof (cases "g_is_sp_registered s")
      case True
      with False e reg assms(3) show ?thesis by (simp add: matches_def)
    next
      case unregistered: False
      then have "ret = sp_code SP_UNSUPPORTED_EXTENDED_EPID_GROUP" "s' = s"
        using run by (simp_all add: sp_ra_proc_msg1_req_def)
      with False e unregistered assms(3) show ?thesis by (simp add: matches_def)
    qed
  qed
qed

lemma sent_event:
  assumes laws: "protocol_laws blocks ctxs C H D V p" "sp_wf (prov_groups p) s" "matches C H D p a (s, n)"
    and sent: "wf_request r" "ra_network_send_receive p True (Some r) True s = (Inr (ret, resp), s')"
  shows "matches C H D p (after (event_of r ret resp) a) (s', if ret = 0 then Suc n else n) \<and>
    allowed V a (event_of r ret resp)"
  using sent
proof (cases rule: send_cases)
  case (msg0 resp0)
  with sent_msg0 [OF laws msg0(4)] show ?thesis by (simp add: event_of_def)
next
  case (msg1 resp0)
  with sent_msg1 [OF laws msg1(5,4) refl] show ?thesis by (simp add: event_of_def cast_msg1_def)
next
  case refused
  with laws(3) show ?thesis by (auto simp: event_of_def)
qed

lemma init_matches: "matches C H D p proto_init (sp_init w, 0)"
  by (simp add: matches_def proto_init_def sp_init_def)

lemma logged_step_matches:
  assumes "logged_step p x y" "logged_inv blocks ctxs C H D V p x"
  shows "logged_inv blocks ctxs C H D V p y \<and> (\<exists>e. snd y = snd x @ [e] \<and> allowed V (replay (snd x)) e)"
  using assms
proof (induction rule: logged_step.induct)
  case (sent r s ret resp s' n h)
  then have laws: "protocol_laws blocks ctxs C H D V p" "sp_wf (prov_groups p) s" "matches C H D p (replay h) (s, n)"
    by (auto simp: logged_inv_def)
  then have "provider_inv blocks ctxs p s" by (simp add: protocol_laws_inv)
  with send_receive_outcome [of blocks ctxs p s "Some r" True True] sent.hyps
  have "provider_inv blocks ctxs p s'" by auto
  then show ?case
    using sent_event [OF laws sent.hyps] laws(1) by (simp add: logged_inv_def provider_inv_def)
next
  case (released s n h b)
  then show ?case
    using matches_release [of C H D p "replay h" s n p "Some b" V]
    by (auto simp: logged_inv_def ra_free_network_response_buffer_def)
qed

interpretation proto: simulation "logged_step p" "logged_init blocks ctxs C H D V p" "logged_inv blocks ctxs C H D V p"
    "proto_step V" "\<lambda>x. x = (proto_init, [])" "\<lambda>(x, h). (replay h, h)"
  for p blocks ctxs C H D V
proof unfold_locales
  show "logged_inv blocks ctxs C H D V p s" if "logged_init blocks ctxs C H D V p s" for s
    using that by (auto simp: logged_init_def logged_inv_def sp_wf_init init_matches)
  show "logged_inv blocks ctxs C H D V p t" if "logged_inv blocks ctxs C H D V p s" "logged_step p s t" for s t
    using logged_step_matches that by blast
  show "(\<lambda>(x, h). (replay h, h)) s = (proto_init, [])" if "logged_init blocks ctxs C H D V p s" for s
    using that by (auto simp: logged_init_def)
  show "(\<lambda>(x, h). (replay h, h)) t = (\<lambda>(x, h). (replay h, h)) s \<or>
      proto_step V ((\<lambda>(x, h). (replay h, h)) s) ((\<lambda>(x, h). (replay h, h)) t)"
    if "logged_inv blocks ctxs C H D V p s" "logged_step p s t" for s t
    using logged_step_matches [OF that(2,1)] by (auto intro: proto_step.intros split: prod.splits)
qed

section \<open>Runs of the abstract machine\<close>

lemma proto_replay: "(proto_step V)\<^sup>*\<^sup>* (proto_init, []) (a, h) \<Longrightarrow> a = replay h"
  by (induction "(a, h)" arbitrary: a h rule: rtranclp_induct) (auto elim!: proto_step.cases)

text \<open>An event of a run was allowed by the events before it.\<close>

lemma proto_allowed:
  assumes "(proto_step V)\<^sup>*\<^sup>* (proto_init, []) x" "snd x = h1 @ e # h2"
  shows "allowed V (replay h1) e"
  using assms
proof (induction arbitrary: h2 rule: rtranclp_induct)
  case (step y z)
  obtain a h e' where y: "y = (a, h)" and z: "z = (after e' a, h @ [e'])" "allowed V a e'"
    using step.hyps(2) by (auto elim: proto_step.cases)
  have a: "a = replay h" using proto_replay step.hyps(1) y by blast
  show ?case
  proof (cases h2 rule: rev_cases)
    case Nil
    with step.prems z a show ?thesis by simp
  next
    case (snoc h3 e3)
    with step.prems z have "h = h1 @ e # h3" by simp
    with step.IH y show ?thesis by simp
  qed
qed simp

text \<open>Only message 0 for the simulated group registers.\<close>

lemma replay_registered: "p_registered (replay h) \<longleftrightarrow> (\<exists>given. Msg0_answered 0 given \<in> set h)"
proof (induction h rule: rev_induct)
  case (snoc e h)
  then show ?case by (cases e) auto
qed (simp add: proto_init_def)

lemma replay_session:
  assumes "p_registered (replay h1)"
    and "\<forall>e \<in> set h2. \<forall>x y sig code. e \<noteq> Msg2_sent x y sig \<and> e \<noteq> Msg1_failed code"
  shows "p_session (replay (h1 @ Msg2_sent g_a g_b sig # h2)) = Some (g_a, g_b)"
  using assms(2)
proof (induction h2 rule: rev_induct)
  case Nil
  show ?case using replay_simps(2) [of h1 "Msg2_sent g_a g_b sig"] by simp
next
  case (snoc e h)
  then have "p_session (replay (h1 @ Msg2_sent g_a g_b sig # h)) = Some (g_a, g_b)" by simp
  moreover have "replay (h1 @ Msg2_sent g_a g_b sig # h @ [e]) = after e (replay (h1 @ Msg2_sent g_a g_b sig # h))"
    using replay_simps(2) [of "h1 @ Msg2_sent g_a g_b sig # h" e] by simp
  ultimately show ?case using snoc.prems by (cases e) auto
qed

lemma run_refines:
  assumes "protocol_laws blocks ctxs C H D V p" "(logged_step p)\<^sup>*\<^sup>* ((sp_init w, 0), []) ((s, n), h)"
  shows "(proto_step V)\<^sup>*\<^sup>* (proto_init, []) (replay h, h) \<and> matches C H D p (replay h) (s, n) \<and>
    provider_inv blocks ctxs p s"
proof -
  have init: "logged_init blocks ctxs C H D V p ((sp_init w, 0), [])" using assms(1) by (auto simp: logged_init_def)
  from proto.reachable_abs [OF init assms(2)] proto.reachable_inv [OF init assms(2)] show ?thesis
    using protocol_laws_inv [OF assms(1), of s] by (auto simp: logged_inv_def)
qed

section \<open>Properties\<close>

text \<open>C3: The provider refines its protocol: whatever requests and releases arrive in whatever order, the
  events are a run of the abstract machine, and its state is the provider's: registered or not, the
  responses not released yet, and a session only when the globals hold exactly the session of these
  two public keys, its four keys derived from their shared secret.  In every state reached, every
  well-formed request has a defined outcome and so another event.\<close>

theorem provider_refines_protocol:
  assumes "protocol_laws blocks ctxs C H D V p" "(logged_step p)\<^sup>*\<^sup>* ((sp_init w, 0), []) ((s, n), h)"
  shows "\<exists>a. (proto_step V)\<^sup>*\<^sup>* (proto_init, []) (a, h) \<and>
    p_registered a = g_is_sp_registered s \<and> p_owned a = n \<and>
    (\<forall>g_a g_b. p_session a = Some (g_a, g_b) \<longrightarrow>
       holds_session (supplied_derivation p) C H D g_a g_b (g_sp_db s)) \<and>
    (\<forall>r. wf_request r \<longrightarrow> (\<exists>ret resp s'. ra_network_send_receive p True (Some r) True s = (Inr (ret, resp), s')))"
proof -
  note run = run_refines [OF assms]
  have "\<exists>ret resp s'. ra_network_send_receive p True (Some r) True s = (Inr (ret, resp), s')" if "wf_request r" for r
    using send_receive_outcome [OF conjunct2 [OF conjunct2 [OF run]], of "Some r" True True] that by auto
  with run show ?thesis by (intro exI [of _ "replay h"]) (simp add: matches_def)
qed

lemma example_protocol_laws:
  "protocol_laws live_blocks live_ctxs example_cmac example_hash example_dh example_valid example_provider"
  unfolding protocol_laws_def using example_crypto_laws example_platform_law example_resource_laws
  by (auto simp: example_provider_def)

abbreviation example_msg0_request :: ra_samp_request_header_t where
  "example_msg0_request \<equiv> \<lparr>req_type = 0, req_size = 4, req_align = [0, 0, 0], req_body = [0, 0, 0, 0]\<rparr>"

abbreviation example_msg1_request :: ra_samp_request_header_t where
  "example_msg1_request \<equiv> \<lparr>req_type = 1, req_size = 68, req_align = [0, 0, 0], req_body = replicate 68 1\<rparr>"

lemma example_requests:
  "wf_request example_msg0_request" "wf_request example_msg1_request"
  "cast_msg0 [0, 0, 0, 0] = \<lparr>extended_epid_group_id = 0\<rparr>" "msg1_g_a (cast_msg1 (replicate 68 1)) = replicate 64 1"
  by (simp_all add: wf_request_def cast_msg0_def of_le32_def cast_msg1_def)

lemma example_msg0_step:
  assumes inv: "provider_inv live_blocks live_ctxs example_provider s"
  shows "\<exists>s'. logged_step example_provider ((s, n), h) ((s', Suc n), h @ [Msg0_answered 0 True]) \<and>
    provider_inv live_blocks live_ctxs example_provider s' \<and> g_is_sp_registered s'"
proof -
  obtain ret resp s' where run: "ra_network_send_receive example_provider True (Some example_msg0_request) True s =
      (Inr (ret, resp), s')" and inv': "provider_inv live_blocks live_ctxs example_provider s'"
    using send_receive_outcome [OF inv, of "Some example_msg0_request" True True] example_requests(1) by auto
  from example_requests(1) run show ?thesis
  proof (cases rule: send_cases)
    case (msg0 resp0)
    let ?G = "g_extended_epid_groups example_lib"
    have wf: "sp_wf ?G s" using inv by (simp add: provider_inv_def example_provider_def)
    have served: "sp_ra_proc_msg0_req ?G example_lib (Some \<lparr>extended_epid_group_id = 0\<rparr>) 4 True s = (Inr (ret, resp0), s')"
      using msg0(4) by (simp add: serve_msg0_def example_provider_def example_requests(3))
    obtain t where "msg0_respond example_lib t = (Inr (ret, resp0), s')"
      using msg0_responds [OF wf] served by metis
    then have "ret = 0" by (simp add: msg0_respond_eq example_lib_def)
    with logged_step.sent [OF example_requests(1) run, of n h] inv' msg0_state [OF wf served]
    show ?thesis by (auto simp: event_of_def example_requests(3))
  qed simp_all
qed

lemma example_msg1_step:
  assumes inv: "provider_inv live_blocks live_ctxs example_provider s" and reg: "g_is_sp_registered s"
  shows "\<exists>s' g_b sig. logged_step example_provider ((s, n), h)
      ((s', Suc n), h @ [Msg2_sent (replicate 64 1) g_b sig]) \<and>
    provider_inv live_blocks live_ctxs example_provider s'"
proof -
  obtain ret resp s' where run: "ra_network_send_receive example_provider True (Some example_msg1_request) True s =
      (Inr (ret, resp), s')" and inv': "provider_inv live_blocks live_ctxs example_provider s'"
    using send_receive_outcome [OF inv, of "Some example_msg1_request" True True] example_requests(2) by auto
  from example_requests(2) run show ?thesis
  proof (cases rule: send_cases)
    case (msg1 resp0)
    have wf: "sp_wf (g_extended_epid_groups example_lib) s" using inv by (simp add: provider_inv_def example_provider_def)
    have m: "length (msg1_g_a (cast_msg1 (replicate 68 1))) = 64" by (simp add: cast_msg1_def)
    obtain b where "ret = 0" "resp0 = Some (Some b)"
      using msg1_succeeds [OF example_crypto_laws example_resource_laws servers_ok_ias wf m
          example_calls_succeed reg example_platform_law, of False] msg1(4)
      by (auto simp: serve_msg1_def example_provider_def)
    with logged_step.sent [OF example_requests(2) run, of n h] inv' msg1(3) show ?thesis
      by (auto simp: event_of_def example_requests(4))
  qed simp_all
qed

lemma example_msg1_refused:
  assumes "provider_inv live_blocks live_ctxs example_provider s" "\<not> g_is_sp_registered s"
  shows "logged_step example_provider ((s, n), h) ((s, n), h @ [Msg1_failed 1])"
proof -
  have "body_readable 68 example_msg1_request" by (rule wf_request_readable [OF example_requests(2)]) simp
  then have "ra_network_send_receive example_provider True (Some example_msg1_request) True s = (Inr (1, None), s)"
    using assms(2) by (simp add: ra_network_send_receive_def serve_msg1_def sp_ra_proc_msg1_req_def deliver_def)
  from logged_step.sent [OF example_requests(2) this, of n h] show ?thesis by (simp add: event_of_def)
qed

text \<open>Message 1 is refused, message 0 registers, message 1 opens a session, which another message 0 keeps.\<close>

lemma example_protocol_run:
  "\<exists>s g_b sig. (logged_step example_provider)\<^sup>*\<^sup>* ((sp_init world0, 0), [])
     ((s, 3), [Msg1_failed 1, Msg0_answered 0 True, Msg2_sent (replicate 64 1) g_b sig, Msg0_answered 0 True])"
proof -
  note inv = provider_inv_init [OF example_provider_ok, of world0]
  have "\<not> g_is_sp_registered (sp_init world0)" by (simp add: sp_init_def)
  from example_msg1_refused [OF inv this, of 0 "[]"]
  have s1: "logged_step example_provider ((sp_init world0, 0), []) ((sp_init world0, 0), [Msg1_failed 1])" by simp
  obtain t1 where s2: "logged_step example_provider ((sp_init world0, 0), [Msg1_failed 1])
      ((t1, 1), [Msg1_failed 1, Msg0_answered 0 True])" "provider_inv live_blocks live_ctxs example_provider t1"
      "g_is_sp_registered t1"
    using example_msg0_step [OF inv, of 0 "[Msg1_failed 1]"] by auto
  obtain t2 g_b sig where s3: "logged_step example_provider ((t1, 1), [Msg1_failed 1, Msg0_answered 0 True])
      ((t2, 2), [Msg1_failed 1, Msg0_answered 0 True, Msg2_sent (replicate 64 1) g_b sig])"
      "provider_inv live_blocks live_ctxs example_provider t2"
    using example_msg1_step [OF s2(2,3), of 1 "[Msg1_failed 1, Msg0_answered 0 True]"] by (auto simp: numeral_2_eq_2)
  obtain t3 where s4: "logged_step example_provider
      ((t2, 2), [Msg1_failed 1, Msg0_answered 0 True, Msg2_sent (replicate 64 1) g_b sig])
      ((t3, 3), [Msg1_failed 1, Msg0_answered 0 True, Msg2_sent (replicate 64 1) g_b sig, Msg0_answered 0 True])"
    using example_msg0_step [OF s3(2), of 2
        "[Msg1_failed 1, Msg0_answered 0 True, Msg2_sent (replicate 64 1) g_b sig]"] by (auto simp: numeral_3_eq_3)
  from s1 s2(1) s3(1) s4 show ?thesis by (meson rtranclp.rtrancl_into_rtrancl rtranclp.rtrancl_refl)
qed

theorem provider_refines_protocol_witness:
  "\<exists>a h. (proto_step example_valid)\<^sup>*\<^sup>* (proto_init, []) (a, h) \<and> p_registered a \<and> p_owned a = 3 \<and> length h = 4"
proof -
  obtain s g_b sig where run: "(logged_step example_provider)\<^sup>*\<^sup>* ((sp_init world0, 0), [])
     ((s, 3), [Msg1_failed 1, Msg0_answered 0 True, Msg2_sent (replicate 64 1) g_b sig, Msg0_answered 0 True])"
    using example_protocol_run by blast
  obtain a where a: "(proto_step example_valid)\<^sup>*\<^sup>* (proto_init, [])
      (a, [Msg1_failed 1, Msg0_answered 0 True, Msg2_sent (replicate 64 1) g_b sig, Msg0_answered 0 True])" "p_owned a = 3"
    using provider_refines_protocol [OF example_protocol_laws run] by blast
  have "p_registered a" unfolding proto_replay [OF a(1)] replay_registered by auto
  moreover have "length [Msg1_failed 1, Msg0_answered 0 True, Msg2_sent (replicate 64 1) g_b sig, Msg0_answered 0 True] = 4"
    by simp
  ultimately show ?thesis using a by blast
qed

text \<open>C5: No key material before registration: a message 2 in the events of any run was preceded by a message 0
  for the group of the simulated server, and a message 1 that comes before any such message 0 fails with
  \<open>SP_UNSUPPORTED_EXTENDED_EPID_GROUP\<close>.\<close>

theorem no_session_before_registration:
  assumes "protocol_laws blocks ctxs C H D V p"
    and "(logged_step p)\<^sup>*\<^sup>* ((sp_init w, 0), []) ((s, n), h1 @ e # h2)"
    and "\<forall>given. Msg0_answered 0 given \<notin> set h1"
  shows "e \<noteq> Msg2_sent g_a g_b sig \<and>
    (e = Msg1_failed code \<longrightarrow> code = sp_code SP_UNSUPPORTED_EXTENDED_EPID_GROUP)"
proof -
  have "allowed V (replay h1) e"
    using run_refines [OF assms(1,2)] by (intro proto_allowed) auto
  then show ?thesis using assms(3) by (cases e) (auto simp: replay_registered)
qed

theorem no_session_before_registration_witness:
  "\<exists>s g_b sig. (logged_step example_provider)\<^sup>*\<^sup>* ((sp_init world0, 0), [])
     ((s, 3), [Msg1_failed 1, Msg0_answered 0 True, Msg2_sent (replicate 64 1) g_b sig, Msg0_answered 0 True]) \<and>
     1 = sp_code SP_UNSUPPORTED_EXTENDED_EPID_GROUP"
proof -
  obtain s g_b sig where run: "(logged_step example_provider)\<^sup>*\<^sup>* ((sp_init world0, 0), [])
     ((s, 3), [] @ Msg1_failed 1 # [Msg0_answered 0 True, Msg2_sent (replicate 64 1) g_b sig, Msg0_answered 0 True])"
    using example_protocol_run by auto
  from no_session_before_registration [OF example_protocol_laws run, of _ _ _ 1] run show ?thesis by auto
qed

text \<open>C4: The provider serves one session at a time, the one it answered last: after a message 2 the globals hold
  its session, whatever message 0 requests, malformed requests and releases follow, until the next message 1
  reaches the handler.\<close>

theorem last_session_kept:
  assumes "protocol_laws blocks ctxs C H D V p"
    and "(logged_step p)\<^sup>*\<^sup>* ((sp_init w, 0), []) ((s, n), h1 @ Msg2_sent g_a g_b sig # h2)"
    and "\<forall>e \<in> set h2. \<forall>x y z code. e \<noteq> Msg2_sent x y z \<and> e \<noteq> Msg1_failed code"
  shows "holds_session (supplied_derivation p) C H D g_a g_b (g_sp_db s)"
proof -
  note run = run_refines [OF assms(1,2)]
  have "allowed V (replay h1) (Msg2_sent g_a g_b sig)"
    by (rule proto_allowed [OF conjunct1 [OF run]]) simp
  with replay_session [OF _ assms(3), of h1 g_a g_b sig] run show ?thesis by (auto simp: matches_def)
qed

theorem last_session_kept_witness:
  "\<exists>(s :: example_world sp_state) g_b. holds_session False example_cmac example_hash example_dh (replicate 64 1) g_b (g_sp_db s)"
proof -
  obtain s g_b sig where run: "(logged_step example_provider)\<^sup>*\<^sup>* ((sp_init world0, 0), [])
     ((s, 3), [Msg1_failed 1, Msg0_answered 0 True] @ Msg2_sent (replicate 64 1) g_b sig # [Msg0_answered 0 True])"
    using example_protocol_run by auto
  from last_session_kept [OF example_protocol_laws run] show ?thesis
    by (auto simp: example_provider_def)
qed

end
