(* ===== verification/Sgx_Api.thy ===== *)
theory Sgx_Api
  imports Crypto_Api
begin

text \<open>
  The part of the Intel SGX SDK the enclaves and applications use: the status codes the source
  names (as distinct constants, with \<open>SGX_STATUS_OTHER\<close> for every other code; their numbers are
  the SDK's) and the trusted key exchange and crypto library of the attestation enclave, a
  parameter of the model.
\<close>

datatype sgx_status_t =
    SGX_SUCCESS
  | SGX_ERROR_UNEXPECTED
  | SGX_ERROR_INVALID_PARAMETER
  | SGX_ERROR_OUT_OF_MEMORY
  | SGX_ERROR_ENCLAVE_LOST
  | SGX_ERROR_INVALID_ENCLAVE
  | SGX_ERROR_INVALID_ENCLAVE_ID
  | SGX_ERROR_INVALID_SIGNATURE
  | SGX_ERROR_OUT_OF_EPC
  | SGX_ERROR_NO_DEVICE
  | SGX_ERROR_MEMORY_MAP_CONFLICT
  | SGX_ERROR_INVALID_METADATA
  | SGX_ERROR_DEVICE_BUSY
  | SGX_ERROR_INVALID_VERSION
  | SGX_ERROR_INVALID_ATTRIBUTE
  | SGX_ERROR_ENCLAVE_FILE_ACCESS
  | SGX_ERROR_BUSY
  | SGX_ERROR_MAC_MISMATCH
  | SGX_ERROR_KDF_MISMATCH
  | SGX_ERROR_ECALL_NOT_ALLOWED
  | SGX_STATUS_OTHER u32

type_synonym sgx_ra_context_t = u32

datatype sgx_ra_key_type_t = SGX_RA_KEY_SK | SGX_RA_KEY_MK | SGX_RA_KEY_VK

text \<open>
  A key derivation callback takes the shared key (\<open>None\<close> is null) and the derivation id and
  returns a status and what it wrote to the buffers for SMK, SK, MK and VK.
\<close>

type_synonym 'w key_derivation_cb =
  "byte list option \<Rightarrow> u16 \<Rightarrow> 'w \<Rightarrow>
   (sgx_status_t \<times> (byte list \<times> byte list) option \<times> (byte list \<times> byte list) option) \<times> 'w"

record 'w sgx_tke =
  sgx_ra_init :: "byte list \<Rightarrow> int \<Rightarrow> 'w \<Rightarrow> (sgx_status_t \<times> sgx_ra_context_t option) \<times> 'w"
  sgx_ra_init_ex :: "byte list \<Rightarrow> int \<Rightarrow> 'w key_derivation_cb \<Rightarrow> 'w \<Rightarrow>
    (sgx_status_t \<times> sgx_ra_context_t option) \<times> 'w"
  sgx_ra_close :: "sgx_ra_context_t \<Rightarrow> 'w \<Rightarrow> sgx_status_t \<times> 'w"
  sgx_ra_get_keys :: "sgx_ra_context_t \<Rightarrow> sgx_ra_key_type_t \<Rightarrow> 'w \<Rightarrow> (sgx_status_t \<times> byte list) \<times> 'w"
  sgx_cmac_msg :: "byte list \<Rightarrow> byte list \<Rightarrow> 'w \<Rightarrow> (sgx_status_t \<times> byte list) \<times> 'w"
  sgx_gcm_decrypt :: "byte list \<Rightarrow> byte list \<Rightarrow> byte list \<Rightarrow> byte list \<Rightarrow> byte list \<Rightarrow> 'w \<Rightarrow>
    (sgx_status_t \<times> byte list option) \<times> 'w"

section \<open>Documented laws\<close>

text \<open>A successful CMAC is a function of key and message, of 16 bytes.\<close>

definition sgx_cmac_law :: "'w sgx_tke \<Rightarrow> (byte list \<Rightarrow> byte list \<Rightarrow> byte list) \<Rightarrow> bool" where
  "sgx_cmac_law T C \<longleftrightarrow>
     (\<forall>k d w tag w'. sgx_cmac_msg T k d w = ((SGX_SUCCESS, tag), w') \<longrightarrow> tag = C k d \<and> length tag = 16)"

text \<open>Decryption writes nothing, or as many bytes as the ciphertext has; on success it writes the plaintext.\<close>

definition sgx_gcm_law ::
  "'w sgx_tke \<Rightarrow> (byte list \<Rightarrow> byte list \<Rightarrow> byte list \<Rightarrow> byte list \<Rightarrow> byte list \<Rightarrow> byte list) \<Rightarrow> bool" where
  "sgx_gcm_law T G \<longleftrightarrow>
     (\<forall>k c iv aad tag w st out w'. sgx_gcm_decrypt T k c iv aad tag w = ((st, out), w') \<longrightarrow>
        (\<forall>p. out = Some p \<longrightarrow> length p = length c) \<and>
        (st = SGX_SUCCESS \<longrightarrow> out = Some (G k c iv aad tag)))"

lemma sgx_cmac_lawD:
  "sgx_cmac_law T C \<Longrightarrow> sgx_cmac_msg T k d w = ((SGX_SUCCESS, tag), w') \<Longrightarrow> tag = C k d \<and> length tag = 16"
  unfolding sgx_cmac_law_def by blast

lemma sgx_gcm_lawD:
  assumes "sgx_gcm_law T G"
  shows "sgx_gcm_decrypt T k c iv aad tag w = ((st, Some p), w') \<Longrightarrow> length p = length c"
    and "sgx_gcm_decrypt T k c iv aad tag w = ((SGX_SUCCESS, out), w') \<Longrightarrow> out = Some (G k c iv aad tag)"
  using assms unfolding sgx_gcm_law_def by blast+

end
