(* ===== verification/Isv_App.thy ===== *)
theory Isv_App
  imports Network_Ra Sgx_Api
begin

text \<open>
  \<open>app/app.cpp\<close>: the untrusted application.  \<open>main\<close> sends message 0, selects an attestation
  key, creates the enclave and its key exchange context (retrying once when the enclave is lost),
  gets message 1 from the SDK (retrying while it is busy), sends it and hands message 2 to the
  SDK.  Every failure jumps to \<open>CLEANUP\<close>.  The SDK and the generated ecall bridges are a
  parameter; the provider behind \<open>ra_network_send_receive\<close> is the model of the other theories,
  in the same process and so on the same heap.
\<close>

section \<open>Printing a byte array\<close>

definition hex_digit :: "nat \<Rightarrow> char" where
  "hex_digit n = (if n < 10 then char_of (48 + n) else char_of (87 + n))"

text \<open>\<open>%x\<close> of a byte.\<close>

definition hex_byte :: "byte \<Rightarrow> string" where
  "hex_byte b = (if unat b < 16 then [hex_digit (unat b)] else [hex_digit (unat b div 16), hex_digit (unat b mod 16)])"

text \<open>The loop from index \<open>i\<close>, \<open>n\<close> rounds left; \<open>None\<close> is a read past the array.\<close>

fun print_loop :: "nat \<Rightarrow> nat \<Rightarrow> byte list \<Rightarrow> string option" where
  "print_loop 0 i array = (if i < length array then Some (''0x'' @ hex_byte (array ! i) @ '' '') else None)"
| "print_loop (Suc n) i array =
     (if i < length array then
        (case print_loop n (Suc i) array of
           None \<Rightarrow> None
         | Some out \<Rightarrow> Some (''0x'' @ hex_byte (array ! i) @ '', '' @ (if i mod 8 = 7 then newline else []) @ out))
      else None)"

definition PRINT_BYTE_ARRAY :: "byte list option \<Rightarrow> u32 \<Rightarrow> string option" where
  "PRINT_BYTE_ARRAY mem len =
     (case mem of
        None \<Rightarrow> Some (newline @ ''( null )'' @ newline)
      | Some array \<Rightarrow>
          if len = 0 then Some (newline @ ''( null )'' @ newline)
          else (case print_loop (unat (len - 1)) 0 array of
                  None \<Rightarrow> None
                | Some out \<Rightarrow> Some (dec_digits (unat len) @ '' bytes:'' @ newline @ ''{'' @ newline @ out @
                    newline @ ''}'' @ newline)))"

lemma print_loop_defined: "print_loop n i array \<noteq> None \<longleftrightarrow> i + n < length array"
proof (induction n arbitrary: i)
  case (Suc n)
  then show ?case using Suc.IH [of "Suc i"] by (cases "print_loop n (Suc i) array") auto
qed simp

lemma PRINT_BYTE_ARRAY_defined:
  "unat len \<le> length array \<Longrightarrow> PRINT_BYTE_ARRAY (Some array) len \<noteq> None"
proof (cases "len = 0")
  case False
  assume len: "unat len \<le> length array"
  have "unat (len - 1) < unat len" using False by (simp add: unat_gt_0 unat_minus_one)
  with len have "print_loop (unat (len - 1)) 0 array \<noteq> None" by (subst print_loop_defined) linarith
  then obtain out where "print_loop (unat (len - 1)) 0 array = Some out" by blast
  then show ?thesis using False by (simp add: PRINT_BYTE_ARRAY_def)
qed (simp add: PRINT_BYTE_ARRAY_def)

section \<open>The SDK\<close>

text \<open>\<open>sgx_ra_proc_msg2_ex\<close> writes message 3 and its size through two output pointers, or neither.\<close>

record 'w sgx_urts =
  sgx_select_att_key_id :: "byte list \<Rightarrow> 'w \<Rightarrow> (sgx_status_t \<times> byte list) \<times> 'w"
  sgx_create_enclave :: "'w \<Rightarrow> (sgx_status_t \<times> u64 option) \<times> 'w"
  ecall_enclave_init_ra :: "u64 \<Rightarrow> bool \<Rightarrow> 'w \<Rightarrow> (sgx_status_t \<times> sgx_status_t option \<times> u32 option) \<times> 'w"
  sgx_ra_get_msg1_ex :: "byte list \<Rightarrow> u32 \<Rightarrow> u64 \<Rightarrow> 'w \<Rightarrow> (sgx_status_t \<times> byte list) \<times> 'w"
  sgx_ra_proc_msg2_ex :: "byte list \<Rightarrow> u32 \<Rightarrow> u64 \<Rightarrow> byte list \<Rightarrow> 'w \<Rightarrow> (sgx_status_t \<times> (byte list \<times> u32) option) \<times> 'w"
  ecall_enclave_ra_close :: "u64 \<Rightarrow> u32 \<Rightarrow> 'w \<Rightarrow> (sgx_status_t \<times> sgx_status_t option) \<times> 'w"
  sgx_destroy_enclave :: "u64 \<Rightarrow> 'w \<Rightarrow> 'w"
  sgx_status_number :: "sgx_status_t \<Rightarrow> u32"

section \<open>Frame of \<open>main\<close>\<close>

text \<open>\<open>int ret\<close> holds a code of the provider or an \<open>sgx_status_t\<close>; both use 0 for success.\<close>

datatype ret_val = Ret int | Status sgx_status_t

definition ret_zero :: "ret_val \<Rightarrow> bool" where
  "ret_zero r \<longleftrightarrow> r = Ret 0 \<or> r = Status SGX_SUCCESS"

definition INT_MAX :: u32 where "INT_MAX = 0x7fffffff"

record 'w app_frame =
  app_sp :: "'w sp_state"
  app_ret :: ret_val
  enclave_id :: u64
  ra_context :: u32
  app_status :: sgx_status_t
  selected_key_id :: "byte list"
  p_msg0_full :: "ra_samp_request_header_t option"
  p_msg0_resp_full :: "byte list option"
  p_msg1_full :: "ra_samp_request_header_t option"
  p_msg2_full_app :: "byte list option"
  p_msg3 :: "byte list option"
  msg3_size :: u32
  printed :: "string list"

definition app_start :: "'w sp_state \<Rightarrow> 'w app_frame" where
  "app_start s =
     \<lparr>app_sp = s, app_ret = Ret 0, enclave_id = 0, ra_context = INT_MAX, app_status = SGX_SUCCESS,
      selected_key_id = [], p_msg0_full = None, p_msg0_resp_full = None, p_msg1_full = None,
      p_msg2_full_app = None, p_msg3 = None, msg3_size = 0, printed = []\<rparr>"

type_synonym ('w, 'a) app_stmt = "'w app_frame \<Rightarrow> (stop + 'a) \<times> 'w app_frame"

definition app_call :: "('w \<Rightarrow> 'a \<times> 'w) \<Rightarrow> ('w, 'a) app_stmt" where
  "app_call f = on_part (\<lambda>fr. sp_world (app_sp fr)) (\<lambda>w fr. fr\<lparr>app_sp := (app_sp fr)\<lparr>sp_world := w\<rparr>\<rparr>) f"

section \<open>Output\<close>

text \<open>A line of output between line breaks, and the name of the function in brackets.\<close>

definition out_line :: "string \<Rightarrow> string" where
  "out_line txt = newline @ txt @ newline"

definition in_main :: "string \<Rightarrow> string" where
  "in_main txt = txt @ '' [main]''"

text \<open>\<open>%08x\<close>.\<close>

definition hex8 :: "u32 \<Rightarrow> string" where
  "hex8 n = map (\<lambda>i. hex_digit (unat (drop_bit (4 * i) n AND 0xf))) (rev [0..<8])"

text \<open>Consecutive writes to \<open>stdout\<close>, one element each.\<close>

definition say :: "string list \<Rightarrow> ('w, unit) app_stmt" where
  "say msgs = modify (\<lambda>fr. fr\<lparr>printed := printed fr @ msgs\<rparr>)"

text \<open>
  \<open>if (!c) { ret = r; fprintf(msg); goto CLEANUP; }\<close>, and the same without an assignment; the
  code of \<open>Break\<close> is not used.
\<close>

definition fail_unless :: "bool \<Rightarrow> ret_val \<Rightarrow> string list \<Rightarrow> ('w, unit) app_stmt" where
  "fail_unless c r msgs fr =
     (if c then (Inr (), fr) else (Inl (Break 0), fr\<lparr>app_ret := r, printed := printed fr @ msgs\<rparr>))"

definition goto_cleanup_unless :: "bool \<Rightarrow> string list \<Rightarrow> ('w, unit) app_stmt" where
  "goto_cleanup_unless c msgs fr =
     (if c then (Inr (), fr) else (Inl (Break 0), fr\<lparr>printed := printed fr @ msgs\<rparr>))"

definition print_array :: "byte list \<Rightarrow> u32 \<Rightarrow> ('w, unit) app_stmt" where
  "print_array array len =
     attempt (defined (PRINT_BYTE_ARRAY (Some array) len)) (\<lambda>out. say [out])"

text \<open>One request to the provider; the code goes to \<open>ret\<close>, the response through the pointer.\<close>

definition send :: "'w provider \<Rightarrow> ra_samp_request_header_t \<Rightarrow>
    ((byte list option \<Rightarrow> byte list option) \<Rightarrow> 'w app_frame \<Rightarrow> 'w app_frame) \<Rightarrow> ('w, int) app_stmt" where
  "send p req upd fr =
     (case ra_network_send_receive p True (Some req) True (app_sp fr) of
        (Inl Undefined, s) \<Rightarrow> (Inl Fault, fr\<lparr>app_sp := s\<rparr>)
      | (Inr (code, resp), s) \<Rightarrow>
          (Inr code, (case resp of None \<Rightarrow> id | Some q \<Rightarrow> upd (\<lambda>_. q)) (fr\<lparr>app_sp := s, app_ret := Ret code\<rparr>)))"

section \<open>The steps of \<open>main\<close>\<close>

text \<open>The extended EPID group id is the constant 0; the test of \<open>ret\<close> right after \<open>ret = 0\<close> is dropped.\<close>

definition app_prepare_gid :: "('w, u32) app_stmt" where
  "app_prepare_gid =
     attempt (say [out_line '' #### Starting ECDSA attestation ####'',
       out_line ''>>>> Prepare Extended EPID GID.'',
       out_line (''Extender epid group: '' @ dec_digits 0)]) (\<lambda>_.
     attempt (modify (\<lambda>fr. fr\<lparr>app_ret := Ret 0\<rparr>)) (\<lambda>_.
     attempt (say [''It reaches here!'' @ newline,
       ''Call sgx_get_extended_epid_group_id was a success.'' @ newline]) (\<lambda>_.
     ok 0)))"

text \<open>Message 0: the extended EPID group id as its body; the padding is never read.\<close>

definition app_prepare_msg0 :: "'w provider \<Rightarrow> u32 \<Rightarrow> ('w, ra_samp_request_header_t) app_stmt" where
  "app_prepare_msg0 p gid =
     attempt (say [out_line ''>>>> Start generating msg0.'']) (\<lambda>_.
     attempt (app_call (malloc (prov_lib p) (sizeof_request_header + 4))) (\<lambda>got.
     attempt (fail_unless got (Ret (-1)) []) (\<lambda>_.
     (let req = \<lparr>req_type = ra_msg_type_code TYPE_RA_MSG0, req_size = 4, req_align = replicate 3 0,
                 req_body = le32 gid\<rparr> in
     attempt (modify (\<lambda>fr. fr\<lparr>p_msg0_full := Some req\<rparr>)) (\<lambda>_.
     attempt (say [out_line ''MSG0 body generated -'']) (\<lambda>_.
     attempt (print_array (req_body req) (req_size req)) (\<lambda>_.
     ok req)))))))"

text \<open>The attestation key is selected from the response to message 0.\<close>

definition app_select_key :: "'w sgx_urts \<Rightarrow> byte list \<Rightarrow> ('w, unit) app_stmt" where
  "app_select_key U b =
     attempt (say [out_line ''>>>> Selecting attestation key.'']) (\<lambda>_.
     attempt (app_call (sgx_select_att_key_id U (take (unat (resp_size b)) (resp_body b)))) (\<lambda>(st, key).
     attempt (fail_unless (st = SGX_SUCCESS) (Ret (-1))
       [out_line (in_main (''Info, call sgx_select_att_key_id fail, current platform configuration '' @
          ''doesn'' @ [CHR 0x27] @ ''t support this attestation key ID.''))]) (\<lambda>_.
     attempt (modify (\<lambda>fr. fr\<lparr>app_ret := Status st, selected_key_id := key\<rparr>)) (\<lambda>_.
     say [out_line ''Call sgx_select_att_key_id success.'']))))"

definition app_msg0 :: "'w provider \<Rightarrow> 'w sgx_urts \<Rightarrow> ('w, unit) app_stmt" where
  "app_msg0 p U =
     attempt app_prepare_gid (\<lambda>gid.
     attempt (app_prepare_msg0 p gid) (\<lambda>req.
     attempt (say [out_line ''>>>> Sending msg0 to SP.'']) (\<lambda>_.
     attempt (send p req p_msg0_resp_full_update) (\<lambda>code.
     attempt (goto_cleanup_unless (code = 0)
       [newline @ in_main ''Error, ra_network_send_receive for msg0 failed.'']) (\<lambda>_.
     attempt (reads p_msg0_resp_full) (\<lambda>resp.
     attempt (defined resp) (\<lambda>b.
     attempt (say [out_line ''Sent MSG0 to SP.'',
       out_line ''Trying to find out what the response MSG 0 is: -'']) (\<lambda>_.
     attempt (print_array (resp_body b) (resp_size b)) (\<lambda>_.
     app_select_key U b)))))))))"

text \<open>
  Creating the enclave and its context; \<open>n\<close> is \<open>enclave_lost_retry_time\<close>, tested and
  decremented when the enclave was lost.
\<close>

fun create_loop :: "'w sgx_urts \<Rightarrow> nat \<Rightarrow> ('w, sgx_status_t) app_stmt" where
  "create_loop U n fr =
     (attempt (say [out_line ''>>>> Creating the enclave.'']) (\<lambda>_.
      attempt (app_call (sgx_create_enclave U)) (\<lambda>(st, eid).
      attempt (fail_unless (st = SGX_SUCCESS) (Ret (-1))
        [out_line (in_main ''Error, call sgx_create_enclave fail.'')]) (\<lambda>_.
      attempt (modify (\<lambda>fr. fr\<lparr>enclave_id := (case eid of None \<Rightarrow> enclave_id fr | Some e \<Rightarrow> e)\<rparr>)) (\<lambda>_.
      attempt (say [out_line ''Call sgx_create_enclave success.'', out_line ''>>>> Starting RA process.'']) (\<lambda>_.
      attempt (reads enclave_id) (\<lambda>e.
      attempt (app_call (ecall_enclave_init_ra U e False)) (\<lambda>(r, stat, ctx).
      attempt (modify (\<lambda>fr. fr\<lparr>app_ret := Status r,
          app_status := (case stat of None \<Rightarrow> app_status fr | Some x \<Rightarrow> x),
          ra_context := (case ctx of None \<Rightarrow> ra_context fr | Some c \<Rightarrow> c)\<rparr>)) (\<lambda>_ fr.
      if r = SGX_ERROR_ENCLAVE_LOST then (case n of 0 \<Rightarrow> ok r fr | Suc k \<Rightarrow> create_loop U k fr)
      else ok r fr))))))))) fr"

definition app_create :: "'w sgx_urts \<Rightarrow> ('w, unit) app_stmt" where
  "app_create U =
     attempt (create_loop U 1) (\<lambda>r.
     attempt (reads app_status) (\<lambda>stat.
     attempt (fail_unless (r = SGX_SUCCESS \<and> stat = SGX_SUCCESS) (Ret (-1))
       [out_line (in_main ''Error, call enclave_init_ra fail.'')]) (\<lambda>_.
     say [out_line ''Call enclave_init_ra success.''])))"

text \<open>\<open>sizeof(sgx_ra_msg1_t)\<close> is 68: the SDK writes that many bytes over the body.\<close>

fun get_msg1_loop :: "'w sgx_urts \<Rightarrow> nat \<Rightarrow> ('w, sgx_status_t) app_stmt" where
  "get_msg1_loop U n fr =
     (attempt (reads (\<lambda>fr. (selected_key_id fr, ra_context fr, enclave_id fr))) (\<lambda>(key, ctx, eid).
      attempt (app_call (sgx_ra_get_msg1_ex U key ctx eid)) (\<lambda>(st, body).
      attempt (modify (\<lambda>fr. fr\<lparr>app_ret := Status st,
          p_msg1_full := map_option (\<lambda>r. r\<lparr>req_body := body\<rparr>) (p_msg1_full fr)\<rparr>)) (\<lambda>_ fr.
      if st = SGX_ERROR_BUSY then (case n of 0 \<Rightarrow> ok st fr | Suc k \<Rightarrow> get_msg1_loop U k fr)
      else ok st fr)))) fr"

definition app_prepare_msg1 :: "'w provider \<Rightarrow> 'w sgx_urts \<Rightarrow> ('w, ra_samp_request_header_t) app_stmt" where
  "app_prepare_msg1 p U =
     attempt (say [out_line ''>>>> Start generating MSG1.'']) (\<lambda>_.
     attempt (app_call (malloc (prov_lib p) (sizeof_request_header + 68))) (\<lambda>got.
     attempt (fail_unless got (Ret (-1)) []) (\<lambda>_.
     attempt (modify (\<lambda>fr. fr\<lparr>p_msg1_full := Some \<lparr>req_type = ra_msg_type_code TYPE_RA_MSG1, req_size = 68,
         req_align = replicate 3 0, req_body = replicate 68 0\<rparr>\<rparr>)) (\<lambda>_.
     attempt (get_msg1_loop U 4) (\<lambda>st.
     attempt (fail_unless (st = SGX_SUCCESS) (Ret (-1))
       [newline @ in_main ''Error, call sgx_ra_get_msg1_ex fail'' @ ''.'']) (\<lambda>_.
     attempt (say [out_line ''Call sgx_ra_get_msg1_ex success.'', out_line ''MSG1 body generated -'']) (\<lambda>_.
     attempt (reads p_msg1_full) (\<lambda>m.
     attempt (defined m) (\<lambda>req.
     attempt (print_array (req_body req) (req_size req)) (\<lambda>_.
     ok req))))))))))"

text \<open>Message 1 to the provider; a wrong response type jumps to \<open>CLEANUP\<close> with \<open>ret\<close> still 0.\<close>

definition app_exchange :: "'w provider \<Rightarrow> ra_samp_request_header_t \<Rightarrow> ('w, byte list) app_stmt" where
  "app_exchange p req =
     attempt (say [out_line (''>>>> Sending msg1 to SP. '' @ ''Expecting msg2 back.'')]) (\<lambda>_.
     attempt (send p req p_msg2_full_app_update) (\<lambda>code.
     attempt (reads p_msg2_full_app) (\<lambda>m2.
     attempt (goto_cleanup_unless (code = 0 \<and> m2 \<noteq> None)
       [newline @ in_main ''Error, ra_network_send_receive for msg1 failed'' @ ''.'']) (\<lambda>_.
     attempt (defined m2) (\<lambda>b.
     attempt (goto_cleanup_unless (resp_type b = ra_msg_type_code TYPE_RA_MSG2)
       [newline @ in_main (''Error, didn'' @ [CHR 0x27] @ ''t get MSG2 in response to MSG1'') @ ''.'']) (\<lambda>_.
     attempt (say [out_line (''Sent MSG1 to remote attestation service '' @
       ''provider. Received the following MSG2:'')]) (\<lambda>_.
     attempt (print_array b (of_nat sizeof_response_header + resp_size b)) (\<lambda>_.
     ok b))))))))"

fun proc_msg2_loop :: "'w sgx_urts \<Rightarrow> byte list \<Rightarrow> nat \<Rightarrow> ('w, sgx_status_t) app_stmt" where
  "proc_msg2_loop U m2 n fr =
     (attempt (reads (\<lambda>fr. (selected_key_id fr, ra_context fr, enclave_id fr))) (\<lambda>(key, ctx, eid).
      attempt (app_call (sgx_ra_proc_msg2_ex U key ctx eid m2)) (\<lambda>(st, m3).
      attempt (modify (\<lambda>fr. fr\<lparr>app_ret := Status st,
          p_msg3 := (case m3 of None \<Rightarrow> p_msg3 fr | Some (m, _) \<Rightarrow> Some m),
          msg3_size := (case m3 of None \<Rightarrow> msg3_size fr | Some (_, n) \<Rightarrow> n)\<rparr>)) (\<lambda>_ fr.
      if st = SGX_ERROR_BUSY then (case n of 0 \<Rightarrow> ok st fr | Suc k \<Rightarrow> proc_msg2_loop U m2 k fr)
      else ok st fr)))) fr"

definition exit_prompt :: string where
  "exit_prompt = out_line ''Enter a character before exit ...''"

text \<open>\<open>%p\<close> of a null pointer is printed as glibc does; \<open>getchar\<close> is left out.\<close>

definition app_msg3 :: "'w sgx_urts \<Rightarrow> byte list \<Rightarrow> ('w, unit) app_stmt" where
  "app_msg3 U b =
     attempt (proc_msg2_loop U (take (unat (resp_size b)) (resp_body b)) 2) (\<lambda>st.
     attempt (reads p_msg3) (\<lambda>m3.
     attempt (fail_unless (m3 \<noteq> None) (Ret (-1))
       [newline @ in_main (''Error, call sgx_ra_proc_msg2_ex fail. '' @ ''p_msg3 = 0x(nil)'') @ ''.'']) (\<lambda>_.
     attempt (fail_unless (st = SGX_SUCCESS) (Ret (-1))
       [newline @ in_main (''Error, call sgx_ra_proc_msg2_ex fail. '' @ ''ret = 0x'' @ hex8 (sgx_status_number U st)) @
          ''.'']) (\<lambda>_.
     attempt (say [out_line ''Call sgx_ra_proc_msg2_ex success.'', out_line ''MSG3 - '']) (\<lambda>_.
     attempt (defined m3) (\<lambda>msg3.
     attempt (reads msg3_size) (\<lambda>n.
     attempt (print_array msg3 n) (\<lambda>_.
     say [exit_prompt]))))))))"

definition app_body :: "'w provider \<Rightarrow> 'w sgx_urts \<Rightarrow> ('w, unit) app_stmt" where
  "app_body p U =
     attempt (app_msg0 p U) (\<lambda>_.
     attempt (app_create U) (\<lambda>_.
     attempt (app_prepare_msg1 p U) (\<lambda>req.
     attempt (app_exchange p req) (\<lambda>b.
     app_msg3 U b))))"

declare create_loop.simps [simp del] get_msg1_loop.simps [simp del] proc_msg2_loop.simps [simp del]

section \<open>\<open>CLEANUP\<close> and \<open>main\<close>\<close>

definition close_message :: string where
  "close_message = newline @ ''Call enclave_ra_close success.''"

text \<open>The success is reported whether or not the call succeeded.\<close>

definition close_context :: "'w sgx_urts \<Rightarrow> 'w app_frame \<Rightarrow> 'w app_frame" where
  "close_context U fr =
     (if ra_context fr = INT_MAX then fr
      else (case ecall_enclave_ra_close U (enclave_id fr) (ra_context fr) (sp_world (app_sp fr)) of
        ((r, stat), w) \<Rightarrow>
          let ret_save = app_ret fr;
              status' = (case stat of None \<Rightarrow> app_status fr | Some x \<Rightarrow> x);
              failed = (r \<noteq> SGX_SUCCESS \<or> status' \<noteq> SGX_SUCCESS)
          in fr\<lparr>app_sp := (app_sp fr)\<lparr>sp_world := w\<rparr>, app_status := status',
                app_ret := (if failed then Ret (-1) else ret_save),
                printed := printed fr @
                  (if failed then [newline @ in_main ''Error, call enclave_ra_close fail'' @ ''.''] else []) @
                  [close_message]\<rparr>))"

definition on_world :: "('w \<Rightarrow> 'w) \<Rightarrow> 'w app_frame \<Rightarrow> 'w app_frame" where
  "on_world f fr = fr\<lparr>app_sp := (app_sp fr)\<lparr>sp_world := f (sp_world (app_sp fr))\<rparr>\<rparr>"

text \<open>\<open>SAFE_FREE\<close> of a pointer field.\<close>

definition safe_free :: "'w provider \<Rightarrow> 'a option \<Rightarrow> 'w app_frame \<Rightarrow> 'w app_frame" where
  "safe_free p ptr fr = (if ptr \<noteq> None then on_world (free_block (prov_lib p)) fr else fr)"

definition free_response :: "'w provider \<Rightarrow> byte list option \<Rightarrow> 'w app_frame \<Rightarrow> 'w app_frame" where
  "free_response p resp fr = fr\<lparr>app_sp := ra_free_network_response_buffer p resp (app_sp fr)\<rparr>"

definition cleanup_banner :: string where
  "cleanup_banner = newline @ ''>>>> Something went wrong, starting Cleanup process.''"

definition app_cleanup :: "'w provider \<Rightarrow> 'w sgx_urts \<Rightarrow> 'w app_frame \<Rightarrow> 'w app_frame" where
  "app_cleanup p U fr =
     (let f0 = fr\<lparr>printed := printed fr @ [cleanup_banner]\<rparr>;
          f1 = close_context U f0;
          f2 = on_world (sgx_destroy_enclave U (enclave_id f1)) f1;
          f3 = (free_response p (p_msg0_resp_full f2) f2)\<lparr>p_msg0_resp_full := None\<rparr>;
          f4 = (free_response p (p_msg2_full_app f3) f3)\<lparr>p_msg2_full_app := None\<rparr>;
          f5 = (safe_free p (p_msg3 f4) f4)\<lparr>p_msg3 := None\<rparr>;
          f6 = (safe_free p (p_msg1_full f5) f5)\<lparr>p_msg1_full := None\<rparr>
      in (safe_free p (p_msg0_full f6) f6)\<lparr>p_msg0_full := None\<rparr>)"

text \<open>
  The exit status of \<open>main\<close>: \<open>ret\<close> on the success path; after \<open>CLEANUP\<close> the function ends
  without a \<open>return\<close>, which for \<open>main\<close> is 0.
\<close>

definition app_main :: "'w provider \<Rightarrow> 'w sgx_urts \<Rightarrow> 'w sp_state \<Rightarrow> (ub + ret_val) \<times> 'w app_frame" where
  "app_main p U s =
     (case app_body p U (app_start s) of
        (Inl Fault, fr) \<Rightarrow> (Inl Undefined, fr)
      | (Inl (Break _), fr) \<Rightarrow> (Inr (Ret 0), app_cleanup p U fr)
      | (Inr _, fr) \<Rightarrow> (Inr (app_ret fr), fr))"

end
