(* ===== verification/App_Correctness.thy ===== *)
theory App_Correctness
  imports Isv_App
begin

text \<open>
  What \<open>main\<close> of the attestation application guarantees: no undefined behaviour with a provider
  and an SDK that keep their contracts, the exit status, the bound on every retry loop, and who
  owns which heap block on each path.
\<close>

section \<open>Ownership\<close>

definition held_ptr :: "'a option \<Rightarrow> nat" where
  "held_ptr x = (if x = None then 0 else 1)"

lemma held_ptr_simps [simp]: "held_ptr None = 0" "held_ptr (Some x) = 1"
  by (simp_all add: held_ptr_def)

definition owned :: "'w app_frame \<Rightarrow> nat" where
  "owned fr = held_ptr (p_msg0_full fr) + held_ptr (p_msg0_resp_full fr) + held_ptr (p_msg1_full fr) +
     held_ptr (p_msg2_full_app fr) + held_ptr (p_msg3 fr)"

text \<open>The SDK leaves the heap alone, except that message 3 is a block it hands over on success.\<close>

definition urts_law :: "'w sgx_urts \<Rightarrow> ('w \<Rightarrow> nat) \<Rightarrow> bool" where
  "urts_law U blocks \<longleftrightarrow>
     (\<forall>b w. blocks (snd (sgx_select_att_key_id U b w)) = blocks w) \<and>
     (\<forall>w. blocks (snd (sgx_create_enclave U w)) = blocks w) \<and>
     (\<forall>e b w. blocks (snd (ecall_enclave_init_ra U e b w)) = blocks w) \<and>
     (\<forall>k c e w st body w'. sgx_ra_get_msg1_ex U k c e w = ((st, body), w') \<longrightarrow>
        blocks w' = blocks w \<and> length body = 68) \<and>
     (\<forall>k c e m w st m3 w'. sgx_ra_proc_msg2_ex U k c e m w = ((st, m3), w') \<longrightarrow>
        blocks w' = blocks w + held_ptr m3 \<and> (m3 \<noteq> None \<longleftrightarrow> st = SGX_SUCCESS) \<and>
        (\<forall>x n. m3 = Some (x, n) \<longrightarrow> unat n = length x)) \<and>
     (\<forall>e c w. blocks (snd (ecall_enclave_ra_close U e c w)) = blocks w) \<and>
     (\<forall>e w. blocks (sgx_destroy_enclave U e w) = blocks w)"

lemma urts_lawD:
  assumes "urts_law U blocks"
  shows "sgx_select_att_key_id U b w = (r1, w') \<Longrightarrow> blocks w' = blocks w"
    and "sgx_create_enclave U w = (r2, w') \<Longrightarrow> blocks w' = blocks w"
    and "ecall_enclave_init_ra U e f w = (r3, w') \<Longrightarrow> blocks w' = blocks w"
    and "sgx_ra_get_msg1_ex U k c e w = ((st, body), w') \<Longrightarrow> blocks w' = blocks w \<and> length body = 68"
    and "sgx_ra_proc_msg2_ex U k c e m w = ((st, m3), w') \<Longrightarrow>
      blocks w' = blocks w + held_ptr m3 \<and> (m3 \<noteq> None \<longleftrightarrow> st = SGX_SUCCESS) \<and> (\<forall>x n. m3 = Some (x, n) \<longrightarrow> unat n = length x)"
    and "ecall_enclave_ra_close U e c w = (r4, w') \<Longrightarrow> blocks w' = blocks w"
    and "blocks (sgx_destroy_enclave U e w) = blocks w"
  using assms unfolding urts_law_def by (metis snd_conv | blast)+

section \<open>The invariant of \<open>main\<close>\<close>

text \<open>
  \<open>app_inv\<close>: the provider keeps its contract and the frame owns every block allocated since the
  start.  \<open>stage k\<close> says which pointers are null before step \<open>k\<close> of the protocol.
\<close>

definition app_inv :: "('w \<Rightarrow> nat) \<Rightarrow> ('w \<Rightarrow> nat) \<Rightarrow> 'w provider \<Rightarrow> nat \<Rightarrow> 'w app_frame \<Rightarrow> bool" where
  "app_inv blocks ctxs p b0 fr \<longleftrightarrow>
     provider_inv blocks ctxs p (app_sp fr) \<and> blocks (sp_world (app_sp fr)) = b0 + owned fr"

definition stage :: "nat \<Rightarrow> 'w app_frame \<Rightarrow> bool" where
  "stage k fr \<longleftrightarrow>
     (p_msg0_full fr = None \<longleftrightarrow> k \<le> 0) \<and> (p_msg0_resp_full fr = None \<longleftrightarrow> k \<le> 1) \<and>
     (p_msg1_full fr = None \<longleftrightarrow> k \<le> 2) \<and> (p_msg2_full_app fr = None \<longleftrightarrow> k \<le> 3) \<and>
     (p_msg3 fr = None \<longleftrightarrow> k \<le> 4)"

definition aborts :: "('w \<Rightarrow> nat) \<Rightarrow> ('w \<Rightarrow> nat) \<Rightarrow> 'w provider \<Rightarrow> nat \<Rightarrow> stop \<Rightarrow> 'w app_frame \<Rightarrow> bool" where
  "aborts blocks ctxs p b0 e fr \<longleftrightarrow> e \<noteq> Fault \<and> app_inv blocks ctxs p b0 fr"

lemmas app_defs = app_inv_def owned_def stage_def aborts_def

lemma app_inv_upd [simp]:
  "app_inv blocks ctxs p b0 (fr\<lparr>app_ret := r\<rparr>) = app_inv blocks ctxs p b0 fr"
  "app_inv blocks ctxs p b0 (fr\<lparr>app_status := st\<rparr>) = app_inv blocks ctxs p b0 fr"
  "app_inv blocks ctxs p b0 (fr\<lparr>selected_key_id := key\<rparr>) = app_inv blocks ctxs p b0 fr"
  "app_inv blocks ctxs p b0 (fr\<lparr>enclave_id := e\<rparr>) = app_inv blocks ctxs p b0 fr"
  "app_inv blocks ctxs p b0 (fr\<lparr>ra_context := c\<rparr>) = app_inv blocks ctxs p b0 fr"
  "app_inv blocks ctxs p b0 (fr\<lparr>printed := out\<rparr>) = app_inv blocks ctxs p b0 fr"
  by (simp_all add: app_inv_def owned_def)

lemma stage_upd [simp]:
  "stage k (fr\<lparr>app_ret := r\<rparr>) = stage k fr" "stage k (fr\<lparr>app_status := st\<rparr>) = stage k fr"
  "stage k (fr\<lparr>selected_key_id := key\<rparr>) = stage k fr" "stage k (fr\<lparr>enclave_id := e\<rparr>) = stage k fr"
  "stage k (fr\<lparr>ra_context := c\<rparr>) = stage k fr" "stage k (fr\<lparr>printed := out\<rparr>) = stage k fr"
  "stage k (fr\<lparr>app_sp := s\<rparr>) = stage k fr"
  by (simp_all add: stage_def)

abbreviation (input) at_stage where
  "at_stage k blocks ctxs p b0 fr \<equiv> app_inv blocks ctxs p b0 fr \<and> stage k fr"

lemma fail_unless_triple:
  "(\<And>fr. P fr \<Longrightarrow> app_inv blocks ctxs p b0 fr) \<Longrightarrow>
   triple P (fail_unless c r msgs) (\<lambda>_ fr. P fr \<and> c) (aborts blocks ctxs p b0)"
  by (simp add: triple_def fail_unless_def aborts_def)

lemma goto_cleanup_triple:
  "(\<And>fr. P fr \<Longrightarrow> app_inv blocks ctxs p b0 fr) \<Longrightarrow>
   triple P (goto_cleanup_unless c msgs) (\<lambda>_ fr. P fr \<and> c) (aborts blocks ctxs p b0)"
  by (simp add: triple_def goto_cleanup_unless_def aborts_def)

lemma say_triple: "(\<And>fr out. P fr \<Longrightarrow> P (fr\<lparr>printed := out\<rparr>)) \<Longrightarrow> triple P (say msgs) (\<lambda>_. P) E"
  by (simp add: triple_def say_def modify_def)

lemma say_stage: "triple (at_stage k blocks ctxs p b0) (say msgs) (\<lambda>_. at_stage k blocks ctxs p b0) E"
  by (rule say_triple) simp

lemma fail_unless_stage:
  "triple (at_stage k blocks ctxs p b0) (fail_unless c r msgs) (\<lambda>_. at_stage k blocks ctxs p b0)
    (aborts blocks ctxs p b0)"
  by (rule triple_weaken [OF fail_unless_triple [of "at_stage k blocks ctxs p b0"]]) auto

lemma print_triple:
  assumes "unat len \<le> length array" and "\<And>fr out. P fr \<Longrightarrow> P (fr\<lparr>printed := out\<rparr>)"
  shows "triple P (print_array array len) (\<lambda>_. P) E"
proof -
  obtain out where "PRINT_BYTE_ARRAY (Some array) len = Some out"
    using PRINT_BYTE_ARRAY_defined [OF assms(1)] by blast
  then show ?thesis
    using assms(2) by (simp add: print_array_def say_def triple_def modify_def)
qed

text \<open>An SDK call that leaves the heap alone.\<close>

lemma app_inv_world:
  "blocks w = blocks (sp_world (app_sp fr)) \<Longrightarrow>
   app_inv blocks ctxs p b0 (fr\<lparr>app_sp := (app_sp fr)\<lparr>sp_world := w\<rparr>\<rparr>) = app_inv blocks ctxs p b0 fr"
  by (simp add: app_inv_def owned_def provider_inv_world)

lemma sdk_call_triple:
  assumes "\<And>w a w'. f w = (a, w') \<Longrightarrow> blocks w' = blocks w \<and> R a"
  shows "triple (at_stage k blocks ctxs p b0) (app_call f)
    (\<lambda>a fr. at_stage k blocks ctxs p b0 fr \<and> R a) E"
  unfolding app_call_def
  by (rule triple_on_part) (auto dest!: assms simp: app_inv_world)

lemma app_malloc_triple:
  "triple (at_stage k blocks ctxs p b0) (app_call (malloc (prov_lib p) n))
    (\<lambda>got fr. provider_inv blocks ctxs p (app_sp fr) \<and> stage k fr \<and>
       blocks (sp_world (app_sp fr)) = b0 + owned fr + (if got then 1 else 0)) E"
  unfolding app_call_def
proof (rule triple_on_part)
  fix fr got w
  assume fr: "at_stage k blocks ctxs p b0 fr" and run: "malloc (prov_lib p) n (sp_world (app_sp fr)) = (got, w)"
  then have "heap_law (prov_lib p) blocks"
    by (auto simp: app_inv_def provider_inv_def resource_laws_def)
  from heap_malloc [OF this run] fr
  show "provider_inv blocks ctxs p (app_sp (fr\<lparr>app_sp := (app_sp fr)\<lparr>sp_world := w\<rparr>\<rparr>)) \<and>
      stage k (fr\<lparr>app_sp := (app_sp fr)\<lparr>sp_world := w\<rparr>\<rparr>) \<and>
      blocks (sp_world (app_sp (fr\<lparr>app_sp := (app_sp fr)\<lparr>sp_world := w\<rparr>\<rparr>))) =
        b0 + owned (fr\<lparr>app_sp := (app_sp fr)\<lparr>sp_world := w\<rparr>\<rparr>) + (if got then 1 else 0)"
    by (simp add: app_inv_def provider_inv_world owned_def)
qed

lemma malloc_guard_triple:
  "triple (\<lambda>fr. provider_inv blocks ctxs p (app_sp fr) \<and> stage k fr \<and>
       blocks (sp_world (app_sp fr)) = b0 + owned fr + (if got then 1 else 0))
    (fail_unless got r msgs)
    (\<lambda>_ fr. provider_inv blocks ctxs p (app_sp fr) \<and> stage k fr \<and>
       blocks (sp_world (app_sp fr)) = b0 + owned fr + 1) (aborts blocks ctxs p b0)"
  by (auto simp: triple_def fail_unless_def aborts_def app_inv_def owned_def)

section \<open>The steps\<close>

lemma prepare_gid_triple:
  "triple (at_stage 0 blocks ctxs p b0) app_prepare_gid (\<lambda>_. at_stage 0 blocks ctxs p b0) E"
proof -
  have "triple (at_stage 0 blocks ctxs p b0) (modify (\<lambda>fr. fr\<lparr>app_ret := Ret 0\<rparr>)) (\<lambda>_. at_stage 0 blocks ctxs p b0) E"
    by (rule triple_modify) simp
  then show ?thesis
    unfolding app_prepare_gid_def
    by (intro triple_attempt [OF say_stage triple_attempt [OF _ triple_attempt [OF say_stage triple_ok]]])
qed

lemma prepare_msg0_triple:
  "triple (at_stage 0 blocks ctxs p b0) (app_prepare_msg0 p gid)
    (\<lambda>req fr. at_stage 1 blocks ctxs p b0 fr \<and> wf_request req) (aborts blocks ctxs p b0)"
proof -
  have store: "triple (\<lambda>fr. provider_inv blocks ctxs p (app_sp fr) \<and> stage 0 fr \<and>
        blocks (sp_world (app_sp fr)) = b0 + owned fr + 1)
      (modify (\<lambda>fr. fr\<lparr>p_msg0_full := Some req\<rparr>)) (\<lambda>_. at_stage 1 blocks ctxs p b0) E" for req E
    by (rule triple_modify) (simp add: app_defs)
  have show_it: "triple (at_stage 1 blocks ctxs p b0) (print_array (le32 gid) 4)
      (\<lambda>_. at_stage 1 blocks ctxs p b0) E" for E
    by (rule print_triple) simp_all
  show ?thesis
    unfolding app_prepare_msg0_def Let_def ra_samp_request_header_t.simps
    by (rule triple_attempt [OF say_stage triple_attempt [OF app_malloc_triple triple_attempt [OF malloc_guard_triple
            triple_attempt [OF store triple_attempt [OF say_stage triple_attempt [OF show_it triple_ok]]]]]])
      (simp add: wf_request_def)
qed

text \<open>Sending a request fills one pointer that was null.\<close>

lemma send_msg0_triple:
  assumes "wf_request req"
  shows "triple (at_stage 1 blocks ctxs p b0) (send p req p_msg0_resp_full_update)
    (\<lambda>code fr. if code = 0
       then at_stage 2 blocks ctxs p b0 fr \<and> (\<exists>b. p_msg0_resp_full fr = Some b \<and> sized_response b)
       else app_inv blocks ctxs p b0 fr) E"
  unfolding triple_def
proof (intro allI impI)
  fix fr assume fr: "at_stage 1 blocks ctxs p b0 fr"
  then have "provider_inv blocks ctxs p (app_sp fr)" by (simp add: app_inv_def)
  with send_receive_outcome [of blocks ctxs p "app_sp fr" "Some req" True True] assms
  obtain ret resp s' where "ra_network_send_receive p True (Some req) True (app_sp fr) = (Inr (ret, resp), s')"
    "provider_inv blocks ctxs p s'"
    "if ret = 0 then (\<exists>b. resp = Some (Some b) \<and> sized_response b) \<and>
       blocks (sp_world s') = Suc (blocks (sp_world (app_sp fr)))
     else resp = None \<and> blocks (sp_world s') = blocks (sp_world (app_sp fr))"
    by auto
  with fr show "case send p req p_msg0_resp_full_update fr of (Inl e, t) \<Rightarrow> E e t | (Inr code, fr) \<Rightarrow>
      if code = 0 then at_stage 2 blocks ctxs p b0 fr \<and> (\<exists>b. p_msg0_resp_full fr = Some b \<and> sized_response b)
      else app_inv blocks ctxs p b0 fr"
    by (auto simp: send_def app_defs split: if_splits)
qed

lemma send_msg1_triple:
  assumes "wf_request req"
  shows "triple (at_stage 3 blocks ctxs p b0) (send p req p_msg2_full_app_update)
    (\<lambda>code fr. if code = 0
       then at_stage 4 blocks ctxs p b0 fr \<and> (\<exists>b. p_msg2_full_app fr = Some b \<and> sized_response b)
       else app_inv blocks ctxs p b0 fr) E"
  unfolding triple_def
proof (intro allI impI)
  fix fr assume fr: "at_stage 3 blocks ctxs p b0 fr"
  then have "provider_inv blocks ctxs p (app_sp fr)" by (simp add: app_inv_def)
  with send_receive_outcome [of blocks ctxs p "app_sp fr" "Some req" True True] assms
  obtain ret resp s' where "ra_network_send_receive p True (Some req) True (app_sp fr) = (Inr (ret, resp), s')"
    "provider_inv blocks ctxs p s'"
    "if ret = 0 then (\<exists>b. resp = Some (Some b) \<and> sized_response b) \<and>
       blocks (sp_world s') = Suc (blocks (sp_world (app_sp fr)))
     else resp = None \<and> blocks (sp_world s') = blocks (sp_world (app_sp fr))"
    by auto
  with fr show "case send p req p_msg2_full_app_update fr of (Inl e, t) \<Rightarrow> E e t | (Inr code, fr) \<Rightarrow>
      if code = 0 then at_stage 4 blocks ctxs p b0 fr \<and> (\<exists>b. p_msg2_full_app fr = Some b \<and> sized_response b)
      else app_inv blocks ctxs p b0 fr"
    by (auto simp: send_def app_defs split: if_splits)
qed

lemma code_guard_triple:
  assumes "\<And>fr. P fr \<Longrightarrow> app_inv blocks ctxs p b0 fr"
  shows "triple (\<lambda>fr. if code = 0 then P fr else app_inv blocks ctxs p b0 fr) (goto_cleanup_unless (code = 0 \<and> c) msgs)
    (\<lambda>_ fr. P fr \<and> c) (aborts blocks ctxs p b0)"
  using assms by (auto simp: triple_def goto_cleanup_unless_def aborts_def)

lemma known_response_triple:
  assumes "\<And>b. sized_response b \<Longrightarrow> triple (\<lambda>fr. P fr \<and> get fr = Some b) (k (Some b)) Q E"
  shows "triple (\<lambda>fr. P fr \<and> (\<exists>b. get fr = Some b \<and> sized_response b)) (attempt (reads get) k) Q E"
  using assms by (fastforce simp: triple_def attempt_def reads_def)

lemma sized_response_body: "sized_response b \<Longrightarrow> length (resp_body b) = unat (resp_size b)"
  by (simp add: sized_response_def resp_body_def)

lemma select_key_triple:
  assumes "urts_law U blocks"
  shows "triple (at_stage 2 blocks ctxs p b0) (app_select_key U b) (\<lambda>_. at_stage 2 blocks ctxs p b0)
    (aborts blocks ctxs p b0)"
proof -
  have select: "triple (at_stage 2 blocks ctxs p b0) (app_call (sgx_select_att_key_id U m))
      (\<lambda>_ fr. at_stage 2 blocks ctxs p b0 fr) (aborts blocks ctxs p b0)" for m
    using sdk_call_triple [where f = "sgx_select_att_key_id U m" and R = "\<lambda>_. True"] urts_lawD(1) [OF assms]
    by (simp add: conj_assoc)
  show ?thesis
    unfolding app_select_key_def
    by (rule triple_attempt [OF say_stage], rule triple_attempt [OF select], clarify,
        rule triple_attempt [OF fail_unless_stage], rule triple_attempt [OF triple_modify say_stage]) simp
qed

lemma app_msg0_triple:
  assumes "urts_law U blocks"
  shows "triple (at_stage 0 blocks ctxs p b0) (app_msg0 p U) (\<lambda>_. at_stage 2 blocks ctxs p b0)
    (aborts blocks ctxs p b0)"
proof -
  have known: "triple (\<lambda>fr. at_stage 2 blocks ctxs p b0 fr \<and> p_msg0_resp_full fr = Some b)
      (attempt (defined (Some b)) (\<lambda>b. attempt (say msgs) (\<lambda>_.
       attempt (print_array (resp_body b) (resp_size b)) (\<lambda>_. app_select_key U b))))
      (\<lambda>_. at_stage 2 blocks ctxs p b0) (aborts blocks ctxs p b0)" if "sized_response b" for b msgs
  proof -
    have "unat (resp_size b) \<le> length (resp_body b)" using sized_response_body [OF that] by simp
    then have "triple (at_stage 2 blocks ctxs p b0) (print_array (resp_body b) (resp_size b))
        (\<lambda>_. at_stage 2 blocks ctxs p b0) (aborts blocks ctxs p b0)"
      by (rule print_triple) simp
    from triple_attempt [OF say_stage triple_attempt [OF this select_key_triple [OF assms]]]
    have "triple (at_stage 2 blocks ctxs p b0) (attempt (say msgs) (\<lambda>_.
        attempt (print_array (resp_body b) (resp_size b)) (\<lambda>_. app_select_key U b)))
      (\<lambda>_. at_stage 2 blocks ctxs p b0) (aborts blocks ctxs p b0)" .
    then show ?thesis unfolding attempt_defined_Some by (rule triple_weaken) auto
  qed
  have rest: "triple (at_stage 1 blocks ctxs p b0) (attempt (send p req p_msg0_resp_full_update) (\<lambda>code.
       attempt (goto_cleanup_unless (code = 0) err) (\<lambda>_. attempt (reads p_msg0_resp_full) (\<lambda>resp.
       attempt (defined resp) (\<lambda>b. attempt (say msgs) (\<lambda>_. attempt (print_array (resp_body b) (resp_size b)) (\<lambda>_.
       app_select_key U b)))))))
      (\<lambda>_. at_stage 2 blocks ctxs p b0) (aborts blocks ctxs p b0)" if "wf_request req" for req err msgs
    using triple_attempt [OF send_msg0_triple [OF that] triple_attempt [OF code_guard_triple [where c = True,
            simplified simp_thms] known_response_triple [OF known]]] by simp
  show ?thesis
    unfolding app_msg0_def
    by (rule triple_attempt [OF prepare_gid_triple], rule triple_attempt [OF prepare_msg0_triple],
        rule triple_and_pure, rule triple_attempt [OF say_stage rest])
qed

text \<open>Both loops over the enclave keep the stage; so does every round.\<close>

lemma create_loop_round:
  assumes "urts_law U blocks"
    and "\<And>r. triple (at_stage 2 blocks ctxs p b0) (\<lambda>fr.
        if r = SGX_ERROR_ENCLAVE_LOST then (case n of 0 \<Rightarrow> ok r fr | Suc k \<Rightarrow> create_loop U k fr) else ok r fr)
        (\<lambda>_. at_stage 2 blocks ctxs p b0) (aborts blocks ctxs p b0)"
  shows "triple (at_stage 2 blocks ctxs p b0) (create_loop U n) (\<lambda>_. at_stage 2 blocks ctxs p b0)
    (aborts blocks ctxs p b0)"
proof -
  have create: "triple (at_stage 2 blocks ctxs p b0) (app_call (sgx_create_enclave U))
      (\<lambda>_ fr. at_stage 2 blocks ctxs p b0 fr) (aborts blocks ctxs p b0)"
    using sdk_call_triple [where f = "sgx_create_enclave U" and R = "\<lambda>_. True"] urts_lawD(2) [OF assms(1)]
    by (simp add: conj_assoc)
  have init: "triple (at_stage 2 blocks ctxs p b0) (app_call (ecall_enclave_init_ra U e False))
      (\<lambda>_ fr. at_stage 2 blocks ctxs p b0 fr) (aborts blocks ctxs p b0)" for e
    using sdk_call_triple [where f = "ecall_enclave_init_ra U e False" and R = "\<lambda>_. True"] urts_lawD(3) [OF assms(1)]
    by (simp add: conj_assoc)
  have set_it: "triple (at_stage 2 blocks ctxs p b0) (modify f) (\<lambda>_. at_stage 2 blocks ctxs p b0)
      (aborts blocks ctxs p b0)"
    if "\<And>fr. at_stage 2 blocks ctxs p b0 fr \<Longrightarrow> at_stage 2 blocks ctxs p b0 (f fr)" for f
    using that by (rule triple_modify)
  have get: "triple (at_stage 2 blocks ctxs p b0) (reads g) (\<lambda>_. at_stage 2 blocks ctxs p b0)
      (aborts blocks ctxs p b0)" for g :: "'a app_frame \<Rightarrow> u64"
    by (rule triple_reads)
  have eq: "create_loop U n =
     attempt (say [out_line ''>>>> Creating the enclave.'']) (\<lambda>_.
      attempt (app_call (sgx_create_enclave U)) (\<lambda>(st, eid).
      attempt (fail_unless (st = SGX_SUCCESS) (Ret (-1))
        [out_line (in_main ''Error, call sgx_create_enclave fail.'')]) (\<lambda>_.
      attempt (modify (\<lambda>fr. fr\<lparr>enclave_id := (case eid of None \<Rightarrow> enclave_id fr | Some e \<Rightarrow> e)\<rparr>)) (\<lambda>_.
      attempt (say [out_line ''Call sgx_create_enclave success.'', out_line ''>>>> Starting RA process.'']) (\<lambda>_.
      attempt (reads enclave_id) (\<lambda>e.
      attempt (app_call (ecall_enclave_init_ra U e False)) (\<lambda>(r, stat, ctx).
      attempt (modify (\<lambda>fr. fr\<lparr>app_ret := Status r,
          app_status := (case stat of None \<Rightarrow> app_status fr | Some x \<Rightarrow> x),
          ra_context := (case ctx of None \<Rightarrow> ra_context fr | Some c \<Rightarrow> c)\<rparr>)) (\<lambda>_ fr.
      if r = SGX_ERROR_ENCLAVE_LOST then (case n of 0 \<Rightarrow> ok r fr | Suc k \<Rightarrow> create_loop U k fr)
      else ok r fr))))))))"
    by (rule ext) (subst create_loop.simps, rule refl)
  show ?thesis
    unfolding eq
    apply (rule triple_attempt [OF say_stage], rule triple_attempt [OF create], clarify)
    apply (rule triple_attempt [OF fail_unless_stage], rule triple_attempt [OF set_it], simp)
    apply (rule triple_attempt [OF say_stage], rule triple_attempt [OF get], rule triple_attempt [OF init], clarify)
    apply (rule triple_attempt [OF set_it], simp, rule assms(2))
    done
qed

lemma create_loop_triple:
  assumes "urts_law U blocks"
  shows "triple (at_stage 2 blocks ctxs p b0) (create_loop U n) (\<lambda>_. at_stage 2 blocks ctxs p b0)
    (aborts blocks ctxs p b0)"
proof (induction n)
  case 0
  show ?case by (rule create_loop_round [OF assms]) (simp add: triple_def ok_def)
next
  case (Suc n)
  then show ?case by (intro create_loop_round [OF assms]) (auto simp: triple_def ok_def)
qed

lemma app_create_triple:
  assumes "urts_law U blocks"
  shows "triple (at_stage 2 blocks ctxs p b0) (app_create U) (\<lambda>_. at_stage 2 blocks ctxs p b0)
    (aborts blocks ctxs p b0)"
  unfolding app_create_def
  by (rule triple_attempt [OF create_loop_triple [OF assms] triple_attempt [OF triple_reads
        triple_attempt [OF fail_unless_stage say_stage]]]) simp

text \<open>Message 1 in preparation: an allocated request of 68 bytes.\<close>

definition has_msg1 :: "'w app_frame \<Rightarrow> bool" where
  "has_msg1 fr \<longleftrightarrow> (\<exists>r. p_msg1_full fr = Some r \<and> req_type r = ra_msg_type_code TYPE_RA_MSG1 \<and>
     req_size r = 68 \<and> length (req_body r) = 68)"

definition msg1_prepared :: "('w \<Rightarrow> nat) \<Rightarrow> ('w \<Rightarrow> nat) \<Rightarrow> 'w provider \<Rightarrow> nat \<Rightarrow> 'w app_frame \<Rightarrow> bool" where
  "msg1_prepared blocks ctxs p b0 fr \<longleftrightarrow> at_stage 3 blocks ctxs p b0 fr \<and> has_msg1 fr"

lemma get_msg1_loop_triple:
  assumes "urts_law U blocks"
  shows "triple (msg1_prepared blocks ctxs p b0) (get_msg1_loop U n) (\<lambda>_. msg1_prepared blocks ctxs p b0)
    (aborts blocks ctxs p b0)"
proof (induction n)
  have get: "triple (msg1_prepared blocks ctxs p b0) (reads g) (\<lambda>_. msg1_prepared blocks ctxs p b0)
      (aborts blocks ctxs p b0)" for g :: "'a app_frame \<Rightarrow> byte list \<times> u32 \<times> u64"
    by (rule triple_reads)
  have call: "triple (msg1_prepared blocks ctxs p b0) (app_call (sgx_ra_get_msg1_ex U k c e))
      (\<lambda>x fr. msg1_prepared blocks ctxs p b0 fr \<and> length (snd x) = 68) (aborts blocks ctxs p b0)" for k c e
    unfolding app_call_def
    by (rule triple_on_part)
      (auto simp: msg1_prepared_def has_msg1_def app_inv_world dest: urts_lawD(4) [OF assms])
  have store: "triple (\<lambda>fr. msg1_prepared blocks ctxs p b0 fr \<and> length body = 68)
      (modify (\<lambda>fr. fr\<lparr>app_ret := r, p_msg1_full := map_option (\<lambda>r. r\<lparr>req_body := body\<rparr>) (p_msg1_full fr)\<rparr>))
      (\<lambda>_. msg1_prepared blocks ctxs p b0) (aborts blocks ctxs p b0)" for body r
    by (rule triple_modify) (auto simp: msg1_prepared_def has_msg1_def app_defs)
  have round: "triple (msg1_prepared blocks ctxs p b0) (get_msg1_loop U n) (\<lambda>_. msg1_prepared blocks ctxs p b0)
      (aborts blocks ctxs p b0)"
    if again: "\<And>st. triple (msg1_prepared blocks ctxs p b0) (\<lambda>fr.
        if st = SGX_ERROR_BUSY then (case n of 0 \<Rightarrow> ok st fr | Suc k \<Rightarrow> get_msg1_loop U k fr) else ok st fr)
        (\<lambda>_. msg1_prepared blocks ctxs p b0) (aborts blocks ctxs p b0)" for n
  proof -
    have eq: "get_msg1_loop U n =
       attempt (reads (\<lambda>fr. (selected_key_id fr, ra_context fr, enclave_id fr))) (\<lambda>(key, ctx, eid).
        attempt (app_call (sgx_ra_get_msg1_ex U key ctx eid)) (\<lambda>(st, body).
        attempt (modify (\<lambda>fr. fr\<lparr>app_ret := Status st,
            p_msg1_full := map_option (\<lambda>r. r\<lparr>req_body := body\<rparr>) (p_msg1_full fr)\<rparr>)) (\<lambda>_ fr.
        if st = SGX_ERROR_BUSY then (case n of 0 \<Rightarrow> ok st fr | Suc k \<Rightarrow> get_msg1_loop U k fr)
        else ok st fr)))"
      by (rule ext) (subst get_msg1_loop.simps, rule refl)
    show ?thesis
      unfolding eq
      by (rule triple_attempt [OF get], clarify, rule triple_attempt [OF call], clarify, unfold snd_conv)
        (rule triple_attempt [OF store again])
  qed
  case 0
  show ?case by (rule round) (simp add: triple_def ok_def)
  case (Suc n)
  then show ?case by (intro round) (auto simp: triple_def ok_def)
qed

lemma prepare_msg1_sets:
  assumes "urts_law U blocks"
  shows "triple (at_stage 2 blocks ctxs p b0) (app_prepare_msg1 p U)
    (\<lambda>req fr. msg1_prepared blocks ctxs p b0 fr \<and> p_msg1_full fr = Some req) (aborts blocks ctxs p b0)"
proof -
  have store: "triple (\<lambda>fr. provider_inv blocks ctxs p (app_sp fr) \<and> stage 2 fr \<and>
        blocks (sp_world (app_sp fr)) = b0 + owned fr + 1)
      (modify (\<lambda>fr. fr\<lparr>p_msg1_full := Some \<lparr>req_type = ra_msg_type_code TYPE_RA_MSG1, req_size = 68,
         req_align = replicate 3 0, req_body = replicate 68 0\<rparr>\<rparr>)) (\<lambda>_. msg1_prepared blocks ctxs p b0) E" for E
    by (rule triple_modify) (simp add: msg1_prepared_def has_msg1_def app_defs)
  have check: "triple (msg1_prepared blocks ctxs p b0) (fail_unless c r msgs) (\<lambda>_. msg1_prepared blocks ctxs p b0)
      (aborts blocks ctxs p b0)" for c r msgs
    by (rule triple_weaken [OF fail_unless_triple [of "msg1_prepared blocks ctxs p b0"]])
      (auto simp: msg1_prepared_def)
  have tell: "triple (msg1_prepared blocks ctxs p b0) (say msgs) (\<lambda>_. msg1_prepared blocks ctxs p b0)
      (aborts blocks ctxs p b0)" for msgs
    by (rule say_triple) (simp add: msg1_prepared_def has_msg1_def)
  have show_it: "triple (msg1_prepared blocks ctxs p b0)
      (attempt (reads p_msg1_full) (\<lambda>m. attempt (defined m) (\<lambda>req.
         attempt (print_array (req_body req) (req_size req)) (\<lambda>_. ok req))))
      (\<lambda>req fr. msg1_prepared blocks ctxs p b0 fr \<and> p_msg1_full fr = Some req) (aborts blocks ctxs p b0)"
  proof (rule triple_from)
    fix fr :: "'a app_frame"
    assume inv: "msg1_prepared blocks ctxs p b0 fr"
    then obtain r where r: "p_msg1_full fr = Some r" "req_size r = 68" "length (req_body r) = 68"
      by (auto simp: msg1_prepared_def has_msg1_def)
    obtain out where "PRINT_BYTE_ARRAY (Some (req_body r)) (req_size r) = Some out"
      using PRINT_BYTE_ARRAY_defined [of "req_size r" "req_body r"] r by auto
    with inv r show "triple (\<lambda>s. s = fr)
      (attempt (reads p_msg1_full) (\<lambda>m. attempt (defined m) (\<lambda>req.
         attempt (print_array (req_body req) (req_size req)) (\<lambda>_. ok req))))
      (\<lambda>req fr. msg1_prepared blocks ctxs p b0 fr \<and> p_msg1_full fr = Some req) (aborts blocks ctxs p b0)"
      by (simp add: triple_def attempt_def reads_def defined_def print_array_def say_def modify_def ok_def
          msg1_prepared_def has_msg1_def)
  qed
  show ?thesis
    unfolding app_prepare_msg1_def
    by (rule triple_attempt [OF say_stage triple_attempt [OF app_malloc_triple triple_attempt [OF malloc_guard_triple
            triple_attempt [OF store triple_attempt [OF get_msg1_loop_triple [OF assms]
                triple_attempt [OF check triple_attempt [OF tell show_it]]]]]]])
qed

lemma prepare_msg1_triple:
  assumes "urts_law U blocks"
  shows "triple (at_stage 2 blocks ctxs p b0) (app_prepare_msg1 p U)
    (\<lambda>req fr. at_stage 3 blocks ctxs p b0 fr \<and> wf_request req) (aborts blocks ctxs p b0)"
  by (rule triple_weaken [OF prepare_msg1_sets [OF assms]])
    (auto simp: msg1_prepared_def has_msg1_def wf_request_def)

text \<open>A response as long as its header says can be printed in full.\<close>

lemma response_printable:
  assumes "sized_response b"
  shows "\<exists>out. PRINT_BYTE_ARRAY (Some b) (8 + resp_size b) = Some out"
proof -
  have "unat (8 + resp_size b) \<le> length b"
    using assms by (simp add: sized_response_def unat_word_ariths)
  then show ?thesis using PRINT_BYTE_ARRAY_defined by blast
qed

lemma app_exchange_triple:
  assumes "wf_request req"
  shows "triple (at_stage 3 blocks ctxs p b0) (app_exchange p req)
    (\<lambda>b. at_stage 4 blocks ctxs p b0) (aborts blocks ctxs p b0)"
  unfolding app_exchange_def
proof (rule triple_attempt [OF say_stage triple_attempt [OF send_msg1_triple [OF assms]]], rule triple_from)
  fix code and fr :: "'a app_frame"
  assume fr: "if code = 0 then at_stage 4 blocks ctxs p b0 fr \<and> (\<exists>b. p_msg2_full_app fr = Some b \<and> sized_response b)
    else app_inv blocks ctxs p b0 fr"
  show "triple (\<lambda>s. s = fr)
     (attempt (reads p_msg2_full_app) (\<lambda>m2.
      attempt (goto_cleanup_unless (code = 0 \<and> m2 \<noteq> None)
        [newline @ in_main ''Error, ra_network_send_receive for msg1 failed'' @ ''.'']) (\<lambda>_.
      attempt (defined m2) (\<lambda>b.
      attempt (goto_cleanup_unless (resp_type b = ra_msg_type_code TYPE_RA_MSG2)
        [newline @ in_main (''Error, didn'' @ [CHR 0x27] @ ''t get MSG2 in response to MSG1'') @ ''.'']) (\<lambda>_.
      attempt (say [out_line (''Sent MSG1 to remote attestation service '' @
        ''provider. Received the following MSG2:'')]) (\<lambda>_.
      attempt (print_array b (of_nat sizeof_response_header + resp_size b)) (\<lambda>_.
      ok b)))))))
     (\<lambda>b. at_stage 4 blocks ctxs p b0) (aborts blocks ctxs p b0)"
  proof (cases "code = 0")
    case False
    with fr show ?thesis
      by (simp add: triple_def attempt_def reads_def goto_cleanup_unless_def aborts_def)
  next
    case True
    with fr obtain b where b: "p_msg2_full_app fr = Some b" "sized_response b" by auto
    obtain out where "PRINT_BYTE_ARRAY (Some b) (8 + resp_size b) = Some out"
      using response_printable [OF b(2)] by blast
    with fr True b(1) show ?thesis
      by (auto simp: triple_def attempt_def reads_def goto_cleanup_unless_def aborts_def defined_def
          print_array_def say_def modify_def ok_def)
  qed
qed

lemma stage5_owned: "stage 5 fr \<Longrightarrow> owned fr = 5"
  by (simp add: stage_def owned_def held_ptr_def)

text \<open>Message 3 is handed over exactly when the last call succeeded.\<close>

definition msg3_outcome ::
  "('w \<Rightarrow> nat) \<Rightarrow> ('w \<Rightarrow> nat) \<Rightarrow> 'w provider \<Rightarrow> nat \<Rightarrow> sgx_status_t \<Rightarrow> 'w app_frame \<Rightarrow> bool" where
  "msg3_outcome blocks ctxs p b0 st fr \<longleftrightarrow> app_inv blocks ctxs p b0 fr \<and>
     (if st = SGX_SUCCESS then stage 5 fr \<and> unat (msg3_size fr) = length (the (p_msg3 fr)) else stage 4 fr)"

text \<open>Message 3 from the SDK: a block the frame does not own yet.\<close>

definition msg3_received ::
  "('w \<Rightarrow> nat) \<Rightarrow> ('w \<Rightarrow> nat) \<Rightarrow> 'w provider \<Rightarrow> nat \<Rightarrow> sgx_status_t \<times> (byte list \<times> u32) option \<Rightarrow> 'w app_frame \<Rightarrow> bool" where
  "msg3_received blocks ctxs p b0 x fr \<longleftrightarrow> provider_inv blocks ctxs p (app_sp fr) \<and> stage 4 fr \<and>
     blocks (sp_world (app_sp fr)) = b0 + owned fr + held_ptr (snd x) \<and>
     (snd x \<noteq> None \<longleftrightarrow> fst x = SGX_SUCCESS) \<and> (\<forall>y n. snd x = Some (y, n) \<longrightarrow> unat n = length y)"

lemma proc_msg2_call_triple:
  assumes "urts_law U blocks"
  shows "triple (at_stage 4 blocks ctxs p b0) (app_call (sgx_ra_proc_msg2_ex U k c e m))
    (msg3_received blocks ctxs p b0) E"
  unfolding app_call_def
proof (rule triple_on_part)
  fix fr x w
  assume fr: "at_stage 4 blocks ctxs p b0 fr" and "sgx_ra_proc_msg2_ex U k c e m (sp_world (app_sp fr)) = (x, w)"
  then have "sgx_ra_proc_msg2_ex U k c e m (sp_world (app_sp fr)) = ((fst x, snd x), w)" by simp
  from urts_lawD(5) [OF assms this] fr
  show "msg3_received blocks ctxs p b0 x (fr\<lparr>app_sp := (app_sp fr)\<lparr>sp_world := w\<rparr>\<rparr>)"
    by (simp add: msg3_received_def app_inv_def provider_inv_world owned_def)
qed

lemma msg3_store_triple:
  "triple (msg3_received blocks ctxs p b0 (st, m3))
    (modify (\<lambda>fr. fr\<lparr>app_ret := Status st, p_msg3 := (case m3 of None \<Rightarrow> p_msg3 fr | Some (m, _) \<Rightarrow> Some m),
        msg3_size := (case m3 of None \<Rightarrow> msg3_size fr | Some (_, n) \<Rightarrow> n)\<rparr>))
    (\<lambda>_. msg3_outcome blocks ctxs p b0 st) E"
  by (rule triple_modify) (cases m3, auto simp: msg3_received_def msg3_outcome_def app_defs)

lemma proc_msg2_loop_round:
  assumes "urts_law U blocks"
    and again: "\<And>st. triple (msg3_outcome blocks ctxs p b0 st) (\<lambda>fr.
      if st = SGX_ERROR_BUSY then (case n of 0 \<Rightarrow> ok st fr | Suc k \<Rightarrow> proc_msg2_loop U m k fr) else ok st fr)
      (msg3_outcome blocks ctxs p b0) (aborts blocks ctxs p b0)"
  shows "triple (at_stage 4 blocks ctxs p b0) (proc_msg2_loop U m n) (msg3_outcome blocks ctxs p b0)
    (aborts blocks ctxs p b0)"
proof -
  have get: "triple (at_stage 4 blocks ctxs p b0) (reads g) (\<lambda>_. at_stage 4 blocks ctxs p b0)
      (aborts blocks ctxs p b0)" for g :: "'a app_frame \<Rightarrow> byte list \<times> u32 \<times> u64"
    by (rule triple_reads)
  have eq: "proc_msg2_loop U m n =
     attempt (reads (\<lambda>fr. (selected_key_id fr, ra_context fr, enclave_id fr))) (\<lambda>(key, ctx, eid).
      attempt (app_call (sgx_ra_proc_msg2_ex U key ctx eid m)) (\<lambda>(st, m3).
      attempt (modify (\<lambda>fr. fr\<lparr>app_ret := Status st,
          p_msg3 := (case m3 of None \<Rightarrow> p_msg3 fr | Some (m, _) \<Rightarrow> Some m),
          msg3_size := (case m3 of None \<Rightarrow> msg3_size fr | Some (_, n) \<Rightarrow> n)\<rparr>)) (\<lambda>_ fr.
      if st = SGX_ERROR_BUSY then (case n of 0 \<Rightarrow> ok st fr | Suc k \<Rightarrow> proc_msg2_loop U m k fr)
      else ok st fr)))"
    by (rule ext) (subst proc_msg2_loop.simps, rule refl)
  show ?thesis
    unfolding eq
    by (rule triple_attempt [OF get], clarify, rule triple_attempt [OF proc_msg2_call_triple [OF assms(1)]], clarify)
      (rule triple_attempt [OF msg3_store_triple again])
qed

lemma proc_msg2_loop_triple:
  assumes "urts_law U blocks"
  shows "triple (at_stage 4 blocks ctxs p b0) (proc_msg2_loop U m n) (msg3_outcome blocks ctxs p b0)
    (aborts blocks ctxs p b0)"
proof (induction n)
  case 0
  show ?case by (rule proc_msg2_loop_round [OF assms]) (simp add: triple_def ok_def)
next
  case (Suc n)
  have "triple (msg3_outcome blocks ctxs p b0 SGX_ERROR_BUSY) (proc_msg2_loop U m n)
      (msg3_outcome blocks ctxs p b0) (aborts blocks ctxs p b0)"
    by (rule triple_weaken [OF Suc.IH]) (simp add: msg3_outcome_def)
  then show ?case by (intro proc_msg2_loop_round [OF assms]) (auto simp: triple_def ok_def)
qed

lemma app_msg3_triple:
  assumes "urts_law U blocks"
  shows "triple (at_stage 4 blocks ctxs p b0) (app_msg3 U b) (\<lambda>_. at_stage 5 blocks ctxs p b0)
    (aborts blocks ctxs p b0)"
  unfolding app_msg3_def
proof (rule triple_attempt [OF proc_msg2_loop_triple [OF assms]], rule triple_from)
  fix st and fr :: "'a app_frame"
  assume fr: "msg3_outcome blocks ctxs p b0 st fr"
  show "triple (\<lambda>s. s = fr)
     (attempt (reads p_msg3) (\<lambda>m3.
      attempt (fail_unless (m3 \<noteq> None) (Ret (-1))
        [newline @ in_main (''Error, call sgx_ra_proc_msg2_ex fail. '' @ ''p_msg3 = 0x(nil)'') @ ''.'']) (\<lambda>_.
      attempt (fail_unless (st = SGX_SUCCESS) (Ret (-1))
        [newline @ in_main (''Error, call sgx_ra_proc_msg2_ex fail. '' @ ''ret = 0x'' @ hex8 (sgx_status_number U st)) @
          ''.'']) (\<lambda>_.
      attempt (say [out_line ''Call sgx_ra_proc_msg2_ex success.'', out_line ''MSG3 - '']) (\<lambda>_.
      attempt (defined m3) (\<lambda>msg3. attempt (reads msg3_size) (\<lambda>n. attempt (print_array msg3 n) (\<lambda>_.
      say [exit_prompt]))))))))
     (\<lambda>_. at_stage 5 blocks ctxs p b0) (aborts blocks ctxs p b0)"
  proof (cases "st = SGX_SUCCESS")
    case False
    with fr show ?thesis
      by (auto simp: triple_def attempt_def reads_def fail_unless_def aborts_def msg3_outcome_def
          split: prod.split sum.split)
  next
    case True
    with fr obtain m3 where m3: "p_msg3 fr = Some m3" "unat (msg3_size fr) \<le> length m3"
      by (auto simp: msg3_outcome_def stage_def)
    then obtain out where "PRINT_BYTE_ARRAY (Some m3) (msg3_size fr) = Some out"
      using PRINT_BYTE_ARRAY_defined by blast
    with fr True m3(1) show ?thesis
      by (auto simp: triple_def attempt_def reads_def fail_unless_def defined_def
          print_array_def say_def modify_def msg3_outcome_def)
  qed
qed

lemma app_body_triple:
  assumes "urts_law U blocks"
  shows "triple (at_stage 0 blocks ctxs p b0) (app_body p U) (\<lambda>_. at_stage 5 blocks ctxs p b0)
    (aborts blocks ctxs p b0)"
  unfolding app_body_def
  by (rule triple_attempt [OF app_msg0_triple [OF assms] triple_attempt [OF app_create_triple [OF assms]
        triple_attempt [OF prepare_msg1_triple [OF assms]]]], rule triple_and_pure)
    (rule triple_attempt [OF app_exchange_triple app_msg3_triple [OF assms]])

section \<open>Clean-up\<close>

lemma app_inv_on_world:
  "blocks (f (sp_world (app_sp fr))) = blocks (sp_world (app_sp fr)) \<Longrightarrow>
   app_inv blocks ctxs p b0 (on_world f fr) = app_inv blocks ctxs p b0 fr"
  by (simp add: on_world_def app_inv_world)

lemma close_context_inv:
  assumes "urts_law U blocks" "app_inv blocks ctxs p b0 fr"
  shows "app_inv blocks ctxs p b0 (close_context U fr)"
proof (cases "ra_context fr = INT_MAX")
  case True
  with assms show ?thesis by (simp add: close_context_def)
next
  case False
  obtain r stat w where run: "ecall_enclave_ra_close U (enclave_id fr) (ra_context fr) (sp_world (app_sp fr)) = ((r, stat), w)"
    by (metis prod.exhaust)
  with False assms urts_lawD(6) [OF assms(1) run] show ?thesis
    by (simp add: close_context_def Let_def app_inv_world)
qed

text \<open>Releasing a pointer and nulling it keeps the invariant; each pointer counts once.\<close>

lemma free_inv:
  assumes "app_inv blocks ctxs p b0 fr"
  shows "app_inv blocks ctxs p b0 ((free_response p (p_msg0_resp_full fr) fr)\<lparr>p_msg0_resp_full := None\<rparr>)"
    and "app_inv blocks ctxs p b0 ((free_response p (p_msg2_full_app fr) fr)\<lparr>p_msg2_full_app := None\<rparr>)"
    and "app_inv blocks ctxs p b0 ((safe_free p (p_msg3 fr) fr)\<lparr>p_msg3 := None\<rparr>)"
    and "app_inv blocks ctxs p b0 ((safe_free p (p_msg1_full fr) fr)\<lparr>p_msg1_full := None\<rparr>)"
    and "app_inv blocks ctxs p b0 ((safe_free p (p_msg0_full fr) fr)\<lparr>p_msg0_full := None\<rparr>)"
proof -
  have heap: "heap_law (prov_lib p) blocks"
    using assms by (auto simp: app_inv_def provider_inv_def resource_laws_def)
  note free = heap_free [OF heap]
  show "app_inv blocks ctxs p b0 ((free_response p (p_msg0_resp_full fr) fr)\<lparr>p_msg0_resp_full := None\<rparr>)"
    "app_inv blocks ctxs p b0 ((free_response p (p_msg2_full_app fr) fr)\<lparr>p_msg2_full_app := None\<rparr>)"
    using assms by (auto simp: free_response_def ra_free_network_response_buffer_def app_inv_def owned_def
        provider_inv_world free)
  show "app_inv blocks ctxs p b0 ((safe_free p (p_msg3 fr) fr)\<lparr>p_msg3 := None\<rparr>)"
    "app_inv blocks ctxs p b0 ((safe_free p (p_msg1_full fr) fr)\<lparr>p_msg1_full := None\<rparr>)"
    "app_inv blocks ctxs p b0 ((safe_free p (p_msg0_full fr) fr)\<lparr>p_msg0_full := None\<rparr>)"
    using assms by (auto simp: safe_free_def on_world_def app_inv_def owned_def provider_inv_world free)
qed

lemma cleanup_inv:
  assumes "urts_law U blocks" "app_inv blocks ctxs p b0 fr"
  shows "app_inv blocks ctxs p b0 (app_cleanup p U fr)"
  unfolding app_cleanup_def Let_def
  by (intro free_inv, subst app_inv_on_world)
    (simp_all add: urts_lawD(7) [OF assms(1)] close_context_inv [OF assms(1)] assms(2))

lemma cleanup_owned: "owned (app_cleanup p U fr) = 0"
  by (simp add: app_cleanup_def Let_def owned_def free_response_def safe_free_def on_world_def)

section \<open>\<open>main\<close>\<close>

lemma body_end_cases:
  assumes "urts_law U blocks" "provider_inv blocks ctxs p s"
  obtains (cleanup) e fr where "app_body p U (app_start s) = (Inl (Break e), fr)"
      "app_inv blocks ctxs p (blocks (sp_world s)) fr"
  | (finished) fr where "app_body p U (app_start s) = (Inr (), fr)"
      "app_inv blocks ctxs p (blocks (sp_world s)) fr" "stage 5 fr"
proof -
  have "at_stage 0 blocks ctxs p (blocks (sp_world s)) (app_start s)"
    using assms(2) by (simp add: app_defs app_start_def)
  from tripleD [OF app_body_triple [OF assms(1)] this] show ?thesis
  proof (elim disjE exE conjE)
    fix e t assume "app_body p U (app_start s) = (Inl e, t)" "aborts blocks ctxs p (blocks (sp_world s)) e t"
    then show ?thesis by (cases e) (auto simp: aborts_def intro: that(1))
  qed (auto intro: that(2))
qed

text \<open>On the success path \<open>ret\<close> is the status of the last SDK call.\<close>

lemma proc_msg2_loop_ret:
  "proc_msg2_loop U m n fr = (Inr st, fr') \<Longrightarrow> app_ret fr' = Status st"
proof (induction n arbitrary: fr)
  case 0
  then show ?case
    by (subst (asm) proc_msg2_loop.simps)
      (auto simp: attempt_def reads_def app_call_def on_part_def modify_def ok_def split: prod.splits if_splits)
next
  case (Suc n)
  from Suc.prems show ?case
    by (subst (asm) proc_msg2_loop.simps)
      (auto simp: attempt_def reads_def app_call_def on_part_def modify_def ok_def
        split: prod.splits if_splits intro: Suc.IH)
qed

lemma app_msg3_ret:
  "app_msg3 U b fr = (Inr (), fr') \<Longrightarrow> app_ret fr' = Status SGX_SUCCESS"
  by (auto simp: app_msg3_def attempt_Inr_iff reads_def fail_unless_def defined_def print_array_def say_def modify_def
      dest!: proc_msg2_loop_ret split: if_splits option.splits)

lemma body_ret:
  "app_body p U fr = (Inr (), fr') \<Longrightarrow> app_ret fr' = Status SGX_SUCCESS"
  by (auto simp: app_body_def attempt_Inr_iff dest: app_msg3_ret)

text \<open>C23: The application has no undefined behaviour with a provider and an SDK that keep their contracts: no pointer
  is dereferenced before it is set, no array is printed past its end, and the run ends.\<close>

theorem app_main_safe:
  assumes "urts_law U blocks" "provider_inv blocks ctxs p s"
  shows "\<exists>r fr. app_main p U s = (Inr r, fr) \<and> provider_inv blocks ctxs p (app_sp fr)"
proof (cases rule: body_end_cases [OF assms, case_names cleanup finished])
  case (cleanup e fr)
  then show ?thesis
    using cleanup_inv [OF assms(1) cleanup(2)] by (simp add: app_main_def app_inv_def)
next
  case (finished fr)
  then show ?thesis by (simp add: app_main_def app_inv_def)
qed

text \<open>C24: The heap on each path: after \<open>CLEANUP\<close> every block allocated since the start is free again and every
  pointer null; the success path returns without cleaning up and leaks exactly its five messages.\<close>

theorem app_main_heap:
  assumes "urts_law U blocks" "provider_inv blocks ctxs p s" "app_main p U s = (Inr r, fr)"
  shows "if fst (app_body p U (app_start s)) = Inr ()
    then owned fr = 5 \<and> blocks (sp_world (app_sp fr)) = blocks (sp_world s) + 5
    else owned fr = 0 \<and> blocks (sp_world (app_sp fr)) = blocks (sp_world s)"
proof (cases rule: body_end_cases [OF assms(1,2), case_names cleanup finished])
  case (cleanup e fr')
  then have "fr = app_cleanup p U fr'" using assms(3) by (simp add: app_main_def)
  with cleanup cleanup_inv [OF assms(1) cleanup(2)] show ?thesis by (simp add: app_inv_def cleanup_owned)
next
  case (finished fr')
  then have "fr = fr'" using assms(3) by (simp add: app_main_def)
  with finished stage5_owned [OF finished(3)] show ?thesis by (simp add: app_inv_def)
qed

text \<open>What is printed last: the prompt on the success path, a message of \<open>CLEANUP\<close> after a jump to it.\<close>

lemma body_prompt:
  "app_body p U fr = (Inr (), fr') \<Longrightarrow> p_msg3 fr' \<noteq> None \<and> last (printed fr') = exit_prompt"
  by (auto simp: app_body_def app_msg3_def attempt_Inr_iff reads_def fail_unless_def defined_def print_array_def
      say_def modify_def split: if_splits option.splits)

lemma cleanup_prints:
  "p_msg3 (app_cleanup p U fr) = None \<and> last (printed (app_cleanup p U fr)) \<in> {cleanup_banner, close_message}"
  by (auto simp: app_cleanup_def Let_def free_response_def safe_free_def on_world_def close_context_def
      split: prod.split)

text \<open>A failure to close the context is reported, and then its success.\<close>

lemma close_context_prints:
  assumes "ra_context fr \<noteq> INT_MAX"
    and "ecall_enclave_ra_close U (enclave_id fr) (ra_context fr) (sp_world (app_sp fr)) = ((r, stat), w)"
    and "r \<noteq> SGX_SUCCESS \<or> (case stat of None \<Rightarrow> app_status fr | Some x \<Rightarrow> x) \<noteq> SGX_SUCCESS"
  shows "printed (close_context U fr) = printed fr @
    [newline @ in_main ''Error, call enclave_ra_close fail'' @ ''.'', close_message]"
  using assms by (simp add: close_context_def Let_def)

lemma last_messages_distinct: "cleanup_banner \<noteq> exit_prompt" "close_message \<noteq> exit_prompt"
  by (simp_all add: cleanup_banner_def close_message_def exit_prompt_def out_line_def)

text \<open>
  C25: The exit status says nothing, the output does: whether the attestation succeeded or was
  abandoned, \<open>main\<close> exits with 0, because \<open>CLEANUP\<close> runs off the end of the function and its \<open>ret\<close>
  is dropped; but the prompt to exit is the last line printed exactly when there is a message 3.
\<close>

theorem app_main_exit_zero:
  "case app_main p U s of (Inl Undefined, fr) \<Rightarrow> True
   | (Inr r, fr) \<Rightarrow> ret_zero r \<and> (last (printed fr) = exit_prompt \<longleftrightarrow> p_msg3 fr \<noteq> None)"
proof (cases "app_body p U (app_start s)")
  case (Pair r fr)
  then show ?thesis
    using body_ret [of p U "app_start s" fr] body_prompt [of p U "app_start s" fr] cleanup_prints [of p U fr]
      last_messages_distinct
    by (cases r) (auto simp: app_main_def ret_zero_def split: stop.split ub.split)
qed

section \<open>What the application hands on\<close>

text \<open>A request of type message 1 reaches the provider's handler with the body cast.\<close>

lemma msg1_delivered:
  assumes "req_type req = ra_msg_type_code TYPE_RA_MSG1" "wf_request req"
    and "ra_network_send_receive p True (Some req) True s = (Inr (0, Some (Some b)), s')"
  shows "sp_ra_proc_msg1_req (supplied_derivation p) (prov_groups p) (prov_lib p) (prov_sha p)
    (Some (cast_msg1 (req_body req))) (req_size req) True s = (Inr (0, Some (Some b)), s')"
proof -
  obtain res s1 where run: "serve_msg1 p (Some (cast_msg1 (req_body req))) (req_size req) True s = (res, s1)"
    by (metis prod.exhaust)
  have "body_readable sizeof_msg1 req" by (rule wf_request_readable [OF assms(2)]) (simp add: wire_sizes)
  then have "deliver res = Inr (0, Some (Some b))" "s1 = s'"
    using assms(1,3) run by (simp_all add: ra_network_send_receive_def)
  then have "res = Inr (0, Some (Some b))"
    by (auto simp: deliver_def split: sum.splits if_splits option.splits prod.splits)
  with run \<open>s1 = s'\<close> show ?thesis by (simp add: serve_msg1_def)
qed

lemma send_Inr:
  assumes "send p req upd fr = (Inr code, fr')"
  obtains resp s' where "ra_network_send_receive p True (Some req) True (app_sp fr) = (Inr (code, resp), s')"
    "fr' = (case resp of None \<Rightarrow> id | Some q \<Rightarrow> upd (\<lambda>_. q)) (fr\<lparr>app_sp := s', app_ret := Ret code\<rparr>)"
  using assms by (auto simp: send_def split: prod.splits sum.splits ub.splits)

text \<open>The request of a successful exchange, between the two frames around it.\<close>

lemma exchange_sent:
  assumes "app_exchange p req fr = (Inr b, fr')"
  obtains fr0 code fr1 where "send p req p_msg2_full_app_update fr0 = (Inr code, fr1)"
    "app_sp fr0 = app_sp fr" "p_msg1_full fr0 = p_msg1_full fr" "p_msg2_full_app fr0 = p_msg2_full_app fr"
    "code = 0" "p_msg2_full_app fr1 = Some b" "p_msg2_full_app fr' = Some b" "app_sp fr' = app_sp fr1"
    "p_msg1_full fr' = p_msg1_full fr1"
proof -
  let ?fr0 = "fr\<lparr>printed := printed fr @ [out_line (''>>>> Sending msg1 to SP. '' @ ''Expecting msg2 back.'')]\<rparr>"
  from assms obtain code fr1 where "send p req p_msg2_full_app_update ?fr0 = (Inr code, fr1)" "code = 0"
      "p_msg2_full_app fr1 = Some b" "p_msg2_full_app fr' = Some b" "app_sp fr' = app_sp fr1"
      "p_msg1_full fr' = p_msg1_full fr1"
    by (auto simp: app_exchange_def attempt_Inr_iff reads_def goto_cleanup_unless_def defined_def
        print_array_def say_def modify_def ok_def split: if_splits option.splits)
  then show thesis using that [of ?fr0 code fr1] by simp
qed

text \<open>A successful exchange is one successful call of the provider's handler.\<close>

lemma exchange_served:
  assumes "p_msg2_full_app fr = None"
    and "req_type req = ra_msg_type_code TYPE_RA_MSG1" "wf_request req"
    and run: "app_exchange p req fr = (Inr b, fr')"
  shows "sp_ra_proc_msg1_req (supplied_derivation p) (prov_groups p) (prov_lib p) (prov_sha p)
    (Some (cast_msg1 (req_body req))) (req_size req) True (app_sp fr) = (Inr (0, Some (Some b)), app_sp fr')"
proof -
  from run obtain fr0 fr1 code where send: "send p req p_msg2_full_app_update fr0 = (Inr code, fr1)"
    and kept: "app_sp fr0 = app_sp fr" "p_msg2_full_app fr0 = None"
    and rest: "code = 0" "p_msg2_full_app fr1 = Some b" "app_sp fr' = app_sp fr1"
    by (rule exchange_sent) (use assms(1) in simp)
  from send obtain resp s1 where net: "ra_network_send_receive p True (Some req) True (app_sp fr0) = (Inr (code, resp), s1)"
    and fr1: "fr1 = (case resp of None \<Rightarrow> id | Some q \<Rightarrow> p_msg2_full_app_update (\<lambda>_. q)) (fr0\<lparr>app_sp := s1, app_ret := Ret code\<rparr>)"
    by (rule send_Inr)
  have "s1 = app_sp fr'" "resp = Some (Some b)"
    using fr1 rest kept(2) by (cases resp; simp)+
  then show ?thesis using msg1_delivered [OF assms(2,3), of p "app_sp fr" b] net rest kept(1) by simp
qed

text \<open>
  End to end: when the application's exchange of message 1 succeeds, the message 2 it hands to
  the SDK is authentic for the message 1 it sent: it carries the provider's current key \<open>g_b\<close> and
  the provider's signature over that key and the very \<open>g_a\<close> of the request, and the provider holds
  the session keys of exactly this pair of keys.
\<close>

lemma exchange_session:
  assumes laws: "crypto_laws (prov_lib p) (prov_sha p) C absorbed H D V"
      "resource_laws (prov_lib p) (prov_sha p) blocks ctxs" "servers_ok (prov_groups p)"
      "sp_wf (prov_groups p) (app_sp fr)" "p_msg2_full_app fr = None"
    and req: "req_type req = ra_msg_type_code TYPE_RA_MSG1" "wf_request req" "length (req_body req) = 68"
    and run: "app_exchange p req fr = (Inr b, fr')"
  shows "msg2_g_b (cast_msg2 b) = db_g_b (g_sp_db (app_sp fr')) \<and>
    msg2_kdf (cast_msg2 b) = msg2_kdf_id (supplied_derivation p) \<and>
    V g_sp_priv_key (msg2_g_b (cast_msg2 b) @ take 64 (req_body req)) (msg2_sign_gb_ga (cast_msg2 b)) \<and>
    db_g_a (g_sp_db (app_sp fr')) = take 64 (req_body req) \<and>
    session_keys (supplied_derivation p) C H
      (D (db_b (g_sp_db (app_sp fr'))) (take 64 (req_body req))) (g_sp_db (app_sp fr'))"
proof -
  let ?m = "cast_msg1 (req_body req)" and ?s' = "app_sp fr'"
  note served = exchange_served [OF laws(5) req(1,2) run]
  have g_a: "msg1_g_a ?m = take 64 (req_body req)" "length (msg1_g_a ?m) = 64"
    using req(3) by (simp_all add: cast_msg1_def)
  have ans: "msg2_answers (supplied_derivation p) C H D V (msg1_g_a ?m) ?s' b" and wf: "sp_wf (prov_groups p) ?s'"
    using msg1_result [OF laws(1-4) g_a(2) served] by auto
  have "db_g_a (g_sp_db ?s') = msg1_g_a ?m" "session_keys (supplied_derivation p) C H (D (db_b (g_sp_db ?s')) (msg1_g_a ?m)) (g_sp_db ?s')"
    using ans unfolding msg2_answers_def by blast+
  with msg2_answers_cast [OF ans wf] show ?thesis unfolding g_a(1) by blast
qed

section \<open>Retries\<close>

text \<open>C26: Message 1 is requested at most once more than the retry budget: for any counter of these calls, a loop with
  budget \<open>n\<close> adds between 1 and \<open>n + 1\<close>, always ends with a status, and ends busy only when
  the budget is used up.\<close>

theorem get_msg1_loop_bounded:
  assumes "\<And>k c e w. calls (snd (sgx_ra_get_msg1_ex U k c e w)) = Suc (calls w)"
  shows "\<exists>st fr'. get_msg1_loop U n fr = (Inr st, fr') \<and>
    calls (sp_world (app_sp fr)) < calls (sp_world (app_sp fr')) \<and>
    calls (sp_world (app_sp fr')) \<le> calls (sp_world (app_sp fr)) + n + 1 \<and>
    (st = SGX_ERROR_BUSY \<longrightarrow> calls (sp_world (app_sp fr')) = calls (sp_world (app_sp fr)) + n + 1)"
proof (induction n arbitrary: fr)
  case 0
  obtain st body w where run: "sgx_ra_get_msg1_ex U (selected_key_id fr) (ra_context fr) (enclave_id fr)
      (sp_world (app_sp fr)) = ((st, body), w)"
    by (metis prod.exhaust)
  then have "calls w = Suc (calls (sp_world (app_sp fr)))" using assms by (metis snd_conv)
  with run show ?case
    by (subst get_msg1_loop.simps) (simp add: attempt_def reads_def app_call_def on_part_def modify_def ok_def)
next
  case (Suc n)
  obtain st body w where run: "sgx_ra_get_msg1_ex U (selected_key_id fr) (ra_context fr) (enclave_id fr)
      (sp_world (app_sp fr)) = ((st, body), w)"
    by (metis prod.exhaust)
  then have w: "calls w = Suc (calls (sp_world (app_sp fr)))" using assms by (metis snd_conv)
  let ?fr = "fr\<lparr>app_sp := (app_sp fr)\<lparr>sp_world := w\<rparr>, app_ret := Status st,
    p_msg1_full := map_option (\<lambda>r. r\<lparr>req_body := body\<rparr>) (p_msg1_full fr)\<rparr>"
  have step: "get_msg1_loop U (Suc n) fr = (if st = SGX_ERROR_BUSY then get_msg1_loop U n ?fr else (Inr st, ?fr))"
    using run by (subst get_msg1_loop.simps) (simp add: attempt_def reads_def app_call_def on_part_def modify_def ok_def)
  show ?case
  proof (cases "st = SGX_ERROR_BUSY")
    case True
    with step Suc.IH [of ?fr] w show ?thesis by fastforce
  next
    case False
    with step w show ?thesis by simp
  qed
qed

text \<open>One round of the creation loop whose enclave is created: it goes on when the enclave was lost.\<close>

lemma create_loop_step:
  assumes "sgx_create_enclave U (sp_world (app_sp fr)) = ((SGX_SUCCESS, eid), w)"
    and "e = (case eid of None \<Rightarrow> enclave_id fr | Some e \<Rightarrow> e)"
    and "ecall_enclave_init_ra U e False w = ((r, stat, ctx), w2)"
    and "fr1 = fr\<lparr>enclave_id := e, printed := printed fr @ [out_line ''>>>> Creating the enclave.'',
        out_line ''Call sgx_create_enclave success.'', out_line ''>>>> Starting RA process.''],
      app_sp := (app_sp fr)\<lparr>sp_world := w2\<rparr>, app_ret := Status r,
      app_status := (case stat of None \<Rightarrow> app_status fr | Some x \<Rightarrow> x),
      ra_context := (case ctx of None \<Rightarrow> ra_context fr | Some c \<Rightarrow> c)\<rparr>"
  shows "create_loop U n fr =
    (if r = SGX_ERROR_ENCLAVE_LOST \<and> n \<noteq> 0 then create_loop U (n - 1) fr1 else (Inr r, fr1))"
  using assms
  by (subst create_loop.simps, cases eid; cases stat; cases ctx)
    (simp_all add: attempt_def app_call_def on_part_def fail_unless_def say_def modify_def reads_def ok_def split: nat.split)

text \<open>One round of the creation loop for a counter \<open>made\<close> of the creations: it jumps to \<open>CLEANUP\<close>, or it goes
  on from a frame with one more enclave made.\<close>

lemma create_loop_cases:
  assumes "\<And>w. made (snd (sgx_create_enclave U w)) = Suc (made w)"
    and "\<And>e b w. made (snd (ecall_enclave_init_ra U e b w)) = made w"
  obtains (no_enclave) x fr1 where "create_loop U n fr = (Inl x, fr1)"
      "made (sp_world (app_sp fr1)) = Suc (made (sp_world (app_sp fr)))"
    | (enclave) r fr1 where "made (sp_world (app_sp fr1)) = Suc (made (sp_world (app_sp fr)))"
      "create_loop U n fr = (if r = SGX_ERROR_ENCLAVE_LOST \<and> n \<noteq> 0 then create_loop U (n - 1) fr1 else (Inr r, fr1))"
proof -
  obtain st eid w where create: "sgx_create_enclave U (sp_world (app_sp fr)) = ((st, eid), w)"
    by (metis prod.exhaust)
  then have w: "made w = Suc (made (sp_world (app_sp fr)))" using assms(1) by (metis snd_conv)
  show thesis
  proof (cases "st = SGX_SUCCESS")
    case False
    show thesis
      by (rule no_enclave, subst create_loop.simps)
        (simp add: create False attempt_def app_call_def on_part_def fail_unless_def say_def modify_def, simp add: w)
  next
    case True
    let ?e = "case eid of None \<Rightarrow> enclave_id fr | Some e \<Rightarrow> e"
    obtain r stat ctx w2 where init: "ecall_enclave_init_ra U ?e False w = ((r, stat, ctx), w2)"
      by (metis prod.exhaust)
    then have w2: "made w2 = made w" using assms(2) by (metis snd_conv)
    show thesis
      by (rule enclave [OF _ create_loop_step [OF create [unfolded True] refl init refl]]) (simp add: w w2)
  qed
qed

text \<open>The enclave is created at most once more than the retry budget: the loop adds between 1 and
  \<open>n + 1\<close>, whether it ends or jumps to \<open>CLEANUP\<close>, and a lost enclave is the result only when the
  budget is used up.\<close>

lemma create_loop_bounded:
  assumes "\<And>w. made (snd (sgx_create_enclave U w)) = Suc (made w)"
    and "\<And>e b w. made (snd (ecall_enclave_init_ra U e b w)) = made w"
  shows "\<exists>r fr'. create_loop U n fr = (r, fr') \<and>
    made (sp_world (app_sp fr)) < made (sp_world (app_sp fr')) \<and>
    made (sp_world (app_sp fr')) \<le> made (sp_world (app_sp fr)) + n + 1 \<and>
    (r = Inr SGX_ERROR_ENCLAVE_LOST \<longrightarrow> made (sp_world (app_sp fr')) = made (sp_world (app_sp fr)) + n + 1)"
proof (induction n arbitrary: fr)
  case (0 fr)
  show ?case by (rule create_loop_cases [OF assms, of 0 fr]) auto
next
  case (Suc n fr)
  show ?case
  proof (rule create_loop_cases [OF assms, of "Suc n" fr])
    fix x fr1
    assume "create_loop U (Suc n) fr = (Inl x, fr1)" "made (sp_world (app_sp fr1)) = Suc (made (sp_world (app_sp fr)))"
    then show ?thesis by simp
  next
    fix r fr1
    assume "made (sp_world (app_sp fr1)) = Suc (made (sp_world (app_sp fr)))"
      "create_loop U (Suc n) fr = (if r = SGX_ERROR_ENCLAVE_LOST \<and> Suc n \<noteq> 0 then create_loop U (Suc n - 1) fr1 else (Inr r, fr1))"
    with Suc.IH [of fr1] show ?thesis by (cases "r = SGX_ERROR_ENCLAVE_LOST") auto
  qed
qed

section \<open>Printing\<close>

lemma print_loop_eq:
  "i + n < length array \<Longrightarrow> print_loop n i array =
     Some (concat (map (\<lambda>j. ''0x'' @ hex_byte (array ! j) @ '', '' @ (if j mod 8 = 7 then newline else [])) [i..<i + n]) @
       ''0x'' @ hex_byte (array ! (i + n)) @ '' '')"
proof (induction n arbitrary: i)
  case (Suc n)
  have "[i..<i + Suc n] = i # [Suc i..<Suc i + n]" by (simp add: upt_rec)
  with Suc show ?case by simp
qed simp

text \<open>C27: Printing an array reads exactly the bytes its length names: it is undefined exactly when the array is
  shorter, and prints each byte once, in order, in hexadecimal, eight to a line.\<close>

theorem PRINT_BYTE_ARRAY_spec:
  "PRINT_BYTE_ARRAY (Some array) len =
    (if len = 0 then Some (newline @ ''( null )'' @ newline)
     else if length array < unat len then None
     else Some (dec_digits (unat len) @ '' bytes:'' @ newline @ ''{'' @ newline @
       concat (map (\<lambda>j. ''0x'' @ hex_byte (array ! j) @ '', '' @ (if j mod 8 = 7 then newline else [])) [0..<unat len - 1]) @
       ''0x'' @ hex_byte (array ! (unat len - 1)) @ '' '' @ newline @ ''}'' @ newline))"
proof (cases "len = 0")
  case True
  then show ?thesis by (simp add: PRINT_BYTE_ARRAY_def)
next
  case False
  then have pos: "unat (len - 1) = unat len - 1" "0 < unat len" by (simp_all add: unat_minus_one unat_gt_0)
  show ?thesis
  proof (cases "length array < unat len")
    case True
    then have "\<not> 0 + (unat len - 1) < length array" using pos(2) by linarith
    then have "print_loop (unat len - 1) 0 array = None" using print_loop_defined by blast
    with True False show ?thesis by (simp add: PRINT_BYTE_ARRAY_def pos)
  next
    case short: False
    then have "0 + (unat len - 1) < length array" using pos(2) by linarith
    from print_loop_eq [OF this] short False show ?thesis by (simp add: PRINT_BYTE_ARRAY_def pos)
  qed
qed

section \<open>An example SDK\<close>

text \<open>Every call succeeds; message 3 is a block of four bytes.\<close>

definition example_urts :: "example_world sgx_urts" where
  "example_urts =
     \<lparr>sgx_select_att_key_id = (\<lambda>b w. ((SGX_SUCCESS, take 4 b), w)),
      sgx_create_enclave = (\<lambda>w. ((SGX_SUCCESS, Some 1), w)),
      ecall_enclave_init_ra = (\<lambda>e b w. ((SGX_SUCCESS, Some SGX_SUCCESS, Some 5), w)),
      sgx_ra_get_msg1_ex = (\<lambda>k c e w. ((SGX_SUCCESS, replicate 68 1), w)),
      sgx_ra_proc_msg2_ex = (\<lambda>k c e m w. ((SGX_SUCCESS, Some ([1, 2, 3, 4], 4)), w\<lparr>live_blocks := Suc (live_blocks w)\<rparr>)),
      ecall_enclave_ra_close = (\<lambda>e c w. ((SGX_SUCCESS, Some SGX_SUCCESS), w)),
      sgx_destroy_enclave = (\<lambda>e w. w), sgx_status_number = (\<lambda>st. 0)\<rparr>"

text \<open>The same SDK with an enclave that is always lost and a key exchange that is always busy; it counts in the world.\<close>

definition busy_urts :: "example_world sgx_urts" where
  "busy_urts = example_urts\<lparr>
      sgx_create_enclave := (\<lambda>w. ((SGX_SUCCESS, Some 1), w\<lparr>live_ctxs := Suc (live_ctxs w)\<rparr>)),
      ecall_enclave_init_ra := (\<lambda>e b w. ((SGX_ERROR_ENCLAVE_LOST, None, None), w)),
      sgx_ra_get_msg1_ex := (\<lambda>k c e w. ((SGX_ERROR_BUSY, replicate 68 1), w\<lparr>sha_ctxs := Suc (sha_ctxs w)\<rparr>))\<rparr>"

lemma example_urts_law: "urts_law example_urts live_blocks"
  by (simp add: urts_law_def example_urts_def)

theorem app_main_safe_witness:
  "\<exists>r fr. app_main example_provider example_urts (sp_init world0) = (Inr r, fr)"
  using app_main_safe [OF example_urts_law provider_inv_init [OF example_provider_ok], of world0] by blast

theorem app_main_heap_witness:
  "\<exists>r fr. app_main example_provider example_urts (sp_init world0) = (Inr r, fr) \<and>
     live_blocks (sp_world (app_sp fr)) = owned fr"
proof -
  have inv: "provider_inv live_blocks live_ctxs example_provider (sp_init world0)"
    by (rule provider_inv_init [OF example_provider_ok])
  obtain r fr where run: "app_main example_provider example_urts (sp_init world0) = (Inr r, fr)"
  proof (cases rule: body_end_cases [OF example_urts_law inv, case_names cleanup finished])
    case (cleanup e fr)
    then show ?thesis using that by (simp add: app_main_def)
  next
    case (finished fr)
    then show ?thesis using that by (simp add: app_main_def)
  qed
  from app_main_heap [OF example_urts_law inv run] run show ?thesis
    by (auto simp: sp_init_def world0_def split: if_splits)
qed

theorem get_msg1_loop_bounded_witness:
  "\<exists>st fr'. get_msg1_loop busy_urts 4 (app_start (sp_init world0)) = (Inr st, fr') \<and>
     sha_ctxs (sp_world (app_sp fr')) \<le> 5"
proof -
  have "sha_ctxs (snd (sgx_ra_get_msg1_ex busy_urts k c e w)) = Suc (sha_ctxs w)" for k c e w
    by (simp add: busy_urts_def)
  from get_msg1_loop_bounded [of sha_ctxs busy_urts 4 "app_start (sp_init world0)", OF this] show ?thesis
    by (auto simp: app_start_def sp_init_def world0_def)
qed

end
