(* ===== verification/App_Session.thy ===== *)
theory App_Session
  imports App_Correctness
begin

text \<open>
  The attestation run as a whole: what holds when \<open>main\<close> of the application comes to its success
  path, and that it comes there when no call fails.  The application, the network, the provider and
  the SDK of the other theories are composed; the first part follows the frame of \<open>main\<close> through
  its steps, the second excludes every jump to \<open>CLEANUP\<close>.
\<close>

section \<open>The session a finished run leaves\<close>

text \<open>
  Message 1 as sent and message 2 as received are still in the frame; the provider's globals hold the
  session for them.
\<close>

definition session_established ::
  "'w provider \<Rightarrow> (byte list \<Rightarrow> byte list \<Rightarrow> byte list) \<Rightarrow> (byte list \<Rightarrow> byte list) \<Rightarrow>
   (byte list \<Rightarrow> byte list \<Rightarrow> byte list) \<Rightarrow> (byte list \<Rightarrow> byte list \<Rightarrow> byte list \<Rightarrow> bool) \<Rightarrow>
   'w app_frame \<Rightarrow> bool" where
  "session_established p C H D V fr \<longleftrightarrow>
     (\<exists>req b. p_msg1_full fr = Some req \<and> p_msg2_full_app fr = Some b \<and>
        (let g_a = take 64 (req_body req); db = g_sp_db (app_sp fr); m2 = cast_msg2 b in
          msg2_g_b m2 = db_g_b db \<and> msg2_kdf m2 = msg2_kdf_id (supplied_derivation p) \<and>
          V g_sp_priv_key (msg2_g_b m2 @ g_a) (msg2_sign_gb_ga m2) \<and>
          db_g_a db = g_a \<and> session_keys (supplied_derivation p) C H (D (db_b db) g_a) db))"

text \<open>
  Message 1 is the SDK's; message 3 is the SDK's answer to the body of the very message 2 received,
  its response header stripped once.
\<close>

definition sdk_messages :: "'w sgx_urts \<Rightarrow> 'w app_frame \<Rightarrow> bool" where
  "sdk_messages U fr \<longleftrightarrow>
     (\<exists>req b m3. p_msg1_full fr = Some req \<and> p_msg2_full_app fr = Some b \<and> p_msg3 fr = Some m3 \<and>
        (\<exists>k c e w w'. sgx_ra_get_msg1_ex U k c e w = ((SGX_SUCCESS, req_body req), w')) \<and>
        (\<exists>k c e w w'. sgx_ra_proc_msg2_ex U k c e (take (unat (resp_size b)) (resp_body b)) w =
           ((SGX_SUCCESS, Some (m3, msg3_size fr)), w')))"

text \<open>The exchange keeps message 1; the steps after it only touch the SDK's part of the frame.\<close>

definition same_session :: "'w app_frame \<Rightarrow> 'w app_frame \<Rightarrow> bool" where
  "same_session fr fr' \<longleftrightarrow> p_msg1_full fr' = p_msg1_full fr \<and> p_msg2_full_app fr' = p_msg2_full_app fr \<and>
     g_sp_db (app_sp fr') = g_sp_db (app_sp fr)"

lemma same_session_established:
  "same_session fr fr' \<Longrightarrow> session_established p C H D V fr \<Longrightarrow> session_established p C H D V fr'"
  by (simp add: same_session_def session_established_def)

lemma proc_msg2_loop_same: "proc_msg2_loop U m n fr = (r, fr') \<Longrightarrow> same_session fr fr'"
proof (induction n arbitrary: fr)
  case 0
  then show ?case
    by (subst (asm) proc_msg2_loop.simps)
      (auto simp: attempt_def reads_def app_call_def on_part_def modify_def ok_def same_session_def
        split: prod.splits if_splits)
next
  case (Suc n)
  from Suc.prems show ?case
    by (subst (asm) proc_msg2_loop.simps)
      (auto simp: attempt_def reads_def app_call_def on_part_def modify_def ok_def same_session_def
        split: prod.splits if_splits dest!: Suc.IH)
qed

lemma app_msg3_same: "app_msg3 U b fr = (Inr (), fr') \<Longrightarrow> same_session fr fr'"
  by (auto simp: app_msg3_def attempt_Inr_iff reads_def fail_unless_def defined_def print_array_def say_def modify_def
      same_session_def dest!: proc_msg2_loop_same split: if_splits option.splits)

lemma get_msg1_loop_step:
  assumes "sgx_ra_get_msg1_ex U (selected_key_id fr) (ra_context fr) (enclave_id fr) (sp_world (app_sp fr)) = ((st, body), w)"
    and "fr1 = fr\<lparr>app_sp := (app_sp fr)\<lparr>sp_world := w\<rparr>, app_ret := Status st,
      p_msg1_full := map_option (\<lambda>r. r\<lparr>req_body := body\<rparr>) (p_msg1_full fr)\<rparr>"
  shows "get_msg1_loop U n fr = (if st = SGX_ERROR_BUSY \<and> n \<noteq> 0 then get_msg1_loop U (n - 1) fr1 else (Inr st, fr1))"
  using assms
  by (subst get_msg1_loop.simps)
    (cases n, simp_all add: attempt_def reads_def app_call_def on_part_def modify_def ok_def)

lemma get_msg1_loop_source:
  "get_msg1_loop U n fr = (Inr st, fr') \<Longrightarrow> p_msg1_full fr \<noteq> None \<Longrightarrow>
   \<exists>req k c e w w'. p_msg1_full fr' = Some req \<and> sgx_ra_get_msg1_ex U k c e w = ((st, req_body req), w')"
proof (induction n arbitrary: fr)
  case (0 fr)
  obtain st1 body w where call: "sgx_ra_get_msg1_ex U (selected_key_id fr) (ra_context fr) (enclave_id fr)
      (sp_world (app_sp fr)) = ((st1, body), w)" by (metis prod.exhaust)
  from 0 get_msg1_loop_step [OF call refl, of 0] call show ?case by fastforce
next
  case (Suc n fr)
  obtain st1 body w where call: "sgx_ra_get_msg1_ex U (selected_key_id fr) (ra_context fr) (enclave_id fr)
      (sp_world (app_sp fr)) = ((st1, body), w)" by (metis prod.exhaust)
  define fr1 where "fr1 = fr\<lparr>app_sp := (app_sp fr)\<lparr>sp_world := w\<rparr>, app_ret := Status st1,
    p_msg1_full := map_option (\<lambda>r. r\<lparr>req_body := body\<rparr>) (p_msg1_full fr)\<rparr>"
  note step = get_msg1_loop_step [OF call fr1_def, of "Suc n"]
  from Suc.prems(2) have started: "p_msg1_full fr1 \<noteq> None" by (simp add: fr1_def)
  show ?case
  proof (cases "st1 = SGX_ERROR_BUSY")
    case True
    with Suc.prems(1) step have "get_msg1_loop U n fr1 = (Inr st, fr')" by simp
    then show ?thesis using started by (rule Suc.IH)
  next
    case False
    with Suc.prems step call show ?thesis by (fastforce simp: fr1_def)
  qed
qed

lemma prepare_msg1_source:
  assumes "app_prepare_msg1 p U fr = (Inr req, fr')"
  shows "\<exists>k c e w w'. sgx_ra_get_msg1_ex U k c e w = ((SGX_SUCCESS, req_body req), w')"
proof -
  from assms obtain fr1 st fr2 where "get_msg1_loop U 4 fr1 = (Inr st, fr2)" "p_msg1_full fr1 \<noteq> None"
      "st = SGX_SUCCESS" "p_msg1_full fr2 = Some req"
    by (auto simp: app_prepare_msg1_def attempt_Inr_iff reads_def fail_unless_def defined_def print_array_def say_def
        modify_def ok_def split: if_splits option.splits)
  with get_msg1_loop_source [of U 4 fr1 st fr2] show ?thesis by auto
qed

lemma proc_msg2_loop_step:
  assumes "sgx_ra_proc_msg2_ex U (selected_key_id fr) (ra_context fr) (enclave_id fr) m (sp_world (app_sp fr)) = ((st, m3), w)"
    and "fr1 = fr\<lparr>app_sp := (app_sp fr)\<lparr>sp_world := w\<rparr>, app_ret := Status st,
      p_msg3 := (case m3 of None \<Rightarrow> p_msg3 fr | Some (m, _) \<Rightarrow> Some m),
      msg3_size := (case m3 of None \<Rightarrow> msg3_size fr | Some (_, n) \<Rightarrow> n)\<rparr>"
  shows "proc_msg2_loop U m n fr = (if st = SGX_ERROR_BUSY \<and> n \<noteq> 0 then proc_msg2_loop U m (n - 1) fr1 else (Inr st, fr1))"
  using assms
  by (subst proc_msg2_loop.simps)
    (cases n; cases m3, simp_all add: attempt_def reads_def app_call_def on_part_def modify_def ok_def)

lemma proc_msg2_loop_source:
  "proc_msg2_loop U m n fr = (Inr SGX_SUCCESS, fr') \<Longrightarrow> urts_law U blocks \<Longrightarrow>
   \<exists>m3 k c e w w'. p_msg3 fr' = Some m3 \<and> sgx_ra_proc_msg2_ex U k c e m w = ((SGX_SUCCESS, Some (m3, msg3_size fr')), w')"
proof (induction n arbitrary: fr)
  case (0 fr)
  obtain st m3 w where call: "sgx_ra_proc_msg2_ex U (selected_key_id fr) (ra_context fr) (enclave_id fr) m
      (sp_world (app_sp fr)) = ((st, m3), w)" by (metis prod.exhaust)
  from 0 proc_msg2_loop_step [OF call refl, of 0] call urts_lawD(5) [OF 0(2) call] show ?case by fastforce
next
  case (Suc n fr)
  obtain st m3 w where call: "sgx_ra_proc_msg2_ex U (selected_key_id fr) (ra_context fr) (enclave_id fr) m
      (sp_world (app_sp fr)) = ((st, m3), w)" by (metis prod.exhaust)
  define fr1 where "fr1 = fr\<lparr>app_sp := (app_sp fr)\<lparr>sp_world := w\<rparr>, app_ret := Status st,
    p_msg3 := (case m3 of None \<Rightarrow> p_msg3 fr | Some (m, _) \<Rightarrow> Some m),
      msg3_size := (case m3 of None \<Rightarrow> msg3_size fr | Some (_, n) \<Rightarrow> n)\<rparr>"
  note step = proc_msg2_loop_step [OF call fr1_def, of "Suc n"]
  show ?case
  proof (cases "st = SGX_ERROR_BUSY")
    case True
    with Suc.prems(1) step have "proc_msg2_loop U m n fr1 = (Inr SGX_SUCCESS, fr')" by simp
    then show ?thesis using Suc.prems(2) by (rule Suc.IH)
  next
    case False
    with Suc.prems step call urts_lawD(5) [OF Suc.prems(2) call] show ?thesis
      by (fastforce simp: fr1_def)
  qed
qed

lemma app_msg3_source:
  assumes "app_msg3 U b fr = (Inr (), fr')" "urts_law U blocks"
  shows "\<exists>m3 k c e w w'. p_msg3 fr' = Some m3 \<and>
    sgx_ra_proc_msg2_ex U k c e (take (unat (resp_size b)) (resp_body b)) w = ((SGX_SUCCESS, Some (m3, msg3_size fr')), w')"
proof -
  from assms(1) obtain fr1 where "proc_msg2_loop U (take (unat (resp_size b)) (resp_body b)) 2 fr = (Inr SGX_SUCCESS, fr1)"
      "p_msg3 fr' = p_msg3 fr1" "msg3_size fr' = msg3_size fr1"
    by (auto simp: app_msg3_def attempt_Inr_iff reads_def fail_unless_def defined_def print_array_def say_def modify_def
        split: if_splits option.splits)
  with proc_msg2_loop_source [OF this(1) assms(2)] show ?thesis by simp
qed

lemma app_exchange_keeps:
  assumes "app_exchange p req fr = (Inr b, fr')"
  shows "p_msg1_full fr' = p_msg1_full fr \<and> p_msg2_full_app fr' = Some b"
proof -
  from assms obtain fr0 code fr1 where send: "send p req p_msg2_full_app_update fr0 = (Inr code, fr1)"
    and "p_msg1_full fr0 = p_msg1_full fr" "p_msg2_full_app fr' = Some b" "p_msg1_full fr' = p_msg1_full fr1"
    by (rule exchange_sent)
  moreover from send have "p_msg1_full fr1 = p_msg1_full fr0" by (auto elim!: send_Inr split: option.split)
  ultimately show ?thesis by simp
qed

lemma triple_Inr: "triple P m Q E \<Longrightarrow> P fr \<Longrightarrow> m fr = (Inr a, fr') \<Longrightarrow> Q a fr'"
  by (auto dest: tripleD)

text \<open>The exchange a finished body went through.\<close>

lemma body_exchange:
  assumes law: "urts_law U blocks" and inv: "provider_inv blocks ctxs p s"
    and run: "app_body p U (app_start s) = (Inr (), fr)"
  obtains req b fr3 fr4 where "app_exchange p req fr3 = (Inr b, fr4)" "same_session fr4 fr"
    "p_msg1_full fr = Some req" "p_msg2_full_app fr = Some b" "sdk_messages U fr"
    "req_type req = ra_msg_type_code TYPE_RA_MSG1" "wf_request req" "length (req_body req) = 68"
    "resource_laws (prov_lib p) (prov_sha p) blocks ctxs" "servers_ok (prov_groups p)"
    "sp_wf (prov_groups p) (app_sp fr3)" "p_msg2_full_app fr3 = None"
proof -
  let ?b0 = "blocks (sp_world s)"
  from run obtain fr1 fr2 req fr3 b fr4 where steps: "app_msg0 p U (app_start s) = (Inr (), fr1)"
    "app_create U fr1 = (Inr (), fr2)" "app_prepare_msg1 p U fr2 = (Inr req, fr3)"
    "app_exchange p req fr3 = (Inr b, fr4)" "app_msg3 U b fr4 = (Inr (), fr)"
    by (auto simp: app_body_def attempt_Inr_iff)
  have "at_stage 0 blocks ctxs p ?b0 (app_start s)" using inv by (simp add: app_defs app_start_def)
  from triple_Inr [OF app_create_triple [OF law] triple_Inr [OF app_msg0_triple [OF law] this steps(1)] steps(2)]
  have "at_stage 2 blocks ctxs p ?b0 fr2" .
  from triple_Inr [OF prepare_msg1_sets [OF law] this steps(3)]
  have at3: "at_stage 3 blocks ctxs p ?b0 fr3" and req: "p_msg1_full fr3 = Some req"
      "req_type req = ra_msg_type_code TYPE_RA_MSG1" "req_size req = 68" "length (req_body req) = 68"
    by (auto simp: msg1_prepared_def has_msg1_def)
  have held: "p_msg1_full fr = Some req" "p_msg2_full_app fr = Some b"
    using app_msg3_same [OF steps(5)] app_exchange_keeps [OF steps(4)] req(1) by (simp_all add: same_session_def)
  with prepare_msg1_source [OF steps(3)] app_msg3_source [OF steps(5) law]
  have "sdk_messages U fr" by (auto simp: sdk_messages_def)
  moreover have "wf_request req" using req by (simp add: wf_request_def)
  ultimately show thesis
    using that [OF steps(4) app_msg3_same [OF steps(5)] held _ req(2)] at3 req(4)
    by (auto simp: app_inv_def provider_inv_def stage_def)
qed

lemma body_session:
  assumes laws: "crypto_laws (prov_lib p) (prov_sha p) C absorbed H D V" "urts_law U blocks"
    and "provider_inv blocks ctxs p s" "app_body p U (app_start s) = (Inr (), fr)"
  shows "session_established p C H D V fr \<and> sdk_messages U fr"
proof (rule body_exchange [OF laws(2) assms(3,4)])
  fix req b fr3 fr4
  assume ex: "app_exchange p req fr3 = (Inr b, fr4)" "same_session fr4 fr"
    and held: "p_msg1_full fr = Some req" "p_msg2_full_app fr = Some b" "sdk_messages U fr"
    and req: "req_type req = ra_msg_type_code TYPE_RA_MSG1" "wf_request req" "length (req_body req) = 68"
    and prov: "resource_laws (prov_lib p) (prov_sha p) blocks ctxs" "servers_ok (prov_groups p)"
      "sp_wf (prov_groups p) (app_sp fr3)" "p_msg2_full_app fr3 = None"
  have "p_msg1_full fr4 = Some req" "p_msg2_full_app fr4 = Some b"
    using ex(2) held(1,2) by (simp_all add: same_session_def)
  then have "session_established p C H D V fr4"
    using exchange_session [OF laws(1) prov req ex(1)] by (auto simp: session_established_def Let_def)
  then show ?thesis using same_session_established [OF ex(2)] held(3) by blast
qed

section \<open>A run in which no call fails\<close>

definition sdk_succeeds :: "'w sgx_urts \<Rightarrow> bool" where
  "sdk_succeeds U \<longleftrightarrow>
     (\<forall>b w. fst (fst (sgx_select_att_key_id U b w)) = SGX_SUCCESS) \<and>
     (\<forall>w. fst (fst (sgx_create_enclave U w)) = SGX_SUCCESS) \<and>
     (\<forall>e b w. fst (fst (ecall_enclave_init_ra U e b w)) = SGX_SUCCESS \<and>
        fst (snd (fst (ecall_enclave_init_ra U e b w))) = Some SGX_SUCCESS) \<and>
     (\<forall>k c e w. fst (fst (sgx_ra_get_msg1_ex U k c e w)) = SGX_SUCCESS) \<and>
     (\<forall>k c e m w. fst (fst (sgx_ra_proc_msg2_ex U k c e m w)) = SGX_SUCCESS)"

lemma sdk_succeedsD:
  assumes "sdk_succeeds U"
  shows "sgx_select_att_key_id U b w = ((st, key), w') \<Longrightarrow> st = SGX_SUCCESS"
    and "sgx_create_enclave U w = ((st, eid), w') \<Longrightarrow> st = SGX_SUCCESS"
    and "ecall_enclave_init_ra U e f w = ((st, stat, ctx), w') \<Longrightarrow> st = SGX_SUCCESS \<and> stat = Some SGX_SUCCESS"
    and "sgx_ra_get_msg1_ex U k c e w = ((st, body), w') \<Longrightarrow> st = SGX_SUCCESS"
    and "sgx_ra_proc_msg2_ex U k c e m w = ((st, m3), w') \<Longrightarrow> st = SGX_SUCCESS"
proof -
  have law: "fst (fst (sgx_select_att_key_id U b w)) = SGX_SUCCESS" "fst (fst (sgx_create_enclave U w)) = SGX_SUCCESS"
    "fst (fst (ecall_enclave_init_ra U e f w)) = SGX_SUCCESS"
    "fst (snd (fst (ecall_enclave_init_ra U e f w))) = Some SGX_SUCCESS"
    "fst (fst (sgx_ra_get_msg1_ex U k c e w)) = SGX_SUCCESS" "fst (fst (sgx_ra_proc_msg2_ex U k c e m w)) = SGX_SUCCESS"
    using assms by (simp_all add: sdk_succeeds_def)
  show "sgx_select_att_key_id U b w = ((st, key), w') \<Longrightarrow> st = SGX_SUCCESS" using law(1) by simp
  show "sgx_create_enclave U w = ((st, eid), w') \<Longrightarrow> st = SGX_SUCCESS" using law(2) by simp
  show "ecall_enclave_init_ra U e f w = ((st, stat, ctx), w') \<Longrightarrow> st = SGX_SUCCESS \<and> stat = Some SGX_SUCCESS"
    using law(3,4) by simp
  show "sgx_ra_get_msg1_ex U k c e w = ((st, body), w') \<Longrightarrow> st = SGX_SUCCESS" using law(5) by simp
  show "sgx_ra_proc_msg2_ex U k c e m w = ((st, m3), w') \<Longrightarrow> st = SGX_SUCCESS" using law(6) by simp
qed

text \<open>A step that leaves the provider's globals alone, and one that does not jump to \<open>CLEANUP\<close>.\<close>

definition prov_same :: "'w app_frame \<Rightarrow> 'w app_frame \<Rightarrow> bool" where
  "prov_same fr fr' \<longleftrightarrow> (\<exists>w. app_sp fr' = (app_sp fr)\<lparr>sp_world := w\<rparr>)"

lemma some_world [simp]: "\<exists>w'. s\<lparr>sp_world := w\<rparr> = s\<lparr>sp_world := w'\<rparr>"
  by blast

lemma prov_same_refl: "app_sp fr' = app_sp fr \<Longrightarrow> prov_same fr fr'"
  by (auto simp: prov_same_def intro!: exI [of _ "sp_world (app_sp fr)"])

lemma prov_same_trans: "prov_same fr fr' \<Longrightarrow> prov_same fr' fr'' \<Longrightarrow> prov_same fr fr''"
  by (auto simp: prov_same_def)

lemmas app_leaf_defs = reads_def app_call_def on_part_def modify_def ok_def fail_unless_def goto_cleanup_unless_def
  defined_def print_array_def say_def

lemmas app_stmt_defs = app_leaf_defs attempt_def

text \<open>Statements that go through, run one by one.\<close>

lemma run_steps:
  "attempt (reads g) k1 fr = k1 (g fr) fr" "attempt (modify f) k2 fr = k2 () (f fr)"
  "attempt (fail_unless True r msgs) k2 fr = k2 () fr"
  "attempt (say msgs) k2 fr = k2 () (fr\<lparr>printed := printed fr @ msgs\<rparr>)"
  "call (sp_world (app_sp fr)) = (x, w) \<Longrightarrow>
   attempt (app_call call) k3 fr = k3 x (fr\<lparr>app_sp := (app_sp fr)\<lparr>sp_world := w\<rparr>\<rparr>)"
  by (simp_all add: app_leaf_defs attempt_def)

lemma create_loop_success:
  assumes "sdk_succeeds U"
  shows "\<exists>fr'. create_loop U n fr = (Inr SGX_SUCCESS, fr') \<and> app_status fr' = SGX_SUCCESS \<and> prov_same fr fr'"
proof -
  obtain st eid w where create: "sgx_create_enclave U (sp_world (app_sp fr)) = ((st, eid), w)" by (metis prod.exhaust)
  obtain r stat ctx w2 where init: "ecall_enclave_init_ra U (case eid of None \<Rightarrow> enclave_id fr | Some e \<Rightarrow> e) False w =
      ((r, stat, ctx), w2)" by (metis prod.exhaust)
  have "st = SGX_SUCCESS" and ok: "r = SGX_SUCCESS" "stat = Some SGX_SUCCESS"
    using sdk_succeedsD(2) [OF assms create] sdk_succeedsD(3) [OF assms init] by simp_all
  with create_loop_step [OF create [unfolded this(1)] refl init refl, of n] show ?thesis
    by (simp add: prov_same_def)
qed

lemma app_create_success:
  assumes "sdk_succeeds U"
  shows "\<exists>fr'. app_create U fr = (Inr (), fr') \<and> prov_same fr fr'"
  using create_loop_success [OF assms, of 1 fr] by (auto simp: app_create_def run_steps say_def modify_def prov_same_def)

lemma get_msg1_loop_success:
  assumes "sdk_succeeds U"
  shows "\<exists>fr'. get_msg1_loop U n fr = (Inr SGX_SUCCESS, fr') \<and> prov_same fr fr'"
proof -
  obtain st body w where "sgx_ra_get_msg1_ex U (selected_key_id fr) (ra_context fr) (enclave_id fr)
      (sp_world (app_sp fr)) = ((st, body), w)" by (metis prod.exhaust)
  with sdk_succeedsD(4) [OF assms this] show ?thesis
    by (subst get_msg1_loop.simps) (simp add: run_steps ok_def prov_same_def del: attempt_run_Inr attempt_run_Inl)
qed

lemma prepare_msg1_success:
  assumes "sdk_succeeds U" "calls_succeed groups (prov_lib p) A"
    and "app_prepare_msg1 p U fr = (r, fr')"
  shows "r \<noteq> Inl (Break e) \<and> prov_same fr fr'"
proof -
  obtain got w where "malloc (prov_lib p) (sizeof_request_header + 68) (sp_world (app_sp fr)) = (got, w)"
    by (metis prod.exhaust)
  with calls_succeedD(6) [OF assms(2) this]
  have alloc: "malloc (prov_lib p) (sizeof_request_header + 68) (sp_world (app_sp fr)) = (True, w)" by simp
  let ?fr = "fr\<lparr>printed := printed fr @ [out_line ''>>>> Start generating MSG1.''],
     app_sp := (app_sp fr)\<lparr>sp_world := w\<rparr>, p_msg1_full := Some \<lparr>req_type = ra_msg_type_code TYPE_RA_MSG1,
     req_size = 68, req_align = replicate 3 0, req_body = replicate 68 0\<rparr>\<rparr>"
  obtain fr1 where loop: "get_msg1_loop U 4 ?fr = (Inr SGX_SUCCESS, fr1)" "prov_same ?fr fr1"
    using get_msg1_loop_success [OF assms(1)] by blast
  have "prov_same fr ?fr" by (auto simp: prov_same_def)
  with loop(2) have same: "prov_same fr fr1" by (rule prov_same_trans [rotated])
  from assms(3) alloc loop(1) have "(r \<noteq> Inl (Break e)) \<and> app_sp fr' = app_sp fr1"
    by (auto simp: app_prepare_msg1_def app_stmt_defs split: option.splits prod.splits sum.splits)
  with same show ?thesis by (auto simp: prov_same_def)
qed

text \<open>Message 0 registers a provider that is not registered yet, and its answer is accepted.\<close>

lemma msg0_exchange_success:
  assumes "prov_groups p = g_extended_epid_groups (prov_lib p)" "calls_succeed groups (prov_lib p) A"
    and "sp_wf (prov_groups p) s" "\<not> g_is_sp_registered s"
    and req: "req_type req = ra_msg_type_code TYPE_RA_MSG0" "req_size req = 4" "req_body req = le32 0"
  shows "\<exists>b s'. ra_network_send_receive p True (Some req) True s = (Inr (0, Some (Some b)), s') \<and> g_is_sp_registered s'"
proof -
  obtain got w where alloc: "malloc (prov_lib p) 272 (sp_world s) = (got, w)" by (metis prod.exhaust)
  with calls_succeedD(6) [OF assms(2) this] have alloc: "malloc (prov_lib p) 272 (sp_world s) = (True, w)" by simp
  have "cast_msg0 (req_body req) = \<lparr>extended_epid_group_id = 0\<rparr>"
    using req(3) by (simp add: cast_msg0_def le32.dec_enc)
  moreover have "body_readable sizeof_msg0 req" using req(3) by (simp add: body_readable_def)
  ultimately show ?thesis
    using msg0_registered [of "prov_lib p" s] assms(1,3,4) alloc req
    by (simp add: ra_network_send_receive_def serve_msg0_def deliver_def)
qed

lemma prepare_gid_success: "\<exists>fr'. app_prepare_gid fr = (Inr 0, fr') \<and> app_sp fr' = app_sp fr"
  by (simp add: app_prepare_gid_def run_steps ok_def)

lemma prepare_msg0_success:
  assumes "calls_succeed groups (prov_lib p) A"
  shows "\<exists>fr' w. app_prepare_msg0 p gid fr = (Inr \<lparr>req_type = ra_msg_type_code TYPE_RA_MSG0, req_size = 4,
      req_align = replicate 3 0, req_body = le32 gid\<rparr>, fr') \<and> app_sp fr' = (app_sp fr)\<lparr>sp_world := w\<rparr>"
proof -
  obtain got w where "malloc (prov_lib p) (sizeof_request_header + 4) (sp_world (app_sp fr)) = (got, w)"
    by (metis prod.exhaust)
  with calls_succeedD(6) [OF assms this]
  have "malloc (prov_lib p) (sizeof_request_header + 4) (sp_world (app_sp fr)) = (True, w)" by simp
  moreover obtain out where "PRINT_BYTE_ARRAY (Some (le32 gid)) 4 = Some out"
    using PRINT_BYTE_ARRAY_defined [of 4 "le32 gid"] by auto
  ultimately show ?thesis by (auto simp: app_prepare_msg0_def Let_def app_stmt_defs)
qed

lemma select_key_success:
  assumes "sdk_succeeds U"
  shows "\<exists>fr'. app_select_key U b fr = (Inr (), fr') \<and> prov_same fr fr'"
proof -
  let ?m = "take (unat (resp_size b)) (resp_body b)"
  obtain st key w where "sgx_select_att_key_id U ?m (sp_world (app_sp fr)) = ((st, key), w)"
    by (metis prod.exhaust)
  with sdk_succeedsD(1) [OF assms this] show ?thesis
    by (auto simp: app_select_key_def app_stmt_defs prov_same_def)
qed

lemma prov_same_registered: "prov_same fr fr' \<Longrightarrow> g_is_sp_registered (app_sp fr') = g_is_sp_registered (app_sp fr)"
  by (auto simp: prov_same_def)

lemma app_msg0_success:
  assumes "prov_groups p = g_extended_epid_groups (prov_lib p)" "calls_succeed groups (prov_lib p) A" "sdk_succeeds U"
    and "sp_wf (prov_groups p) (app_sp fr)" "\<not> g_is_sp_registered (app_sp fr)"
    and run: "app_msg0 p U fr = (r, fr')"
  shows "r \<noteq> Inl (Break e) \<and> (r = Inr () \<longrightarrow> g_is_sp_registered (app_sp fr'))"
proof -
  let ?req = "\<lparr>req_type = ra_msg_type_code TYPE_RA_MSG0, req_size = 4, req_align = replicate 3 0, req_body = le32 0\<rparr>"
  obtain fr0 where gid: "app_prepare_gid fr = (Inr 0, fr0)" "app_sp fr0 = app_sp fr"
    using prepare_gid_success by blast
  obtain fr1 w where msg0: "app_prepare_msg0 p 0 fr0 = (Inr ?req, fr1)" "app_sp fr1 = (app_sp fr0)\<lparr>sp_world := w\<rparr>"
    using prepare_msg0_success [OF assms(2)] by blast
  have "sp_wf (prov_groups p) (app_sp fr1)" "\<not> g_is_sp_registered (app_sp fr1)"
    using assms(4,5) gid(2) msg0(2) by (simp_all add: sp_wf_def)
  from msg0_exchange_success [OF assms(1,2) this, of ?req] obtain b s' where
    net: "ra_network_send_receive p True (Some ?req) True (app_sp fr1) = (Inr (0, Some (Some b)), s')"
      "g_is_sp_registered s'" by auto
  define fr2 where "fr2 = fr1\<lparr>app_sp := s', app_ret := Ret 0, p_msg0_resp_full := Some b,
    printed := printed fr1 @ [out_line ''>>>> Sending msg0 to SP.'', out_line ''Sent MSG0 to SP.'',
      out_line ''Trying to find out what the response MSG 0 is: -'']\<rparr>"
  from run have "attempt (print_array (resp_body b) (resp_size b)) (\<lambda>_. app_select_key U b) fr2 = (r, fr')"
    unfolding app_msg0_def attempt_run_Inr [where m = app_prepare_gid, OF gid(1)]
      attempt_run_Inr [where m = "app_prepare_msg0 p 0", OF msg0(1)] run_steps
    using net(1) by (simp add: send_def goto_cleanup_unless_def attempt_defined_Some run_steps fr2_def)
  moreover obtain out where "print_array (resp_body b) (resp_size b) fr2 = (Inl Fault, fr2) \<or>
      print_array (resp_body b) (resp_size b) fr2 = (Inr (), fr2\<lparr>printed := printed fr2 @ [out]\<rparr>)"
    by (cases "PRINT_BYTE_ARRAY (Some (resp_body b)) (resp_size b)") (auto simp: print_array_def app_stmt_defs)
  ultimately show ?thesis
    using select_key_success [OF assms(3), of b "fr2\<lparr>printed := printed fr2 @ [out]\<rparr>"] net(2)
    by (auto dest!: prov_same_registered simp: fr2_def)
qed

text \<open>A registered provider's answer to message 1 is accepted.\<close>

lemma app_exchange_success:
  assumes laws: "crypto_laws (prov_lib p) (prov_sha p) C absorbed H D V"
      "resource_laws (prov_lib p) (prov_sha p) blocks ctxs" "servers_ok (prov_groups p)"
    and ok: "calls_succeed (prov_groups p) (prov_lib p) (prov_sha p)"
    and wf: "sp_wf (prov_groups p) (app_sp fr)" "g_is_sp_registered (app_sp fr)" and plat: "platform_law (prov_lib p)"
    and req: "req_type req = ra_msg_type_code TYPE_RA_MSG1" "req_size req = 68" "length (req_body req) = 68"
  shows "\<exists>b fr'. app_exchange p req fr = (Inr b, fr')"
proof -
  let ?m = "cast_msg1 (req_body req)"
  have g_a: "length (msg1_g_a ?m) = 64" using req(3) by (simp add: cast_msg1_def)
  obtain b s' where served: "sp_ra_proc_msg1_req (supplied_derivation p) (prov_groups p) (prov_lib p) (prov_sha p)
      (Some ?m) 68 True (app_sp fr) = (Inr (0, Some (Some b)), s')"
    using msg1_succeeds [OF laws wf(1) g_a ok wf(2) plat] by blast
  then have ans: "msg2_answers (supplied_derivation p) C H D V (msg1_g_a ?m) s' b" and sized: "sized_response b"
    using msg1_result [OF laws wf(1) g_a served] by auto
  from ans have type: "resp_type b = ra_msg_type_code TYPE_RA_MSG2"
    by (auto simp: msg2_answers_def Let_def resp_size_block)
  have "body_readable sizeof_msg1 req" using req(3) by (simp add: body_readable_def)
  then have "ra_network_send_receive p True (Some req) True (app_sp fr) = (Inr (0, Some (Some b)), s')"
    using served req(1,2) by (simp add: ra_network_send_receive_def serve_msg1_def deliver_def)
  moreover obtain out where "PRINT_BYTE_ARRAY (Some b) (8 + resp_size b) = Some out"
    using response_printable [OF sized] by blast
  ultimately show ?thesis using type
    by (simp add: app_exchange_def send_def app_stmt_defs)
qed

lemma app_msg3_success:
  assumes "sdk_succeeds U" "urts_law U blocks" and run: "app_msg3 U b fr = (r, fr')"
  shows "r \<noteq> Inl (Break e)"
proof -
  let ?m = "take (unat (resp_size b)) (resp_body b)"
  obtain st m3 w where call: "sgx_ra_proc_msg2_ex U (selected_key_id fr) (ra_context fr) (enclave_id fr) ?m
      (sp_world (app_sp fr)) = ((st, m3), w)" by (metis prod.exhaust)
  from sdk_succeedsD(5) [OF assms(1) call] urts_lawD(5) [OF assms(2) call] obtain y n where "st = SGX_SUCCESS" "m3 = Some (y, n)"
    and n: "unat n = length y" by auto
  with call have "\<exists>fr1. proc_msg2_loop U ?m 2 fr = (Inr SGX_SUCCESS, fr1) \<and> p_msg3 fr1 = Some y \<and> msg3_size fr1 = n"
    by (subst proc_msg2_loop.simps) (simp add: run_steps ok_def del: attempt_run_Inr attempt_run_Inl)
  then obtain fr1 where "proc_msg2_loop U ?m 2 fr = (Inr SGX_SUCCESS, fr1)" "p_msg3 fr1 = Some y" "msg3_size fr1 = n" by blast
  with run show ?thesis
    by (auto simp: app_msg3_def app_stmt_defs split: option.splits prod.splits sum.splits)
qed

lemma body_completes:
  assumes groups: "prov_groups p = g_extended_epid_groups (prov_lib p)"
    and ok: "calls_succeed (prov_groups p) (prov_lib p) (prov_sha p)" "sdk_succeeds U" and law: "urts_law U blocks"
    and inv: "provider_inv blocks ctxs p s" and fresh: "\<not> g_is_sp_registered s"
  shows "\<exists>fr. app_body p U (app_start s) = (Inr (), fr)"
proof (cases rule: body_end_cases [OF law inv, case_names cleanup finished])
  case (finished fr)
  then show ?thesis by blast
next
  case (cleanup e fr)
  let ?b0 = "blocks (sp_world s)"
  have start: "at_stage 0 blocks ctxs p ?b0 (app_start s)" using inv by (simp add: app_defs app_start_def)
  have wf: "sp_wf (prov_groups p) (app_sp (app_start s))" "\<not> g_is_sp_registered (app_sp (app_start s))"
    using inv fresh by (simp_all add: provider_inv_def app_start_def)
  note msg0 = app_msg0_success [OF groups ok wf]
  from cleanup(1) msg0 obtain fr1 where s1: "app_msg0 p U (app_start s) = (Inr (), fr1)" "g_is_sp_registered (app_sp fr1)"
    by (fastforce simp: app_body_def attempt_Inl_iff)
  obtain fr2 where s2: "app_create U fr1 = (Inr (), fr2)" "prov_same fr1 fr2"
    using app_create_success [OF ok(2)] by blast
  obtain x fr3 where s3: "app_prepare_msg1 p U fr2 = (x, fr3)" by (metis prod.exhaust)
  note prep = prepare_msg1_success [OF ok(2,1) s3]
  from cleanup(1) s1 s2 s3 prep obtain req where req: "x = Inr req"
    by (cases x) (auto simp: app_body_def)
  have "at_stage 2 blocks ctxs p ?b0 fr2"
    using triple_Inr [OF app_create_triple [OF law] triple_Inr [OF app_msg0_triple [OF law] start s1(1)] s2(1)] .
  from triple_Inr [OF prepare_msg1_sets [OF law] this s3 [unfolded req]]
  have at3: "at_stage 3 blocks ctxs p ?b0 fr3" and r: "req_type req = ra_msg_type_code TYPE_RA_MSG1"
      "req_size req = 68" "length (req_body req) = 68"
    by (auto simp: msg1_prepared_def has_msg1_def)
  have "prov_same fr2 fr3" using prep by blast
  then have reg: "g_is_sp_registered (app_sp fr3)" using s1(2) s2(2) by (auto simp: prov_same_def)
  from at3 obtain C absorbed H D V where prov: "crypto_laws (prov_lib p) (prov_sha p) C absorbed H D V"
      "resource_laws (prov_lib p) (prov_sha p) blocks ctxs" "servers_ok (prov_groups p)" "sp_wf (prov_groups p) (app_sp fr3)"
      and plat: "platform_law (prov_lib p)"
    by (auto simp: app_inv_def provider_inv_def)
  obtain b fr4 where s4: "app_exchange p req fr3 = (Inr b, fr4)"
    using app_exchange_success [OF prov(1-3) ok(1) prov(4) reg plat r] by blast
  have "app_msg3 U b fr4 = (Inl (Break e), fr)"
    using cleanup(1) s1(1) s2(1) s3 req s4 by (simp add: app_body_def)
  with app_msg3_success [OF ok(2) law this] show ?thesis by blast
qed

text \<open>\<open>main\<close> ends with a message 3 in hand only when its body came to its end.\<close>

lemma main_finished:
  assumes "urts_law U blocks" "provider_inv blocks ctxs p s"
    and "app_main p U s = (Inr r, fr)" "p_msg3 fr \<noteq> None"
  shows "app_body p U (app_start s) = (Inr (), fr) \<and> r = app_ret fr"
proof (cases rule: body_end_cases [OF assms(1,2), case_names cleanup finished])
  case (cleanup e fr')
  then have "fr = app_cleanup p U fr'" using assms(3) by (simp add: app_main_def)
  then have "owned fr = 0" by (simp add: cleanup_owned)
  with assms(4) show ?thesis by (auto simp: owned_def)
next
  case (finished fr')
  then show ?thesis using assms(3) by (auto simp: app_main_def)
qed

section \<open>Properties\<close>

text \<open>
  C1: A finished run means an attested session: when \<open>main\<close> ends with a message 3 in hand, which it
  does only on its success path, it exits with success; message 3 is the SDK's answer to the body of
  the message 2 received, which carries the provider's signature over \<open>g_b\<close> and the very \<open>g_a\<close> of
  the message 1 the SDK produced; and the provider holds the session keys of this pair of keys.
\<close>

theorem app_main_session:
  assumes "crypto_laws (prov_lib p) (prov_sha p) C absorbed H D V" "urts_law U blocks"
    and "provider_inv blocks ctxs p s"
    and "app_main p U s = (Inr r, fr)" "p_msg3 fr \<noteq> None"
  shows "r = Status SGX_SUCCESS \<and> sdk_messages U fr \<and> session_established p C H D V fr"
proof -
  have body: "app_body p U (app_start s) = (Inr (), fr)" "r = app_ret fr"
    using main_finished [OF assms(2-5)] by simp_all
  from body_session [OF assms(1-3) body(1)] body_ret [OF body(1)] body(2) show ?thesis by simp
qed

text \<open>
  C10: The attestation completes: a provider that is not registered yet and serves the simulated
  attestation server, an SDK and a crypto library of which no call fails, bring \<open>main\<close> through all
  its steps to a message 3 and an established session.
\<close>

theorem app_main_completes:
  assumes "crypto_laws (prov_lib p) (prov_sha p) C absorbed H D V" "urts_law U blocks"
    and "provider_inv blocks ctxs p s" "\<not> g_is_sp_registered s"
    and "prov_groups p = g_extended_epid_groups (prov_lib p)"
    and "calls_succeed (prov_groups p) (prov_lib p) (prov_sha p)" "sdk_succeeds U"
  shows "\<exists>fr. app_main p U s = (Inr (Status SGX_SUCCESS), fr) \<and> sdk_messages U fr \<and>
    session_established p C H D V fr"
proof -
  obtain fr where run: "app_body p U (app_start s) = (Inr (), fr)"
    using body_completes [OF assms(5,6,7,2,3,4)] by blast
  with body_session [OF assms(1-3) run] body_ret [OF run] show ?thesis by (simp add: app_main_def)
qed

lemma example_sdk_succeeds: "sdk_succeeds example_urts"
  by (simp add: sdk_succeeds_def example_urts_def)

lemma example_provider_simps:
  "prov_groups example_provider = g_extended_epid_groups example_lib" "prov_lib example_provider = example_lib"
  "prov_sha example_provider = example_sha SAMPLE_SUCCESS"
  by (simp_all add: example_provider_def)

lemma example_run_laws:
  "crypto_laws (prov_lib example_provider) (prov_sha example_provider) example_cmac (\<lambda>w h. sha_data w) example_hash
     example_dh example_valid"
  "provider_inv live_blocks live_ctxs example_provider (sp_init world0)"
  "\<not> g_is_sp_registered (sp_init world0)"
  "calls_succeed (prov_groups example_provider) (prov_lib example_provider) (prov_sha example_provider)"
  by (simp_all only: example_provider_simps example_crypto_laws provider_inv_init [OF example_provider_ok]
      example_calls_succeed) (simp add: sp_init_def)

theorem app_main_session_witness:
  "\<exists>fr. app_main example_provider example_urts (sp_init world0) = (Inr (Status SGX_SUCCESS), fr) \<and>
     sdk_messages example_urts fr \<and>
     session_established example_provider example_cmac example_hash example_dh example_valid fr"
proof -
  obtain fr where run: "app_body example_provider example_urts (app_start (sp_init world0)) = (Inr (), fr)"
    using body_completes [OF _ example_run_laws(4) example_sdk_succeeds example_urts_law example_run_laws(2,3)]
    by (auto simp: example_provider_simps)
  then have main: "app_main example_provider example_urts (sp_init world0) = (Inr (app_ret fr), fr)" "p_msg3 fr \<noteq> None"
    using body_session [OF example_run_laws(1) example_urts_law example_run_laws(2) run]
    by (auto simp: app_main_def sdk_messages_def)
  from app_main_session [OF example_run_laws(1) example_urts_law example_run_laws(2) main] main(1) show ?thesis by auto
qed

theorem app_main_completes_witness:
  "\<exists>fr. app_main example_provider example_urts (sp_init world0) = (Inr (Status SGX_SUCCESS), fr) \<and>
     sdk_messages example_urts fr"
  using app_main_completes [OF example_run_laws(1) example_urts_law example_run_laws(2,3) _ example_run_laws(4)
      example_sdk_succeeds]
  by (auto simp: example_provider_simps)

end
