(* ===== verification/Isv_Enclave.thy ===== *)
theory Isv_Enclave
  imports Sgx_Api Sp_Properties
begin

text \<open>
  \<open>enclave/enclave.cpp\<close>: the attestation enclave.  Its ecalls open and close a key exchange
  context on the provider's hard-coded public key, check the MAC of the attestation result and
  take the provider's secret; compiled with \<open>SUPPLIED_KEY_DERIVATION\<close> it brings its own key
  derivation.  The cross-component results: the enclave pins the provider's key and both sides
  derive the same four keys.
\<close>

section \<open>Globals\<close>

definition isv_g_sp_pub_key :: "byte list" where
  "isv_g_sp_pub_key = [
     0x72, 0x12, 0x8a, 0x7a, 0x17, 0x52, 0x6e, 0xbf,
     0x85, 0xd0, 0x3a, 0x62, 0x37, 0x30, 0xae, 0xad,
     0x3e, 0x3d, 0xaa, 0xee, 0x9c, 0x60, 0x73, 0x1d,
     0xb0, 0x5b, 0xe8, 0x62, 0x1c, 0x4b, 0xeb, 0x38] @ [
     0xd4, 0x81, 0x40, 0xd9, 0x50, 0xe2, 0x57, 0x7b,
     0x26, 0xee, 0xb7, 0x41, 0xe7, 0xc6, 0x14, 0xe2,
     0x24, 0xb7, 0xbd, 0xc9, 0x03, 0xf2, 0x9a, 0x28,
     0xa8, 0x3c, 0xc8, 0x10, 0x11, 0x14, 0x5e, 0x06]"

record 'w isv_state =
  g_secret :: "byte list"
  isv_world :: 'w

definition isv_init :: "'w \<Rightarrow> 'w isv_state" where
  "isv_init w = \<lparr>g_secret = replicate 8 0, isv_world = w\<rparr>"

section \<open>The supplied key derivation\<close>

definition isv_ID_U :: "byte list" where "isv_ID_U = bytes_of_string ''SGXRAENCLAVE'' @ [0]"
definition isv_ID_V :: "byte list" where "isv_ID_V = bytes_of_string ''SGXRASERVER'' @ [0]"

record isv_hash_buffer_t =
  isv_counter :: "byte list"
  isv_shared_secret :: "byte list"
  isv_algorithm_id :: "byte list"

definition isv_hash_buffer_bytes :: "isv_hash_buffer_t \<Rightarrow> byte list" where
  "isv_hash_buffer_bytes b = isv_counter b @ isv_shared_secret b @ isv_algorithm_id b"

text \<open>The same index loop as the provider's, over \<open>sgx_ec256_dh_shared_t\<close> (32 bytes).\<close>

definition isv_hash_buffer :: "byte list \<Rightarrow> byte \<Rightarrow> isv_hash_buffer_t" where
  "isv_hash_buffer p_shared_key key_id =
     \<lparr>isv_counter = (replicate 4 0)[3 := key_id],
      isv_shared_secret = endian_loop 32 0 p_shared_key (replicate 32 0),
      isv_algorithm_id = replicate 4 0\<rparr>"

definition isv_derive_key ::
  "(sgx_status_t, 'w) sha_api \<Rightarrow> byte list \<Rightarrow> byte \<Rightarrow> 'w \<Rightarrow> (bool \<times> (byte list \<times> byte list) option) \<times> 'w" where
  "isv_derive_key A p_shared_key key_id w =
     (case sha_init A w of ((st0, h), w0) \<Rightarrow>
        if st0 \<noteq> SGX_SUCCESS then ((False, None), w0)
        else (case sha_update A (isv_hash_buffer_bytes (isv_hash_buffer p_shared_key key_id)) h w0 of (st1, w1) \<Rightarrow>
          if st1 \<noteq> SGX_SUCCESS then ((False, None), snd (sha_close A h w1))
          else (case sha_update A isv_ID_U h w1 of (st2, w2) \<Rightarrow>
            if st2 \<noteq> SGX_SUCCESS then ((False, None), snd (sha_close A h w2))
            else (case sha_update A isv_ID_V h w2 of (st3, w3) \<Rightarrow>
              if st3 \<noteq> SGX_SUCCESS then ((False, None), snd (sha_close A h w3))
              else (case sha_get_hash A h w3 of ((st4, key_material), w4) \<Rightarrow>
                if st4 \<noteq> SGX_SUCCESS then ((False, None), snd (sha_close A h w4))
                else ((True, Some (take 16 key_material, take 16 (drop 16 key_material))),
                      snd (sha_close A h w4)))))))"

definition ISV_KDF_ID :: u16 where "ISV_KDF_ID = 2"

datatype derive_key_type_t = DERIVE_KEY_SMK_SK | DERIVE_KEY_MK_VK

fun isv_derive_key_code :: "derive_key_type_t \<Rightarrow> byte" where
  "isv_derive_key_code DERIVE_KEY_SMK_SK = 0"
| "isv_derive_key_code DERIVE_KEY_MK_VK = 1"

text \<open>The status and what was written to the buffers of (SMK, SK) and (MK, VK).\<close>

definition key_derivation :: "(sgx_status_t, 'w) sha_api \<Rightarrow> 'w key_derivation_cb" where
  "key_derivation A p_shared_key kdf_id w =
     (case p_shared_key of
        None \<Rightarrow> ((SGX_ERROR_INVALID_PARAMETER, None, None), w)
      | Some shared_key \<Rightarrow>
          if ISV_KDF_ID \<noteq> kdf_id then ((SGX_ERROR_KDF_MISMATCH, None, None), w)
          else (case isv_derive_key A shared_key (isv_derive_key_code DERIVE_KEY_SMK_SK) w of
            ((derive_ret, smk_sk), w1) \<Rightarrow>
              if \<not> derive_ret then ((SGX_ERROR_UNEXPECTED, smk_sk, None), w1)
              else (case isv_derive_key A shared_key (isv_derive_key_code DERIVE_KEY_MK_VK) w1 of
                ((derive_ret2, mk_vk), w2) \<Rightarrow>
                  if \<not> derive_ret2 then ((SGX_ERROR_UNEXPECTED, smk_sk, mk_vk), w2)
                  else ((SGX_SUCCESS, smk_sk, mk_vk), w2))))"

section \<open>The ecalls\<close>

definition enclave_init_ra ::
  "bool \<Rightarrow> 'w sgx_tke \<Rightarrow> (sgx_status_t, 'w) sha_api \<Rightarrow> int \<Rightarrow> 'w isv_state \<Rightarrow>
   (sgx_status_t \<times> sgx_ra_context_t option) \<times> 'w isv_state" where
  "enclave_init_ra supplied T A b_pse s =
     (case (if supplied then sgx_ra_init_ex T isv_g_sp_pub_key b_pse (key_derivation A) (isv_world s)
            else sgx_ra_init T isv_g_sp_pub_key b_pse (isv_world s)) of
        (r, w) \<Rightarrow> (r, s\<lparr>isv_world := w\<rparr>))"

definition enclave_ra_close ::
  "'w sgx_tke \<Rightarrow> sgx_ra_context_t \<Rightarrow> 'w isv_state \<Rightarrow> sgx_status_t \<times> 'w isv_state" where
  "enclave_ra_close T ctx s =
     (case sgx_ra_close T ctx (isv_world s) of (ret, w) \<Rightarrow> (ret, s\<lparr>isv_world := w\<rparr>))"

text \<open>\<open>consttime_memequal\<close> on the 16 bytes of both MACs.\<close>

definition verify_att_result_mac ::
  "'w sgx_tke \<Rightarrow> sgx_ra_context_t \<Rightarrow> byte list \<Rightarrow> u64 \<Rightarrow> byte list \<Rightarrow> u64 \<Rightarrow> 'w isv_state \<Rightarrow>
   (ub + sgx_status_t) \<times> 'w isv_state" where
  "verify_att_result_mac T ctx p_message message_size p_mac mac_size s =
     (if mac_size \<noteq> 16 then (Inr SGX_ERROR_INVALID_PARAMETER, s)
      else if 0xffffffff < message_size then (Inr SGX_ERROR_INVALID_PARAMETER, s)
      else (case sgx_ra_get_keys T ctx SGX_RA_KEY_MK (isv_world s) of ((st, mk), w1) \<Rightarrow>
        if st \<noteq> SGX_SUCCESS then (Inr st, s\<lparr>isv_world := w1\<rparr>)
        else (case load 0 (unat (ucast message_size :: u32)) p_message of
          None \<Rightarrow> (Inl Undefined, s\<lparr>isv_world := w1\<rparr>)
        | Some msg \<Rightarrow>
            (case sgx_cmac_msg T mk msg w1 of ((st2, mac), w2) \<Rightarrow>
              if st2 \<noteq> SGX_SUCCESS then (Inr st2, s\<lparr>isv_world := w2\<rparr>)
              else (case (load 0 16 p_mac, load 0 16 mac) of
                (Some a, Some b) \<Rightarrow>
                  (Inr (if a = b then SGX_SUCCESS else SGX_ERROR_MAC_MISMATCH), s\<lparr>isv_world := w2\<rparr>)
              | _ \<Rightarrow> (Inl Undefined, s\<lparr>isv_world := w2\<rparr>))))))"

text \<open>The comparison loop: \<open>n\<close> rounds from index \<open>i\<close>, the flag as accumulator.\<close>

fun secret_loop :: "nat \<Rightarrow> nat \<Rightarrow> byte list \<Rightarrow> bool \<Rightarrow> bool" where
  "secret_loop 0 i secret secret_match = secret_match"
| "secret_loop (Suc n) i secret secret_match =
     secret_loop n (Suc i) secret (if unat (secret ! i) \<noteq> i then False else secret_match)"

definition put_secret_data ::
  "'w sgx_tke \<Rightarrow> sgx_ra_context_t \<Rightarrow> byte list \<Rightarrow> u32 \<Rightarrow> byte list \<Rightarrow> 'w isv_state \<Rightarrow>
   (ub + sgx_status_t) \<times> 'w isv_state" where
  "put_secret_data T ctx p_secret secret_size p_gcm_mac s =
     (if secret_size \<noteq> 8 then (Inr SGX_ERROR_INVALID_PARAMETER, s)
      else (case sgx_ra_get_keys T ctx SGX_RA_KEY_SK (isv_world s) of ((st, sk), w1) \<Rightarrow>
        if st \<noteq> SGX_SUCCESS then (Inr st, s\<lparr>isv_world := w1\<rparr>)
        else (case (load 0 (unat secret_size) p_secret, load 0 16 p_gcm_mac) of
          (Some c, Some tag) \<Rightarrow>
            (case sgx_gcm_decrypt T sk c (replicate 12 0) [] tag w1 of ((ret, out), w2) \<Rightarrow>
              let s' = s\<lparr>isv_world := w2, g_secret := (case out of None \<Rightarrow> g_secret s | Some p \<Rightarrow> p)\<rparr>;
                  secret_match = secret_loop (unat secret_size) 0 (g_secret s') True
              in (Inr (if secret_match then ret else SGX_ERROR_UNEXPECTED), s'))
        | _ \<Rightarrow> (Inl Undefined, s\<lparr>isv_world := w1\<rparr>))))"

section \<open>Results of the derivation\<close>

lemma isv_hash_buffer_bytes_eq:
  assumes "length shared = 32"
  shows "isv_hash_buffer_bytes (isv_hash_buffer shared key_id) = hash_buffer_bytes (hash_buffer shared key_id)"
  by (simp add: isv_hash_buffer_bytes_def isv_hash_buffer_def hash_buffer_bytes_def hash_buffer_def
      SAMPLE_ECP_KEY_SIZE_def)

lemma isv_derive_key_result:
  assumes "sha_law A SGX_SUCCESS absorbed H" "length shared = 32"
    and "isv_derive_key A shared key_id w = ((True, out), w')"
  shows "out = Some (take 16 (supplied_kdf H shared key_id), take 16 (drop 16 (supplied_kdf H shared key_id)))"
proof -
  from assms(3) obtain h w0 w1 w2 w3 w4 km where
    "sha_init A w = ((SGX_SUCCESS, h), w0)"
    "sha_update A (isv_hash_buffer_bytes (isv_hash_buffer shared key_id)) h w0 = (SGX_SUCCESS, w1)"
    "sha_update A isv_ID_U h w1 = (SGX_SUCCESS, w2)" "sha_update A isv_ID_V h w2 = (SGX_SUCCESS, w3)"
    "sha_get_hash A h w3 = ((SGX_SUCCESS, km), w4)"
    and out: "out = Some (take 16 km, take 16 (drop 16 km))"
    by (auto simp: isv_derive_key_def split: prod.splits if_splits)
  then have "km = supplied_kdf H shared key_id"
    using sha_three_updates [OF assms(1)]
    by (fastforce simp: supplied_kdf_def isv_hash_buffer_bytes_eq [OF assms(2)]
        hash_buffer_bytes_eq [OF assms(2)] isv_ID_U_def isv_ID_V_def ID_U_def ID_V_def)
  with out show ?thesis by simp
qed

lemma key_derivation_result:
  assumes "sha_law A SGX_SUCCESS absorbed H" "length shared = 32"
    and "key_derivation A (Some shared) kdf_id w = ((SGX_SUCCESS, k1, k2), w')"
  shows "kdf_id = ISV_KDF_ID \<and>
    k1 = Some (take 16 (supplied_kdf H shared 0), take 16 (drop 16 (supplied_kdf H shared 0))) \<and>
    k2 = Some (take 16 (supplied_kdf H shared 1), take 16 (drop 16 (supplied_kdf H shared 1)))"
  using assms(3) isv_derive_key_result [OF assms(1,2), of 0] isv_derive_key_result [OF assms(1,2), of 1]
  by (fastforce simp: key_derivation_def split: prod.splits if_splits)

lemma secret_loop_iff:
  "secret_loop n i secret m \<longleftrightarrow> m \<and> (\<forall>j \<in> {i..<i + n}. unat (secret ! j) = j)"
proof (induction n arbitrary: i m)
  case 0
  then show ?case by simp
next
  case (Suc n)
  have "{i..<i + Suc n} = insert i {Suc i..<Suc i + n}" by auto
  with Suc.IH [of "Suc i"] show ?case by auto
qed

lemma size_in_u32:
  fixes n :: u64
  assumes "\<not> 0xffffffff < n"
  shows "unat (ucast n :: u32) = unat n"
proof -
  have "unat n < 2 ^ 32" using assms by (simp add: word_less_nat_alt)
  then show ?thesis by (simp add: unsigned_ucast_eq take_bit_nat_eq_self)
qed

text \<open>When the MAC of an attestation result is accepted.\<close>

lemma verify_mac_accepts:
  assumes "sgx_cmac_law T C" "unat message_size = length p_message" "unat mac_size = length p_mac"
  shows "fst (verify_att_result_mac T ctx p_message message_size p_mac mac_size s) = Inr SGX_SUCCESS \<longleftrightarrow>
    length p_mac = 16 \<and> length p_message < 2 ^ 32 \<and>
    (\<exists>mk tag w1 w2. sgx_ra_get_keys T ctx SGX_RA_KEY_MK (isv_world s) = ((SGX_SUCCESS, mk), w1) \<and>
       sgx_cmac_msg T mk p_message w1 = ((SGX_SUCCESS, tag), w2) \<and> p_mac = C mk p_message)"
proof -
  have mac: "mac_size = 16 \<longleftrightarrow> length p_mac = 16"
    using assms(3) by (simp add: word_unat_eq_iff)
  have msg: "0xffffffff < message_size \<longleftrightarrow> \<not> length p_message < 2 ^ 32"
    using assms(2) by (auto simp: word_less_nat_alt)
  show ?thesis
  proof (cases "length p_mac = 16 \<and> length p_message < 2 ^ 32")
    case False
    then show ?thesis by (auto simp: verify_att_result_mac_def mac msg)
  next
    case True
    then have "unat (ucast message_size :: u32) = length p_message"
      using size_in_u32 [of message_size] assms(2) msg by simp
    then have read: "load 0 (unat (ucast message_size :: u32)) p_message = Some p_message" "load 0 16 p_mac = Some p_mac"
      using True by (simp_all add: load_def)
    show ?thesis
    proof -
      obtain st mk w1 where keys: "sgx_ra_get_keys T ctx SGX_RA_KEY_MK (isv_world s) = ((st, mk), w1)"
        by (metis prod.exhaust)
      obtain st2 tag w2 where run: "sgx_cmac_msg T mk p_message w1 = ((st2, tag), w2)"
        by (metis prod.exhaust)
      have "tag = C mk p_message \<and> length tag = 16" if "st2 = SGX_SUCCESS"
        using run that sgx_cmac_lawD [OF assms(1)] by blast
      then show ?thesis
        using True mac msg read keys run by (auto simp: verify_att_result_mac_def load_def)
    qed
  qed
qed

text \<open>What the secret's receipt leaves behind.\<close>

lemma put_secret_outcome:
  assumes "sgx_gcm_law T G" "length (g_secret s) = 8" "length p_secret = 8" "length p_gcm_mac = 16"
    and "put_secret_data T ctx p_secret 8 p_gcm_mac s = (Inr ret, s')"
    and "sgx_ra_get_keys T ctx SGX_RA_KEY_SK (isv_world s) = ((SGX_SUCCESS, sk), w1)"
  shows "length (g_secret s') = 8 \<and>
    (g_secret s' \<noteq> map of_nat [0..<8] \<longrightarrow> ret = SGX_ERROR_UNEXPECTED) \<and>
    (g_secret s' = map of_nat [0..<8] \<longrightarrow>
       ret = fst (fst (sgx_gcm_decrypt T sk p_secret (replicate 12 0) [] p_gcm_mac w1))) \<and>
    (ret = SGX_SUCCESS \<longrightarrow> g_secret s' = G sk p_secret (replicate 12 0) [] p_gcm_mac)"
proof -
  obtain st out w2 where run: "sgx_gcm_decrypt T sk p_secret (replicate 12 0) [] p_gcm_mac w1 = ((st, out), w2)"
    by (metis prod.exhaust)
  have s': "g_secret s' = (case out of None \<Rightarrow> g_secret s | Some p \<Rightarrow> p)"
    and ret: "ret = (if secret_loop 8 0 (g_secret s') True then st else SGX_ERROR_UNEXPECTED)"
    using assms(3-6) run by (auto simp: put_secret_data_def load_def Let_def)
  have len: "length (g_secret s') = 8"
    using s' assms(2,3) sgx_gcm_lawD(1) [OF assms(1)] run by (auto split: option.splits)
  have match: "secret_loop 8 0 (g_secret s') True \<longleftrightarrow> g_secret s' = map of_nat [0..<8]"
    using len by (auto simp: secret_loop_iff list_eq_iff_nth_eq word_unat_eq_iff unat_of_nat)
  have "out = Some (G sk p_secret (replicate 12 0) [] p_gcm_mac)" if "st = SGX_SUCCESS"
    using run that sgx_gcm_lawD(2) [OF assms(1)] by blast
  then have plain: "g_secret s' = G sk p_secret (replicate 12 0) [] p_gcm_mac" if "st = SGX_SUCCESS"
    using that s' by simp
  have fetch: "fst (fst (sgx_gcm_decrypt T sk p_secret (replicate 12 0) [] p_gcm_mac w1)) = st"
    by (simp only: run fst_conv)
  show ?thesis
  proof (cases "g_secret s' = map of_nat [0..<8]")
    case True
    then have "ret = st" unfolding ret match by (rule if_P)
    with True len plain fetch show ?thesis by blast
  next
    case False
    then have "ret = SGX_ERROR_UNEXPECTED" unfolding ret match by (rule if_not_P)
    with False len show ?thesis by blast
  qed
qed

section \<open>Properties\<close>

text \<open>The example key exchange: keys are constant, the MAC is the example CMAC, decryption is the identity.\<close>

definition example_tke :: "example_world sgx_tke" where
  "example_tke =
     \<lparr>sgx_ra_init = (\<lambda>pub b w. ((SGX_SUCCESS, Some 1), w)),
      sgx_ra_init_ex = (\<lambda>pub b cb w. ((SGX_SUCCESS, Some 1), w)),
      sgx_ra_close = (\<lambda>ctx w. (SGX_SUCCESS, w)),
      sgx_ra_get_keys = (\<lambda>ctx k w. ((SGX_SUCCESS, replicate 16 (case k of SGX_RA_KEY_SK \<Rightarrow> 1 | SGX_RA_KEY_MK \<Rightarrow> 2 | SGX_RA_KEY_VK \<Rightarrow> 3)), w)),
      sgx_cmac_msg = (\<lambda>k d w. ((SGX_SUCCESS, example_cmac k d), w)),
      sgx_gcm_decrypt = (\<lambda>k c iv aad tag w. ((SGX_SUCCESS, Some c), w))\<rparr>"

lemma example_sgx_cmac_law: "sgx_cmac_law example_tke example_cmac"
  using example_sizes_law by (simp add: sgx_cmac_law_def example_tke_def sizes_law_def example_lib_def wire_sizes)

lemma example_sgx_gcm_law: "sgx_gcm_law example_tke (\<lambda>k c iv aad tag. c)"
  by (simp add: sgx_gcm_law_def example_tke_def)

text \<open>Both sides of the supplied derivation agree: when the provider's session keys and the enclave's key
  derivation come from the same shared secret under the same hash, SMK, SK, MK and VK are equal.\<close>

lemma both_sides_same_keys:
  assumes "sha_law A SGX_SUCCESS absorbed H" "length shared = 32"
    and "session_keys True C H shared db"
    and "key_derivation A (Some shared) ISV_KDF_ID w = ((SGX_SUCCESS, k1, k2), w')"
  shows "k1 = Some (smk_key db, sk_key db) \<and> k2 = Some (mk_key db, vk_key db)"
  using key_derivation_result [OF assms(1,2,4)] assms(3) by (simp add: session_keys_def)

text \<open>The enclave opens its key exchange on the provider's public key: the table it pins is the provider's, both
  with the default and with the supplied derivation, and its globals are untouched.\<close>

lemma enclave_pins_provider_key:
  "isv_g_sp_pub_key = g_sp_pub_key \<and> length g_sp_pub_key = 64 \<and>
   fst (enclave_init_ra supplied T A b_pse s) =
     fst (if supplied then sgx_ra_init_ex T g_sp_pub_key b_pse (key_derivation A) (isv_world s)
          else sgx_ra_init T g_sp_pub_key b_pse (isv_world s)) \<and>
   g_secret (snd (enclave_init_ra supplied T A b_pse s)) = g_secret s"
proof -
  have "isv_g_sp_pub_key = g_sp_pub_key" by (simp add: isv_g_sp_pub_key_def g_sp_pub_key_def)
  moreover have "length g_sp_pub_key = 64" by (simp add: g_sp_pub_key_def)
  ultimately show ?thesis by (simp add: enclave_init_ra_def split: prod.split)
qed

text \<open>C21: The MAC of an attestation result is accepted exactly when it is 16 bytes long, the message size fits 32 bits,
  the MK is available and the CMAC under it, which must succeed, equals the given MAC; in particular the
  truncation of the size to 32 bits never changes which bytes are authenticated.\<close>

theorem verify_att_result_mac_iff:
  assumes "sgx_cmac_law T C" "unat message_size = length p_message" "unat mac_size = length p_mac"
  shows "fst (verify_att_result_mac T ctx p_message message_size p_mac mac_size s) = Inr SGX_SUCCESS \<longleftrightarrow>
    length p_mac = 16 \<and> length p_message < 2 ^ 32 \<and>
    (\<exists>mk tag w1 w2. sgx_ra_get_keys T ctx SGX_RA_KEY_MK (isv_world s) = ((SGX_SUCCESS, mk), w1) \<and>
       sgx_cmac_msg T mk p_message w1 = ((SGX_SUCCESS, tag), w2) \<and> p_mac = C mk p_message)"
  using assms by (rule verify_mac_accepts)

theorem verify_att_result_mac_iff_witness:
  "fst (verify_att_result_mac example_tke 1 [1, 2, 3] 3 (example_cmac (replicate 16 2) [1, 2, 3]) 16 (isv_init world0)) =
     Inr SGX_SUCCESS"
proof -
  have "length (example_cmac (replicate 16 2) [1, 2, 3]) = 16" by (simp add: example_cmac_def)
  then show ?thesis
    using verify_att_result_mac_iff [OF example_sgx_cmac_law, of 3 "[1, 2, 3]" 16
        "example_cmac (replicate 16 2) [1, 2, 3]" 1 "isv_init world0"]
    by (simp add: example_tke_def)
qed

text \<open>C22: The secret is accepted only when it decrypts: success means the size was 8, the SK was available, the
  authenticated decryption succeeded and \<open>g_secret\<close> now holds 0 to 7.  Any other content of
  \<open>g_secret\<close> turns the status, a decryption error included, into \<open>SGX_ERROR_UNEXPECTED\<close>.\<close>

theorem put_secret_data_result:
  assumes "sgx_gcm_law T G" "length (g_secret s) = 8" "length p_secret = 8" "length p_gcm_mac = 16"
    and "put_secret_data T ctx p_secret 8 p_gcm_mac s = (Inr ret, s')"
    and "sgx_ra_get_keys T ctx SGX_RA_KEY_SK (isv_world s) = ((SGX_SUCCESS, sk), w1)"
  shows "length (g_secret s') = 8 \<and>
    (g_secret s' \<noteq> map of_nat [0..<8] \<longrightarrow> ret = SGX_ERROR_UNEXPECTED) \<and>
    (g_secret s' = map of_nat [0..<8] \<longrightarrow>
       ret = fst (fst (sgx_gcm_decrypt T sk p_secret (replicate 12 0) [] p_gcm_mac w1))) \<and>
    (ret = SGX_SUCCESS \<longrightarrow> g_secret s' = G sk p_secret (replicate 12 0) [] p_gcm_mac)"
  using assms by (rule put_secret_outcome)

theorem put_secret_data_result_witness:
  "\<exists>s'. put_secret_data example_tke 1 [0, 1, 2, 3, 4, 5, 6, 8] 8 (replicate 16 0) (isv_init world0) =
     (Inr SGX_ERROR_UNEXPECTED, s')"
proof -
  obtain ret s' where run: "put_secret_data example_tke 1 [0, 1, 2, 3, 4, 5, 6, 8] 8 (replicate 16 0) (isv_init world0) = (Inr ret, s')"
    by (simp add: put_secret_data_def load_def example_tke_def isv_init_def Let_def)
  have "g_secret s' = [0, 1, 2, 3, 4, 5, 6, 8]"
    using run by (auto simp: put_secret_data_def load_def example_tke_def isv_init_def Let_def)
  then have "g_secret s' \<noteq> map of_nat [0..<8]" by (simp add: upt_rec)
  with put_secret_data_result [OF example_sgx_gcm_law _ _ _ run, of "replicate 16 1" world0] run
  show ?thesis by (simp add: isv_init_def example_tke_def)
qed

end
