(* ===== verification/Key_Agreement.thy ===== *)
theory Key_Agreement
  imports App_Session Isv_Enclave Sp_Session
begin

text \<open>
  The two ends of an attestation put together: after a finished run of the application the
  provider's globals and the enclave's key exchange hold the same keys, so that the enclave accepts
  what the provider authenticates and opens what it encrypts.  What the SDK's key exchange library
  does with message 2 is a documented law, \<open>tke_session\<close>.
\<close>

section \<open>The key exchange library\<close>

definition sgx_key_label :: "sgx_ra_key_type_t \<Rightarrow> byte list" where
  "sgx_key_label k = (case k of SGX_RA_KEY_SK \<Rightarrow> str_SK | SGX_RA_KEY_MK \<Rightarrow> str_MK | SGX_RA_KEY_VK \<Rightarrow> str_VK)"

text \<open>A key the enclave's callback derives from a shared secret under a derivation id.\<close>

definition callback_key ::
  "'w key_derivation_cb \<Rightarrow> byte list \<Rightarrow> u16 \<Rightarrow> sgx_ra_key_type_t \<Rightarrow> byte list \<Rightarrow> bool" where
  "callback_key cb shared kdf_id k key \<longleftrightarrow>
     (\<exists>w smk_sk mk_vk w'. cb (Some shared) kdf_id w = ((SGX_SUCCESS, smk_sk, mk_vk), w') \<and>
        Some key = (case k of
            SGX_RA_KEY_SK \<Rightarrow> map_option snd smk_sk
          | SGX_RA_KEY_MK \<Rightarrow> map_option fst mk_vk
          | SGX_RA_KEY_VK \<Rightarrow> map_option snd mk_vk))"

text \<open>
  A key exchange context that has processed a message 2: the keys it returns are those of the shared
  secret, from the callback with the id of the message when one was supplied, and otherwise from the
  documented CMAC derivation.
\<close>

definition tke_session ::
  "'w sgx_tke \<Rightarrow> (sgx_status_t, 'w) sha_api \<Rightarrow> (byte list \<Rightarrow> byte list \<Rightarrow> byte list) \<Rightarrow> bool \<Rightarrow>
   sgx_ra_context_t \<Rightarrow> byte list \<Rightarrow> u16 \<Rightarrow> bool" where
  "tke_session T A C supplied ctx shared kdf_id \<longleftrightarrow>
     (\<forall>k w key w'. sgx_ra_get_keys T ctx k w = ((SGX_SUCCESS, key), w') \<longrightarrow>
        (if supplied then callback_key (key_derivation A) shared kdf_id k key
         else key = kdf C shared (sgx_key_label k)))"

text \<open>The key of the provider's globals for each key type.\<close>

definition provider_key :: "sp_db_item_t \<Rightarrow> sgx_ra_key_type_t \<Rightarrow> byte list" where
  "provider_key db k = (case k of SGX_RA_KEY_SK \<Rightarrow> sk_key db | SGX_RA_KEY_MK \<Rightarrow> mk_key db | SGX_RA_KEY_VK \<Rightarrow> vk_key db)"

lemma provider_key_simps [simp]:
  "provider_key db SGX_RA_KEY_SK = sk_key db" "provider_key db SGX_RA_KEY_MK = mk_key db"
  "provider_key db SGX_RA_KEY_VK = vk_key db"
  by (simp_all add: provider_key_def)

section \<open>Equal keys\<close>

lemma same_keys:
  assumes "tke_session T A C supplied ctx shared kdf_id" "session_keys supplied C H shared db"
    and "sha_law A SGX_SUCCESS absorbed H" "length shared = 32"
    and "sgx_ra_get_keys T ctx k w = ((SGX_SUCCESS, key), w')"
  shows "key = provider_key db k"
proof (cases supplied)
  case True
  with assms(1,5) have "callback_key (key_derivation A) shared kdf_id k key"
    unfolding tke_session_def by meson
  then obtain v smk_sk mk_vk v' where cb: "key_derivation A (Some shared) kdf_id v = ((SGX_SUCCESS, smk_sk, mk_vk), v')"
    and key: "Some key = (case k of SGX_RA_KEY_SK \<Rightarrow> map_option snd smk_sk | SGX_RA_KEY_MK \<Rightarrow> map_option fst mk_vk
      | SGX_RA_KEY_VK \<Rightarrow> map_option snd mk_vk)"
    unfolding callback_key_def by blast
  from key_derivation_result [OF assms(3,4) cb] assms(2) True key show ?thesis
    by (cases k) (simp_all add: session_keys_def)
next
  case False
  with assms(1,5) have "key = kdf C shared (sgx_key_label k)" unfolding tke_session_def by meson
  with assms(2) False show ?thesis
    by (simp add: session_keys_def provider_key_def sgx_key_label_def split: sgx_ra_key_type_t.split)
qed

text \<open>The stored public key belongs to the stored private key.\<close>

lemma body_key_pair:
  assumes laws: "crypto_laws (prov_lib p) (prov_sha p) C absorbed H D V" "urts_law U blocks"
      "key_pair_law (prov_lib p) P"
    and "provider_inv blocks ctxs p s" "app_body p U (app_start s) = (Inr (), fr)"
  shows "db_g_b (g_sp_db (app_sp fr)) = P (db_b (g_sp_db (app_sp fr)))"
proof (rule body_exchange [OF laws(2) assms(4,5)])
  fix req b fr3 fr4
  assume ex: "app_exchange p req fr3 = (Inr b, fr4)" "same_session fr4 fr"
    and req: "req_type req = ra_msg_type_code TYPE_RA_MSG1" "wf_request req" "length (req_body req) = 68"
    and prov: "servers_ok (prov_groups p)" "sp_wf (prov_groups p) (app_sp fr3)" "p_msg2_full_app fr3 = None"
  have "length (msg1_g_a (cast_msg1 (req_body req))) = 64" using req(3) by (simp add: cast_msg1_def)
  from msg1_pair [OF laws(1) prov(1) laws(3) prov(2) this exchange_served [OF prov(3) req(1,2) ex(1)]] ex(2)
  show ?thesis by (simp add: same_session_def)
qed

section \<open>The enclave under the provider's keys\<close>

text \<open>The enclave can compute a MAC: its MK is available and the CMAC succeeds.\<close>

definition mac_available :: "'w sgx_tke \<Rightarrow> sgx_ra_context_t \<Rightarrow> byte list \<Rightarrow> 'w \<Rightarrow> bool" where
  "mac_available T ctx msg w \<longleftrightarrow>
     (\<exists>mk tag w1 w2. sgx_ra_get_keys T ctx SGX_RA_KEY_MK w = ((SGX_SUCCESS, mk), w1) \<and>
        sgx_cmac_msg T mk msg w1 = ((SGX_SUCCESS, tag), w2))"

definition same_session_keys :: "'w sgx_tke \<Rightarrow> sgx_ra_context_t \<Rightarrow> sp_db_item_t \<Rightarrow> bool" where
  "same_session_keys T ctx db \<longleftrightarrow>
     (\<forall>k w key w'. sgx_ra_get_keys T ctx k w = ((SGX_SUCCESS, key), w') \<longrightarrow> key = provider_key db k)"

lemma same_session_keysD:
  "same_session_keys T ctx db \<Longrightarrow> sgx_ra_get_keys T ctx k w = ((SGX_SUCCESS, key), w') \<Longrightarrow> key = provider_key db k"
  unfolding same_session_keys_def by blast

text \<open>An attestation result is accepted exactly with the provider's MAC.\<close>

lemma verify_under_provider_key:
  assumes "same_session_keys T ctx db" "sgx_cmac_law T C" "length msg < 2 ^ 32" "length mac = 16"
  shows "fst (verify_att_result_mac T ctx msg (of_nat (length msg)) mac 16 e) = Inr SGX_SUCCESS \<longleftrightarrow>
    mac_available T ctx msg (isv_world e) \<and> mac = C (mk_key db) msg"
proof -
  have key: "mk = mk_key db" if "sgx_ra_get_keys T ctx SGX_RA_KEY_MK w = ((SGX_SUCCESS, mk), w')" for w mk w'
    using same_session_keysD [OF assms(1) that] by simp
  have "unat (of_nat (length msg) :: u64) = length msg" using assms(3) by (simp add: unat_of_nat)
  from verify_mac_accepts [OF assms(2) this, of 16 mac ctx e] assms(3,4) show ?thesis
    by (auto simp: mac_available_def dest: key)
qed

text \<open>An accepted secret is what the provider's SK decrypts.\<close>

lemma secret_under_provider_key:
  assumes "same_session_keys T ctx db" "sgx_gcm_law T G"
    and len: "length (g_secret e) = 8" "length c = 8" "length tag = 16"
    and run: "put_secret_data T ctx c 8 tag e = (Inr SGX_SUCCESS, e')"
  shows "g_secret e' = G (sk_key db) c (replicate 12 0) [] tag \<and> g_secret e' = map of_nat [0..<8]"
proof -
  obtain st sk w1 where keys: "sgx_ra_get_keys T ctx SGX_RA_KEY_SK (isv_world e) = ((st, sk), w1)"
    by (metis prod.exhaust)
  with run have "st = SGX_SUCCESS" by (auto simp: put_secret_data_def split: if_splits)
  with keys have keys: "sgx_ra_get_keys T ctx SGX_RA_KEY_SK (isv_world e) = ((SGX_SUCCESS, sk), w1)" by simp
  then have "sk = sk_key db" using same_session_keysD [OF assms(1)] by fastforce
  with put_secret_outcome [OF assms(2) len run keys] show ?thesis by auto
qed

lemma attested_keys:
  assumes laws: "crypto_laws (prov_lib p) (prov_sha p) C absorbed H D V" "urts_law U blocks"
    and run: "provider_inv blocks ctxs p s" "app_main p U s = (Inr r, fr)" "p_msg3 fr \<noteq> None"
    and dh: "key_pair_law (prov_lib p) P" "dh_agrees D P"
    and msgs: "p_msg1_full fr = Some req" "take 64 (req_body req) = P a" "p_msg2_full_app fr = Some b"
    and enclave: "tke_session T A C (supplied_derivation p) ctx (D a (msg2_g_b (cast_msg2 b))) (msg2_kdf (cast_msg2 b))"
      "sha_law A SGX_SUCCESS absorbed' H"
  shows "same_session_keys T ctx (g_sp_db (app_sp fr)) \<and> msg2_kdf (cast_msg2 b) = msg2_kdf_id (supplied_derivation p)"
proof -
  let ?db = "g_sp_db (app_sp fr)"
  have body: "app_body p U (app_start s) = (Inr (), fr)" using main_finished [OF laws(2) run] ..
  have session: "msg2_g_b (cast_msg2 b) = db_g_b ?db" "msg2_kdf (cast_msg2 b) = msg2_kdf_id (supplied_derivation p)"
      "session_keys (supplied_derivation p) C H (D (db_b ?db) (P a)) ?db"
    using body_session [OF laws run(1) body] msgs by (auto simp: session_established_def Let_def)
  have "D (db_b ?db) (P a) = D a (msg2_g_b (cast_msg2 b))" and "length (D a (msg2_g_b (cast_msg2 b))) = 32"
    using body_key_pair [OF laws dh(1) run(1) body] session(1) dh(2) by (simp_all add: dh_agrees_def wire_sizes)
  with same_keys [OF enclave(1) _ enclave(2), of ?db] session show ?thesis
    by (auto simp: same_session_keys_def)
qed

section \<open>Properties\<close>

text \<open>C2: Key agreement end to end: when \<open>main\<close> ends with a message 3 in hand and the enclave's key exchange has
  processed the message 2 of that run with the private key of the \<open>g_a\<close> that was sent, then, for both
  derivations, every key the enclave obtains is the provider's key of the same name; it accepts an
  attestation result exactly with the provider's MAC under the MK, and a secret it accepts is the
  decryption under the provider's SK.\<close>

theorem attested_channel:
  assumes "crypto_laws (prov_lib p) (prov_sha p) C absorbed H D V" "urts_law U blocks"
    and "provider_inv blocks ctxs p s" "app_main p U s = (Inr r, fr)" "p_msg3 fr \<noteq> None"
    and "key_pair_law (prov_lib p) P" "dh_agrees D P"
    and "p_msg1_full fr = Some req" "take 64 (req_body req) = P a" "p_msg2_full_app fr = Some b"
    and "tke_session T A C (supplied_derivation p) ctx (D a (msg2_g_b (cast_msg2 b))) (msg2_kdf (cast_msg2 b))"
    and "sha_law A SGX_SUCCESS absorbed' H" "sgx_cmac_law T C" "sgx_gcm_law T G"
  shows "msg2_kdf (cast_msg2 b) = (if supplied_derivation p then ISV_KDF_ID else SAMPLE_AES_CMAC_KDF_ID) \<and>
    (\<forall>k w key w'. sgx_ra_get_keys T ctx k w = ((SGX_SUCCESS, key), w') \<longrightarrow>
       key = provider_key (g_sp_db (app_sp fr)) k) \<and>
    (\<forall>msg mac e. length msg < 2 ^ 32 \<and> length mac = 16 \<longrightarrow>
       (fst (verify_att_result_mac T ctx msg (of_nat (length msg)) mac 16 e) = Inr SGX_SUCCESS \<longleftrightarrow>
        mac_available T ctx msg (isv_world e) \<and> mac = C (mk_key (g_sp_db (app_sp fr))) msg)) \<and>
    (\<forall>c tag e e'. length (g_secret e) = 8 \<and> length c = 8 \<and> length tag = 16 \<and>
       put_secret_data T ctx c 8 tag e = (Inr SGX_SUCCESS, e') \<longrightarrow>
       g_secret e' = G (sk_key (g_sp_db (app_sp fr))) c (replicate 12 0) [] tag)"
proof (intro conjI allI impI)
  have same: "same_session_keys T ctx (g_sp_db (app_sp fr))"
    and kdf: "msg2_kdf (cast_msg2 b) = msg2_kdf_id (supplied_derivation p)"
    using attested_keys [OF assms(1-12)] by simp_all
  show "msg2_kdf (cast_msg2 b) = (if supplied_derivation p then ISV_KDF_ID else SAMPLE_AES_CMAC_KDF_ID)"
    unfolding kdf by (simp add: msg2_kdf_id_def ISV_KDF_ID_def SP_ISV_KDF_ID_def)
  show "key = provider_key (g_sp_db (app_sp fr)) k" if "sgx_ra_get_keys T ctx k w = ((SGX_SUCCESS, key), w')" for k w key w'
    using same that by (auto simp: same_session_keys_def)
  show "(fst (verify_att_result_mac T ctx msg (of_nat (length msg)) mac 16 e) = Inr SGX_SUCCESS) =
      (mac_available T ctx msg (isv_world e) \<and> mac = C (mk_key (g_sp_db (app_sp fr))) msg)"
    if "length msg < 2 ^ 32 \<and> length mac = 16" for msg mac e
    using that verify_under_provider_key [OF same assms(13)] by blast
  show "g_secret e' = G (sk_key (g_sp_db (app_sp fr))) c (replicate 12 0) [] tag"
    if "length (g_secret e) = 8 \<and> length c = 8 \<and> length tag = 16 \<and>
      put_secret_data T ctx c 8 tag e = (Inr SGX_SUCCESS, e')" for c tag e e'
    using that secret_under_provider_key [OF same assms(14)] by blast
qed

text \<open>An example key exchange that holds the keys of a given shared secret.\<close>

definition session_tke :: "byte list \<Rightarrow> example_world sgx_tke" where
  "session_tke shared = example_tke\<lparr>sgx_ra_get_keys :=
     (\<lambda>ctx k w. ((SGX_SUCCESS, kdf example_cmac shared (sgx_key_label k)), w))\<rparr>"

lemma session_tke_laws:
  "tke_session (session_tke shared) A example_cmac False ctx shared kdf_id"
  "sgx_cmac_law (session_tke shared) example_cmac" "sgx_gcm_law (session_tke shared) (\<lambda>k c iv aad tag. c)"
  "mac_available (session_tke shared) ctx msg w"
  using example_sgx_cmac_law example_sgx_gcm_law
  by (simp_all add: tke_session_def session_tke_def sgx_cmac_law_def sgx_gcm_law_def mac_available_def
      example_tke_def)

theorem attested_channel_witness:
  "\<exists>fr b. app_main example_provider example_urts (sp_init world0) = (Inr (Status SGX_SUCCESS), fr) \<and>
     p_msg2_full_app fr = Some b \<and>
     fst (verify_att_result_mac (session_tke (example_dh (replicate 32 1) (msg2_g_b (cast_msg2 b)))) 5 [1, 2, 3] 3
       (example_cmac (mk_key (g_sp_db (app_sp fr))) [1, 2, 3]) 16 (isv_init world0)) = Inr SGX_SUCCESS"
proof -
  obtain fr where body: "app_body example_provider example_urts (app_start (sp_init world0)) = (Inr (), fr)"
    using body_completes [OF _ example_run_laws(4) example_sdk_succeeds example_urts_law example_run_laws(2,3)]
    by (auto simp: example_provider_simps)
  have sdk: "sdk_messages example_urts fr"
    using body_session [OF example_run_laws(1) example_urts_law example_run_laws(2) body] by blast
  have main: "app_main example_provider example_urts (sp_init world0) = (Inr (Status SGX_SUCCESS), fr)"
    using body body_ret [OF body] by (simp add: app_main_def)
  from sdk obtain req b where msgs: "p_msg1_full fr = Some req" "p_msg2_full_app fr = Some b" "p_msg3 fr \<noteq> None"
    and "req_body req = replicate 68 1"
    by (auto simp: sdk_messages_def example_urts_def)
  then have g_a: "take 64 (req_body req) = example_pub (replicate 32 1)"
    by (simp add: example_pub_def flip: replicate_add)
  let ?T = "session_tke (example_dh (replicate 32 1) (msg2_g_b (cast_msg2 b)))"
  have pair: "key_pair_law (prov_lib example_provider) example_pub"
    using example_key_pair_law by (simp add: example_provider_simps)
  have tke: "tke_session ?T (example_sha SGX_SUCCESS) example_cmac (supplied_derivation example_provider) 5
      (example_dh (replicate 32 1) (msg2_g_b (cast_msg2 b))) (msg2_kdf (cast_msg2 b))"
    by (simp add: example_provider_def session_tke_laws(1))
  let ?mac = "example_cmac (mk_key (g_sp_db (app_sp fr))) [1, 2, 3]"
  note channel = attested_channel [OF example_run_laws(1) example_urts_law example_run_laws(2) main msgs(3) pair
      example_agrees msgs(1) g_a msgs(2) tke example_sha_law session_tke_laws(2,3)]
  have "length ?mac = 16" by (simp add: example_cmac_def)
  with channel [THEN conjunct2, THEN conjunct2, THEN conjunct1, THEN spec, THEN spec, THEN spec,
      of "[1, 2, 3]" ?mac "isv_init world0"] session_tke_laws(4)
  have "fst (verify_att_result_mac ?T 5 [1, 2, 3] 3 ?mac 16 (isv_init world0)) = Inr SGX_SUCCESS" by simp
  with main msgs(2) show ?thesis by blast
qed

end
