(* ===== verification/Cond_Buffer.thy ===== *)
theory Cond_Buffer
  imports Prelude "HOL-Library.Signed_Division"
begin

text \<open>
  The circular buffer of \<open>Enclave/TrustedLibrary/Thread.cpp\<close>: its fields, the bodies of
  \<open>ecall_producer\<close> and \<open>ecall_consumer\<close> between their waits and their signals, and the
  refinement of the buffer to a bounded first-in first-out queue.  The C \<open>int\<close> fields are
  integers here; the invariant keeps them between 0 and 50, so none of them wraps.
\<close>

definition BUFFER_SIZE :: int where "BUFFER_SIZE = 50"

record cond_buffer_t =
  buf :: "int list"
  occupied :: int
  nextin :: int
  nextout :: int

text \<open>The static initialiser: the remaining elements of a partly initialised array are zero.\<close>

definition buffer0 :: cond_buffer_t where
  "buffer0 = \<lparr>buf = replicate (nat BUFFER_SIZE) 0, occupied = 0, nextin = 0, nextout = 0\<rparr>"

definition produce :: "cond_buffer_t \<Rightarrow> cond_buffer_t" where
  "produce b =
     (let b = b\<lparr>buf := (buf b)[nat (nextin b) := nextin b]\<rparr>;
          b = b\<lparr>nextin := nextin b + 1\<rparr>;
          b = b\<lparr>nextin := nextin b smod BUFFER_SIZE\<rparr>
      in b\<lparr>occupied := occupied b + 1\<rparr>)"

definition consume :: "cond_buffer_t \<Rightarrow> cond_buffer_t" where
  "consume b =
     (let b = b\<lparr>buf := (buf b)[nat (nextout b) := 0], nextout := nextout b + 1\<rparr>;
          b = b\<lparr>nextout := nextout b smod BUFFER_SIZE\<rparr>
      in b\<lparr>occupied := occupied b - 1\<rparr>)"

section \<open>Invariant\<close>

text \<open>How far position \<open>k\<close> lies behind the read position, going round.\<close>

definition behind :: "int \<Rightarrow> int \<Rightarrow> int" where
  "behind out k = (if out \<le> k then k - out else k - out + 50)"

definition buffer_ok :: "cond_buffer_t \<Rightarrow> bool" where
  "buffer_ok b \<longleftrightarrow> length (buf b) = 50 \<and> 0 \<le> occupied b \<and> occupied b \<le> 50 \<and>
     0 \<le> nextout b \<and> nextout b < 50 \<and> nextin b = (nextout b + occupied b) mod 50 \<and>
     (\<forall>k<50. buf b ! k = (if behind (nextout b) (int k) < occupied b then int k else 0))"

lemma smod_next: "0 \<le> n \<Longrightarrow> n < 50 \<Longrightarrow> (n + 1) smod 50 = (if n = 49 then 0 else n + (1::int))"
  by (auto simp: signed_modulo_int_def signed_divide_int_def sgn_if)

lemma wrap_sum: "0 \<le> a \<Longrightarrow> a < 50 \<Longrightarrow> 0 \<le> c \<Longrightarrow> c \<le> 50 \<Longrightarrow>
    (a + c) mod 50 = (if a + c < 50 then a + c else a + c - (50::int))"
  using minus_mod_self2 [of "a + c" 50] mod_pos_pos_trivial [of "a + c" 50] mod_pos_pos_trivial [of "a + c - 50" 50]
  by auto

lemma buffer_ok_nextin: "buffer_ok b \<Longrightarrow> 0 \<le> nextin b \<and> nextin b < 50"
  by (simp add: buffer_ok_def)

lemma buffer0_ok: "buffer_ok buffer0"
  by (auto simp: buffer_ok_def buffer0_def BUFFER_SIZE_def behind_def)

lemma produce_fields:
  assumes "buffer_ok b"
  shows "occupied (produce b) = occupied b + 1" "nextout (produce b) = nextout b"
    "nextin (produce b) = (if nextin b = 49 then 0 else nextin b + 1)"
    "buf (produce b) = (buf b)[nat (nextin b) := nextin b]"
  using buffer_ok_nextin [OF assms] by (simp_all add: produce_def BUFFER_SIZE_def smod_next Let_def)

lemma consume_fields:
  assumes "buffer_ok b"
  shows "occupied (consume b) = occupied b - 1" "nextin (consume b) = nextin b"
    "nextout (consume b) = (if nextout b = 49 then 0 else nextout b + 1)"
    "buf (consume b) = (buf b)[nat (nextout b) := 0]"
  using assms by (simp_all add: buffer_ok_def consume_def BUFFER_SIZE_def smod_next Let_def)

lemma produce_ok:
  assumes ok: "buffer_ok b" and room: "occupied b < 50"
  shows "buffer_ok (produce b)"
proof -
  have b: "length (buf b) = 50" "0 \<le> occupied b" "0 \<le> nextout b" "nextout b < 50"
    "nextin b = (if nextout b + occupied b < 50 then nextout b + occupied b else nextout b + occupied b - 50)"
    using ok wrap_sum [of "nextout b" "occupied b"] by (simp_all add: buffer_ok_def)
  have cell: "buf (produce b) ! k = (if behind (nextout b) (int k) < occupied b + 1 then int k else 0)"
    if "k < 50" for k
  proof (cases "int k = nextin b")
    case True
    then have "k = nat (nextin b)" by simp
    moreover have "behind (nextout b) (int k) = occupied b"
      using b room that True by (auto simp: behind_def split: if_splits)
    ultimately show ?thesis using produce_fields(4) [OF ok] buffer_ok_nextin [OF ok] b(1) that by simp
  next
    case False
    then have "k \<noteq> nat (nextin b)" using buffer_ok_nextin [OF ok] by auto
    moreover have "behind (nextout b) (int k) \<noteq> occupied b"
      using b room that False by (auto simp: behind_def split: if_splits)
    ultimately show ?thesis using produce_fields(4) [OF ok] ok that by (auto simp: buffer_ok_def)
  qed
  have "nextin (produce b) = (nextout b + (occupied b + 1)) mod 50"
    using produce_fields(3) [OF ok] b room wrap_sum [of "nextout b" "occupied b + 1"]
    by (auto split: if_splits)
  with cell show ?thesis
    using b room produce_fields(1,2,4) [OF ok] by (simp add: buffer_ok_def)
qed

lemma consume_ok:
  assumes ok: "buffer_ok b" and some: "0 < occupied b"
  shows "buffer_ok (consume b)"
proof -
  have b: "length (buf b) = 50" "occupied b \<le> 50" "0 \<le> nextout b" "nextout b < 50"
    "nextin b = (if nextout b + occupied b < 50 then nextout b + occupied b else nextout b + occupied b - 50)"
    using ok some wrap_sum [of "nextout b" "occupied b"] by (simp_all add: buffer_ok_def)
  have cell: "buf (consume b) ! k = (if behind (nextout (consume b)) (int k) < occupied b - 1 then int k else 0)"
    if "k < 50" for k
  proof (cases "int k = nextout b")
    case True
    then have "k = nat (nextout b)" by simp
    moreover have "behind (nextout (consume b)) (int k) = 49"
      using consume_fields(3) [OF ok] that True by (auto simp: behind_def)
    ultimately show ?thesis using consume_fields(4) [OF ok] b that by simp
  next
    case False
    then have "k \<noteq> nat (nextout b)" using b by auto
    moreover have "behind (nextout (consume b)) (int k) = behind (nextout b) (int k) - 1"
      using consume_fields(3) [OF ok] b that False by (auto simp: behind_def)
    ultimately show ?thesis using consume_fields(4) [OF ok] ok that by (auto simp: buffer_ok_def)
  qed
  have "nextin b = (nextout (consume b) + (occupied b - 1)) mod 50" "0 \<le> nextout (consume b)" "nextout (consume b) < 50"
    using consume_fields(3) [OF ok] b some wrap_sum [of "nextout (consume b)" "occupied b - 1"]
    by (auto split: if_splits)
  with cell show ?thesis
    using b some consume_fields(1,2,4) [OF ok] by (simp add: buffer_ok_def)
qed

section \<open>Refinement to a queue\<close>

text \<open>The items between the read and the write position, oldest first.\<close>

definition contents :: "cond_buffer_t \<Rightarrow> int list" where
  "contents b = map (\<lambda>j. buf b ! ((nat (nextout b) + j) mod 50)) [0..<nat (occupied b)]"

lemma contents_window:
  assumes "buffer_ok b"
  shows "contents b = map (\<lambda>j. (nextout b + int j) mod 50) [0..<nat (occupied b)]"
  unfolding contents_def
proof (rule map_cong [OF refl])
  fix j assume "j \<in> set [0..<nat (occupied b)]"
  then have j: "int j < occupied b" by auto
  have b: "0 \<le> nextout b" "nextout b < 50" "occupied b \<le> 50" using assms by (simp_all add: buffer_ok_def)
  let ?k = "(nat (nextout b) + j) mod 50"
  have k: "int ?k = (nextout b + int j) mod 50" using b by (simp add: zmod_int)
  have "(nextout b + int j) mod 50 = (if nextout b + int j < 50 then nextout b + int j else nextout b + int j - 50)"
    using b j by (intro wrap_sum) auto
  then have "behind (nextout b) (int ?k) = int j" using b j k by (auto simp: behind_def)
  then show "buf b ! ?k = (nextout b + int j) mod 50"
    using assms j k by (simp add: buffer_ok_def)
qed

lemma contents_produce:
  assumes "buffer_ok b" "occupied b < 50"
  shows "contents (produce b) = contents b @ [nextin b]"
proof -
  have "nat (occupied b + 1) = Suc (nat (occupied b))" using assms(1) by (simp add: buffer_ok_def nat_add_distrib)
  moreover have "nextin b = (nextout b + int (nat (occupied b))) mod 50" using assms(1) by (simp add: buffer_ok_def)
  ultimately show ?thesis
    using produce_fields [OF assms(1)] by (simp add: contents_window [OF assms(1)] contents_window [OF produce_ok [OF assms]])
qed

lemma contents_consume:
  assumes "buffer_ok b" "0 < occupied b"
  shows "contents (consume b) = tl (contents b)"
proof -
  have n: "nat (occupied b) = Suc (nat (occupied b - 1))" using assms(2) by simp
  have "(nextout (consume b) + int j) mod 50 = (nextout b + int (Suc j)) mod 50" for j
    using consume_fields(3) [OF assms(1)] assms(1) by (auto simp: buffer_ok_def) presburger
  then show ?thesis
    using consume_fields(1) [OF assms(1)]
    by (simp add: contents_window [OF assms(1)] contents_window [OF consume_ok [OF assms]] n map_upt_Suc del: upt_Suc of_nat_Suc)
qed

text \<open>
  The contract of a bounded queue that the two loops of \<open>Thread.cpp\<close> rely on: \<open>put\<close> appends
  while there is room, \<open>take\<close> removes the oldest item while there is one.
\<close>

locale bounded_queue =
  fixes ok :: "'b \<Rightarrow> bool" and items :: "'b \<Rightarrow> 'i list" and cap :: nat and new_item :: "'b \<Rightarrow> 'i"
    and put take_one :: "'b \<Rightarrow> 'b"
  assumes bounded: "ok b \<Longrightarrow> length (items b) \<le> cap"
    and put_ok: "ok b \<Longrightarrow> length (items b) < cap \<Longrightarrow> ok (put b)"
    and put_items: "ok b \<Longrightarrow> length (items b) < cap \<Longrightarrow> items (put b) = items b @ [new_item b]"
    and take_ok: "ok b \<Longrightarrow> items b \<noteq> [] \<Longrightarrow> ok (take_one b)"
    and take_items: "ok b \<Longrightarrow> items b \<noteq> [] \<Longrightarrow> items (take_one b) = tl (items b)"
begin

lemma puts:
  "ok b \<Longrightarrow> length (items b) + n \<le> cap \<Longrightarrow>
    ok ((put ^^ n) b) \<and> length (items ((put ^^ n) b)) = length (items b) + n"
  by (induction n) (auto simp: put_ok put_items)

lemma takes:
  "ok b \<Longrightarrow> n \<le> length (items b) \<Longrightarrow>
    ok ((take_one ^^ n) b) \<and> items ((take_one ^^ n) b) = drop n (items b)"
proof (induction n)
  case (Suc n)
  then have "ok ((take_one ^^ n) b)" "items ((take_one ^^ n) b) = drop n (items b)" "drop n (items b) \<noteq> []" by auto
  then show ?case by (simp add: take_ok take_items drop_Suc tl_drop)
qed simp

lemma fill_and_drain:
  assumes "ok b" "items b = []" "n \<le> cap"
  shows "ok ((take_one ^^ n) ((put ^^ n) b)) \<and> items ((take_one ^^ n) ((put ^^ n) b)) = []"
  using puts [of b n] takes [of "(put ^^ n) b" n] assms by simp

end

lemma length_contents: "buffer_ok b \<Longrightarrow> length (contents b) = nat (occupied b)"
  by (simp add: contents_def)

lemma contents_some: "buffer_ok b \<Longrightarrow> contents b \<noteq> [] \<Longrightarrow> 0 < occupied b"
  by (auto simp: contents_def)

interpretation cq: bounded_queue buffer_ok contents 50 nextin produce consume
proof unfold_locales
  fix b :: cond_buffer_t
  assume ok: "buffer_ok b"
  then have "occupied b \<le> 50" by (simp add: buffer_ok_def)
  then show "length (contents b) \<le> 50" by (simp add: length_contents [OF ok])
  show "buffer_ok (produce b)" "contents (produce b) = contents b @ [nextin b]" if "length (contents b) < 50"
  proof -
    have "occupied b < 50" using that length_contents [OF ok] ok by (simp add: buffer_ok_def)
    then show "buffer_ok (produce b)" "contents (produce b) = contents b @ [nextin b]"
      using ok by (simp_all add: produce_ok contents_produce)
  qed
  show "buffer_ok (consume b)" "contents (consume b) = tl (contents b)" if "contents b \<noteq> []"
    using contents_some [OF ok that] ok by (simp_all add: consume_ok contents_consume)
qed

lemma drained_zero:
  assumes "buffer_ok b" "occupied b = 0"
  shows "buf b = replicate 50 0"
  using assms by (intro nth_equalityI) (auto simp: buffer_ok_def behind_def)

text \<open>
  C40: The circular buffer refines a bounded queue: when there is room, the producer's body appends
  one item at the end of the queue; when there is an item, the consumer's body removes the oldest
  one; both keep the buffer's invariant.
\<close>

theorem buffer_refines_queue:
  assumes "buffer_ok b"
  shows "(occupied b < BUFFER_SIZE \<longrightarrow> buffer_ok (produce b) \<and> contents (produce b) = contents b @ [nextin b]) \<and>
    (occupied b > 0 \<longrightarrow> buffer_ok (consume b) \<and> contents (consume b) = tl (contents b))"
  using assms produce_ok contents_produce consume_ok contents_consume
  by (simp add: BUFFER_SIZE_def)

theorem buffer_refines_queue_witness:
  "buffer_ok (produce buffer0) \<and> contents (produce buffer0) = [0]"
  using buffer_refines_queue [OF buffer0_ok] by (simp add: buffer0_def BUFFER_SIZE_def contents_def)

text \<open>
  Up to 50 items can be produced into the initial buffer without waiting, and consuming as many
  leaves a valid, empty buffer that is zero everywhere.
\<close>

lemma buffer_fill_and_drain:
  assumes "int n \<le> BUFFER_SIZE"
  shows "buffer_ok ((produce ^^ n) buffer0) \<and> occupied ((produce ^^ n) buffer0) = int n \<and>
    buf ((consume ^^ n) ((produce ^^ n) buffer0)) = buf buffer0"
proof -
  let ?p = "(produce ^^ n) buffer0" and ?c = "(consume ^^ n) ((produce ^^ n) buffer0)"
  have n: "n \<le> 50" "contents buffer0 = []" using assms by (simp_all add: BUFFER_SIZE_def contents_def buffer0_def)
  have p: "buffer_ok ?p" "length (contents ?p) = n" using cq.puts [OF buffer0_ok, of n] n by simp_all
  then have occ: "occupied ?p = int n" by (auto simp: length_contents buffer_ok_def)
  have c: "buffer_ok ?c" "contents ?c = []" using cq.fill_and_drain [OF buffer0_ok n(2,1)] by simp_all
  then have "occupied ?c = 0" using length_contents [OF c(1)] by (simp add: buffer_ok_def)
  then have "buf ?c = replicate 50 0" by (rule drained_zero [OF c(1)])
  with p occ show ?thesis by (simp add: buffer0_def BUFFER_SIZE_def)
qed

end
