(* ===== verification/Counter_Threads.thy ===== *)
theory Counter_Threads
  imports Transition_System Prelude
begin

text \<open>
  The counter demo of the basic enclave: four application threads (\<open>increase_counter\<close> in
  \<open>App/TrustedLibrary/Thread.cpp\<close>) each run \<open>ecall_increase_counter\<close>
  (\<open>Enclave/TrustedLibrary/Thread.cpp\<close>), which increments a shared counter under a mutex.
  Every read and write of the counter is a step of its own, so the increments are atomic only by
  the lock.  The generated bridge is taken to return \<open>SGX_SUCCESS\<close>; otherwise the application
  aborts.
\<close>

definition LOOPS_PER_THREAD :: nat where "LOOPS_PER_THREAD = 500"

datatype adder = Adder1 | Adder2 | Adder3 | Adder4

lemma UNIV_adder: "UNIV = {Adder1, Adder2, Adder3, Adder4}"
  by (auto intro: adder.exhaust)

instance adder :: finite
  by standard (simp add: UNIV_adder)

text \<open>
  Program counters: at the head of the loop, inside the critical section before the read, before
  the write, before the test, before the unlock, back in the application before the store of
  \<open>cnr\<close>, and returned.
\<close>

datatype counter_pc = C_loop | C_read | C_write | C_test | C_unlock | C_store | C_returned

record counter_state =
  global_counter :: u64
  global_mutex :: "adder option"
  app_counter :: u64
  c_pc :: "adder \<Rightarrow> counter_pc"
  c_i :: "adder \<Rightarrow> nat"
  c_tmp :: "adder \<Rightarrow> u64"
  c_ret :: "adder \<Rightarrow> u64"

definition counter_init :: "counter_state \<Rightarrow> bool" where
  "counter_init s \<longleftrightarrow> global_counter s = 0 \<and> global_mutex s = None \<and> app_counter s = 0 \<and>
     (\<forall>t. c_pc s t = C_loop \<and> c_i s t = 0 \<and> c_ret s t = 0)"

text \<open>The application's \<open>increase_counter\<close> after the ecall: a result other than 0 is kept.\<close>

definition increase_counter :: "u64 \<Rightarrow> u64 \<Rightarrow> u64" where
  "increase_counter cnr counter = (if cnr \<noteq> 0 then cnr else counter)"

text \<open>One step of thread \<open>t\<close>.\<close>

inductive counter_step :: "counter_state \<Rightarrow> counter_state \<Rightarrow> bool" where
  c_lock: "c_pc s t = C_loop \<Longrightarrow> c_i s t < LOOPS_PER_THREAD \<Longrightarrow> global_mutex s = None \<Longrightarrow>
    counter_step s (s\<lparr>global_mutex := Some t, c_pc := (c_pc s)(t := C_read)\<rparr>)"
| c_end: "c_pc s t = C_loop \<Longrightarrow> \<not> c_i s t < LOOPS_PER_THREAD \<Longrightarrow>
    counter_step s (s\<lparr>c_pc := (c_pc s)(t := C_store)\<rparr>)"
| c_read: "c_pc s t = C_read \<Longrightarrow>
    counter_step s (s\<lparr>c_tmp := (c_tmp s)(t := global_counter s), c_pc := (c_pc s)(t := C_write)\<rparr>)"
| c_write: "c_pc s t = C_write \<Longrightarrow>
    counter_step s (s\<lparr>c_tmp := (c_tmp s)(t := c_tmp s t + 1), global_counter := c_tmp s t + 1,
      c_pc := (c_pc s)(t := C_test)\<rparr>)"
| c_test: "c_pc s t = C_test \<Longrightarrow>
    counter_step s (s\<lparr>c_ret := (c_ret s)(t := if of_nat (4 * LOOPS_PER_THREAD) = global_counter s
        then global_counter s else c_ret s t), c_pc := (c_pc s)(t := C_unlock)\<rparr>)"
| c_unlock: "c_pc s t = C_unlock \<Longrightarrow>
    counter_step s (s\<lparr>global_mutex := None, c_i := (c_i s)(t := Suc (c_i s t)), c_pc := (c_pc s)(t := C_loop)\<rparr>)"
| c_store: "c_pc s t = C_store \<Longrightarrow>
    counter_step s (s\<lparr>app_counter := increase_counter (c_ret s t) (app_counter s),
      c_pc := (c_pc s)(t := C_returned)\<rparr>)"

definition counter_final :: "counter_state \<Rightarrow> bool" where
  "counter_final s \<longleftrightarrow> (\<forall>t. c_pc s t = C_returned)"

section \<open>Invariant\<close>

definition in_section :: "counter_pc \<Rightarrow> bool" where
  "in_section pc \<longleftrightarrow> pc \<in> {C_read, C_write, C_test, C_unlock}"

text \<open>Increments a thread has written.\<close>

definition added :: "counter_state \<Rightarrow> adder \<Rightarrow> nat" where
  "added s t = c_i s t + (if c_pc s t \<in> {C_test, C_unlock} then 1 else 0)"

definition total :: "counter_state \<Rightarrow> nat" where
  "total s = (\<Sum>t\<in>UNIV. added s t)"

definition mutex_inv :: "counter_state \<Rightarrow> bool" where
  "mutex_inv s \<longleftrightarrow> mutex_ok in_section (c_pc s) (global_mutex s)"

definition loop_inv :: "counter_state \<Rightarrow> bool" where
  "loop_inv s \<longleftrightarrow> (\<forall>t. c_i s t \<le> LOOPS_PER_THREAD \<and>
     (in_section (c_pc s t) \<longrightarrow> c_i s t < LOOPS_PER_THREAD) \<and>
     (c_pc s t \<in> {C_store, C_returned} \<longrightarrow> c_i s t = LOOPS_PER_THREAD) \<and>
     (c_pc s t = C_write \<longrightarrow> c_tmp s t = global_counter s))"

definition sum_inv :: "counter_state \<Rightarrow> bool" where
  "sum_inv s \<longleftrightarrow> global_counter s = of_nat (total s)"

text \<open>
  Before the last increment has been tested no thread has a result; afterwards exactly one has, and
  the application's counter is set as soon as that thread has returned.
\<close>

definition counting :: "counter_state \<Rightarrow> bool" where
  "counting s \<longleftrightarrow> c_ret s = (\<lambda>_. 0) \<and> app_counter s = 0 \<and> (total s = 2000 \<longrightarrow> (\<exists>w. c_pc s w = C_test))"

definition won :: "adder \<Rightarrow> counter_state \<Rightarrow> bool" where
  "won w s \<longleftrightarrow> c_ret s = (\<lambda>_. 0)(w := 2000) \<and> total s = 2000 \<and> (\<forall>u. c_pc s u \<noteq> C_test) \<and>
     app_counter s = (if c_pc s w = C_returned then 2000 else 0)"

definition ret_inv :: "counter_state \<Rightarrow> bool" where
  "ret_inv s \<longleftrightarrow> counting s \<or> (\<exists>w. won w s)"

definition counter_inv :: "counter_state \<Rightarrow> bool" where
  "counter_inv s \<longleftrightarrow> mutex_inv s \<and> loop_inv s \<and> sum_inv s \<and> ret_inv s"

lemma added_bound: "loop_inv s \<Longrightarrow> added s t \<le> 500"
  by (auto simp: loop_inv_def added_def in_section_def LOOPS_PER_THREAD_def dest: spec [of _ t])

lemma total_bound:
  assumes "loop_inv s" shows "total s \<le> 2000"
proof -
  have "total s = added s Adder1 + added s Adder2 + added s Adder3 + added s Adder4"
    by (simp add: total_def UNIV_adder)
  then show ?thesis
    using added_bound [OF assms, of Adder1] added_bound [OF assms, of Adder2]
      added_bound [OF assms, of Adder3] added_bound [OF assms, of Adder4] by linarith
qed

text \<open>Who changes what: a step changes the summand of one thread.\<close>

lemma total_change:
  "(\<And>u. u \<noteq> t \<Longrightarrow> added s' u = added s u) \<Longrightarrow> total s' + added s t = total s + added s' t"
  unfolding total_def by (rule sum_change)

lemma total_same: "(\<And>u. added s' u = added s u) \<Longrightarrow> total s' = total s"
  by (simp add: total_def)

lemma counter_init_inv: "counter_init s \<Longrightarrow> counter_inv s"
  by (auto simp: counter_init_def counter_inv_def mutex_inv_def loop_inv_def sum_inv_def ret_inv_def
      counting_def fun_eq_iff mutex_ok_def in_section_def total_def added_def)

lemma in_section_simps [simp]:
  "in_section C_read" "in_section C_write" "in_section C_test" "in_section C_unlock"
  "\<not> in_section C_loop" "\<not> in_section C_store" "\<not> in_section C_returned"
  by (simp_all add: in_section_def)

text \<open>Only the holder of the mutex is in its critical section.\<close>

lemma holder: "mutex_inv s \<Longrightarrow> in_section (c_pc s t) \<longleftrightarrow> global_mutex s = Some t"
  unfolding mutex_inv_def by (rule mutex_owner)

lemma other_outside: "mutex_inv s \<Longrightarrow> in_section (c_pc s t) \<Longrightarrow> u \<noteq> t \<Longrightarrow> \<not> in_section (c_pc s u)"
  by (simp add: holder)

lemma mutex_step: "counter_step s s' \<Longrightarrow> mutex_inv s \<Longrightarrow> mutex_inv s'"
  by (induction rule: counter_step.induct) (simp_all add: mutex_inv_def mutex_steps)

lemma loop_thread:
  assumes "loop_inv s"
  shows "c_i s t \<le> LOOPS_PER_THREAD" "in_section (c_pc s t) \<Longrightarrow> c_i s t < LOOPS_PER_THREAD"
    "c_pc s t = C_store \<or> c_pc s t = C_returned \<Longrightarrow> c_i s t = LOOPS_PER_THREAD"
    "c_pc s t = C_write \<Longrightarrow> c_tmp s t = global_counter s"
  using assms by (auto simp: loop_inv_def)

lemma loop_step:
  assumes "counter_step s s'" "mutex_inv s" "loop_inv s"
  shows "loop_inv s'"
  using assms
proof (induction rule: counter_step.induct)
  case (c_lock s t)
  then show ?case by (simp add: loop_inv_def)
next
  case (c_end s t)
  then show ?case using loop_thread(1) [OF c_end(4), of t] by (simp add: loop_inv_def)
next
  case (c_read s t)
  then show ?case using loop_thread(2) [OF c_read(3), of t] by (simp add: loop_inv_def)
next
  case (c_write s t)
  have "c_pc s u \<noteq> C_write" if "u \<noteq> t" for u
    using other_outside [OF c_write(2), of t u] c_write(1) that by (metis in_section_simps(2))
  with c_write show ?case using loop_thread(2) [OF c_write(3), of t] by (simp add: loop_inv_def)
next
  case (c_test s t)
  then show ?case using loop_thread(2) [OF c_test(3), of t] by (simp add: loop_inv_def)
next
  case (c_unlock s t)
  then show ?case using loop_thread(2) [OF c_unlock(3), of t] by (simp add: loop_inv_def Suc_le_eq)
next
  case (c_store s t)
  then show ?case using loop_thread(3) [OF c_store(3), of t] by (simp add: loop_inv_def)
qed

lemma total_step:
  assumes "counter_step s s'" "mutex_inv s" "loop_inv s"
  shows "(\<exists>t. c_pc s t = C_write \<and> c_pc s' t = C_test \<and> total s' = Suc (total s) \<and>
      global_counter s' = global_counter s + 1 \<and> c_ret s' = c_ret s \<and> app_counter s' = app_counter s) \<or>
    (total s' = total s \<and> global_counter s' = global_counter s)"
  using assms
proof (induction rule: counter_step.induct)
  case (c_write s t)
  let ?s' = "s\<lparr>c_tmp := (c_tmp s)(t := c_tmp s t + 1), global_counter := c_tmp s t + 1, c_pc := (c_pc s)(t := C_test)\<rparr>"
  have "total ?s' + added s t = total s + added ?s' t"
    by (rule total_change) (simp add: added_def)
  moreover have "added ?s' t = Suc (added s t)" using c_write by (simp add: added_def)
  moreover have "c_tmp s t = global_counter s" using c_write by (simp add: loop_inv_def)
  ultimately show ?case using c_write by (intro disjI1 exI [of _ t]) simp
qed (auto intro!: disjI2 total_same simp: added_def)

lemma sum_step:
  assumes "counter_step s s'" "mutex_inv s" "loop_inv s" "sum_inv s"
  shows "sum_inv s'"
  using total_step [OF assms(1-3)] assms(4) by (auto simp: sum_inv_def)

text \<open>When all 2000 increments are written, every thread but the one that wrote the last has left its loop.\<close>

lemma total_full:
  assumes "loop_inv s" "total s = 2000"
  shows "added s t = 500"
proof (rule ccontr)
  assume "added s t \<noteq> 500"
  then have "added s t < 500" using added_bound [OF assms(1), of t] by linarith
  then have "(\<Sum>u\<in>UNIV. added s u) < (\<Sum>u\<in>(UNIV :: adder set). 500)"
    by (intro sum_strict_mono_ex1) (use added_bound [OF assms(1)] in auto)
  also have "(\<Sum>u\<in>(UNIV :: adder set). 500) = (2000 :: nat)" by (simp add: UNIV_adder)
  finally show False using assms(2) by (simp add: total_def)
qed

lemma full_no_write:
  "loop_inv s \<Longrightarrow> total s = 2000 \<Longrightarrow> c_pc s t \<notin> {C_read, C_write}"
  using total_full [of s t] by (auto simp: loop_inv_def added_def in_section_def LOOPS_PER_THREAD_def dest: spec [of _ t])

lemma counter_2000: "sum_inv s \<Longrightarrow> loop_inv s \<Longrightarrow> global_counter s = 2000 \<longleftrightarrow> total s = 2000"
proof -
  assume s: "sum_inv s" "loop_inv s"
  have "total s < 2 ^ 64" using total_bound [OF s(2)] by simp
  then have "unat (of_nat (total s) :: u64) = total s" by (simp add: unat_of_nat)
  then show ?thesis
    using s(1) by (simp add: sum_inv_def word_unat_eq_iff)
qed

text \<open>A step that does not touch results, the application's counter or the number of increments.\<close>

lemma ret_pc:
  assumes "ret_inv s" "c_ret s' = c_ret s" "app_counter s' = app_counter s" "total s' = total s"
    "c_pc s' = (c_pc s)(t := pc)" "c_pc s t \<noteq> C_test" "pc \<noteq> C_test" "c_pc s t \<noteq> C_returned" "pc \<noteq> C_returned"
  shows "ret_inv s'"
  using assms(1) unfolding ret_inv_def
proof
  assume c: "counting s"
  have "\<exists>w. c_pc s' w = C_test" if "total s = 2000"
  proof -
    from c that obtain w where "c_pc s w = C_test" by (auto simp: counting_def)
    then have "c_pc s' w = C_test" using assms(5,6) by auto
    then show ?thesis ..
  qed
  then have "counting s'" using c assms(2-4) by (simp add: counting_def)
  then show "counting s' \<or> (\<exists>w. won w s')" ..
next
  assume "\<exists>w. won w s"
  then obtain w where "won w s" ..
  then have "won w s'" using assms(2-9) by (simp add: won_def)
  then show "counting s' \<or> (\<exists>w. won w s')" by blast
qed

text \<open>The test that sees the last increment gives its thread the result; the store publishes it.\<close>

lemma ret_test:
  assumes pc: "c_pc s t = C_test" and inv: "mutex_inv s" "loop_inv s" "sum_inv s" "ret_inv s"
    and s': "s' = s\<lparr>c_ret := (c_ret s)(t := if of_nat (4 * LOOPS_PER_THREAD) = global_counter s
      then global_counter s else c_ret s t), c_pc := (c_pc s)(t := C_unlock)\<rparr>"
  shows "ret_inv s'"
proof -
  have c: "counting s" using pc inv(4) by (auto simp: ret_inv_def won_def)
  have same: "total s' = total s" using pc by (intro total_same) (simp add: added_def s')
  have out: "c_pc s u \<noteq> C_test" if "u \<noteq> t" for u
    using other_outside [OF inv(1), of t u] pc that by (metis in_section_simps(3))
  show ?thesis
  proof (cases "total s = 2000")
    case True
    then have "global_counter s = 2000" using counter_2000 inv by blast
    then have "won t s'" using c True same out by (auto simp: won_def counting_def LOOPS_PER_THREAD_def s')
    then show ?thesis by (auto simp: ret_inv_def)
  next
    case False
    then have "global_counter s \<noteq> 2000" using counter_2000 inv by blast
    then have "counting s'" using c False same by (auto simp: counting_def LOOPS_PER_THREAD_def s')
    then show ?thesis by (simp add: ret_inv_def)
  qed
qed

lemma ret_store:
  assumes pc: "c_pc s t = C_store" and inv: "ret_inv s"
    and s': "s' = s\<lparr>app_counter := increase_counter (c_ret s t) (app_counter s), c_pc := (c_pc s)(t := C_returned)\<rparr>"
  shows "ret_inv s'"
proof -
  have same: "total s' = total s" using pc by (intro total_same) (simp add: added_def s')
  from inv consider "counting s" | w where "won w s" by (auto simp: ret_inv_def)
  then show ?thesis
  proof cases
    case 1
    then have "\<exists>w. c_pc s' w = C_test" if "total s = 2000" using that pc by (force simp: counting_def s')
    then have "counting s'" using 1 same by (simp add: counting_def increase_counter_def s')
    then show ?thesis by (simp add: ret_inv_def)
  next
    case 2
    then have "won w s'" using same by (simp add: won_def increase_counter_def s')
    then show ?thesis by (auto simp: ret_inv_def)
  qed
qed

lemma ret_step:
  assumes "counter_step s s'" "mutex_inv s" "loop_inv s" "sum_inv s" "ret_inv s"
  shows "ret_inv s'"
  using assms
proof (induction rule: counter_step.induct)
  case (c_lock s t)
  show ?case by (rule ret_pc [OF c_lock(7)]) (use c_lock in \<open>auto intro!: total_same simp: added_def\<close>)
next
  case (c_end s t)
  show ?case by (rule ret_pc [OF c_end(6)]) (use c_end in \<open>auto intro!: total_same simp: added_def\<close>)
next
  case (c_read s t)
  show ?case by (rule ret_pc [OF c_read(5)]) (use c_read in \<open>auto intro!: total_same simp: added_def\<close>)
next
  case (c_write s t)
  then have "total s \<noteq> 2000" using full_no_write [of s t] by auto
  with c_write(5) have "counting s" by (auto simp: ret_inv_def won_def)
  then show ?case by (auto simp: ret_inv_def counting_def)
next
  case (c_test s t)
  then show ?case by (rule ret_test) simp
next
  case (c_unlock s t)
  show ?case by (rule ret_pc [OF c_unlock(5)]) (use c_unlock in \<open>auto intro!: total_same simp: added_def\<close>)
next
  case (c_store s t)
  show ?case by (rule ret_store [OF c_store(1,5)]) simp
qed

lemma counter_inv_step: "counter_inv s \<Longrightarrow> counter_step s s' \<Longrightarrow> counter_inv s'"
  unfolding counter_inv_def using mutex_step loop_step sum_step ret_step by blast

section \<open>Progress\<close>

text \<open>Steps a thread still has to take.\<close>

fun c_weight :: "counter_pc \<Rightarrow> nat \<Rightarrow> nat" where
  "c_weight C_loop i = (500 - i) * 5 + 2"
| "c_weight C_read i = (499 - i) * 5 + 6"
| "c_weight C_write i = (499 - i) * 5 + 5"
| "c_weight C_test i = (499 - i) * 5 + 4"
| "c_weight C_unlock i = (499 - i) * 5 + 3"
| "c_weight C_store i = 1"
| "c_weight C_returned i = 0"

definition c_left :: "counter_state \<Rightarrow> adder \<Rightarrow> nat" where
  "c_left s t = c_weight (c_pc s t) (c_i s t)"

definition counter_rank :: "counter_state \<Rightarrow> nat" where
  "counter_rank s = (\<Sum>t\<in>UNIV. c_left s t)"

lemma counter_rank_change:
  assumes "\<And>u. u \<noteq> t \<Longrightarrow> c_left s' u = c_left s u" "c_left s' t < c_left s t"
  shows "counter_rank s' < counter_rank s"
  using sum_change [of t "c_left s'" "c_left s", OF assms(1)] assms(2) unfolding counter_rank_def by linarith

lemma counter_rank_step:
  assumes "counter_step s s'" "loop_inv s"
  shows "counter_rank s' < counter_rank s"
  using assms
proof (induction rule: counter_step.induct)
  case (c_lock s t)
  then show ?case by (intro counter_rank_change [of t]) (auto simp: c_left_def LOOPS_PER_THREAD_def)
next
  case (c_end s t)
  then show ?case by (intro counter_rank_change [of t]) (auto simp: c_left_def)
next
  case (c_read s t)
  then show ?case by (intro counter_rank_change [of t]) (auto simp: c_left_def)
next
  case (c_write s t)
  then show ?case by (intro counter_rank_change [of t]) (auto simp: c_left_def)
next
  case (c_test s t)
  then show ?case by (intro counter_rank_change [of t]) (auto simp: c_left_def)
next
  case (c_unlock s t)
  then have "c_i s t < 500" using loop_thread(2) [of s t] by (simp add: LOOPS_PER_THREAD_def)
  with c_unlock show ?case by (intro counter_rank_change [of t]) (auto simp: c_left_def)
next
  case (c_store s t)
  then show ?case by (intro counter_rank_change [of t]) (auto simp: c_left_def)
qed

text \<open>A thread that holds the mutex can always go on, so waiting for the mutex never blocks all threads.\<close>

lemma holder_moves: "in_section (c_pc s t) \<Longrightarrow> \<exists>s'. counter_step s s'"
  by (cases "c_pc s t") (auto intro: counter_step.intros)

lemma counter_progress:
  assumes "mutex_inv s" "\<not> counter_final s"
  shows "\<exists>s'. counter_step s s'"
proof -
  from assms(2) obtain t where t: "c_pc s t \<noteq> C_returned" by (auto simp: counter_final_def)
  show ?thesis
  proof (cases "c_pc s t = C_loop \<and> c_i s t < LOOPS_PER_THREAD")
    case True
    then show ?thesis
    proof (cases "global_mutex s")
      case (Some u)
      then show ?thesis using holder_moves holder [OF assms(1), of u] by blast
    qed (blast intro: c_lock)
  next
    case False
    with t show ?thesis by (cases "c_pc s t") (blast intro: counter_step.intros)+
  qed
qed

interpretation counter: terminating_system counter_step counter_init counter_inv counter_rank counter_final
proof unfold_locales
  show "counter_init s \<Longrightarrow> counter_inv s" for s by (rule counter_init_inv)
  show "counter_inv s \<Longrightarrow> counter_step s t \<Longrightarrow> counter_inv t" for s t by (rule counter_inv_step)
  show "counter_inv s \<Longrightarrow> counter_step s t \<Longrightarrow> counter_rank t < counter_rank s" for s t
    using counter_rank_step [of s t] by (simp add: counter_inv_def)
  show "counter_inv s \<Longrightarrow> \<not> counter_final s \<Longrightarrow> \<exists>t. counter_step s t" for s
    using counter_progress [of s] by (simp add: counter_inv_def)
qed

lemma counter_final_state:
  assumes "counter_inv s" "counter_final s"
  shows "global_counter s = 2000" "app_counter s = 2000" "\<exists>!t. c_ret s t \<noteq> 0"
proof -
  have pc: "c_pc s t = C_returned" for t using assms(2) by (simp add: counter_final_def)
  have i: "loop_inv s" "sum_inv s" "ret_inv s" using assms(1) by (simp_all add: counter_inv_def)
  have "added s t = 500" for t
    using loop_thread(3) [OF i(1), of t] pc by (simp add: added_def LOOPS_PER_THREAD_def)
  then have full: "total s = 2000" by (simp add: total_def UNIV_adder)
  with i counter_2000 show "global_counter s = 2000" by blast
  from i(3) full pc obtain w where "won w s" by (auto simp: ret_inv_def counting_def)
  then show "app_counter s = 2000" "\<exists>!t. c_ret s t \<noteq> 0" using pc by (auto simp: won_def)
qed

definition counter_start :: counter_state where
  "counter_start = \<lparr>global_counter = 0, global_mutex = None, app_counter = 0, c_pc = (\<lambda>_. C_loop),
     c_i = (\<lambda>_. 0), c_tmp = (\<lambda>_. 0), c_ret = (\<lambda>_. 0)\<rparr>"

lemma counter_start_init: "counter_init counter_start"
  by (simp add: counter_start_def counter_init_def)

lemma counter_start_reaches: "\<exists>s. counter_step\<^sup>*\<^sup>* counter_start s \<and> counter_final s"
  using counter.completes counter_init_inv counter_start_init by blast

text \<open>
  C28: However the four threads interleave, once all of them have returned the enclave's counter and
  the application's counter are both 2000, the assertion of \<open>ecall_thread_functions\<close> holds, and
  exactly one of the four calls returned a non-zero result.
\<close>

theorem increase_counter_result:
  assumes "counter_init s\<^sub>0" "counter_step\<^sup>*\<^sup>* s\<^sub>0 s" "counter_final s"
  shows "global_counter s = 2000 \<and> app_counter s = of_nat (4 * LOOPS_PER_THREAD) \<and> (\<exists>!t. c_ret s t \<noteq> 0)"
  using counter_final_state [OF counter.reachable_inv [OF assms(1,2)] assms(3)]
  by (simp add: LOOPS_PER_THREAD_def)

theorem increase_counter_result_witness:
  "\<exists>s. counter_step\<^sup>*\<^sup>* counter_start s \<and> counter_final s \<and> app_counter s = 2000"
  using counter_start_reaches increase_counter_result [OF counter_start_init]
  by (fastforce simp: LOOPS_PER_THREAD_def)

text \<open>No interleaving blocks and none goes on for ever: a run from the start has at most 10008
  steps, and a run that cannot take a further step has all four threads returned.
\<close>

lemma increase_counter_terminates:
  assumes "counter_init s\<^sub>0" "(counter_step ^^ n) s\<^sub>0 s"
  shows "n \<le> 10008 \<and> ((\<nexists>s'. counter_step s s') \<longrightarrow> counter_final s)"
proof -
  have "counter_rank s\<^sub>0 = 10008" using assms(1)
    by (simp add: counter_rank_def counter_init_def c_left_def UNIV_adder)
  with counter.run_length [OF assms(2) counter_init_inv [OF assms(1)]]
    counter.stuck_final [OF assms(1) relpowp_imp_rtranclp [OF assms(2)]] show ?thesis by auto
qed

text \<open>
  C29: Mutual exclusion: in every reachable state at most one thread is between the lock and the
  unlock, it is the one recorded in the mutex, and the counter equals the number of increments
  written so far: no update is lost.
\<close>

theorem increase_counter_exclusive:
  assumes "counter_init s\<^sub>0" "counter_step\<^sup>*\<^sup>* s\<^sub>0 s"
  shows "(in_section (c_pc s t) \<longleftrightarrow> global_mutex s = Some t) \<and> unat (global_counter s) = (\<Sum>u\<in>UNIV. added s u)"
proof -
  have i: "counter_inv s" by (rule counter.reachable_inv [OF assms])
  then have "total s < 2 ^ 64" using total_bound [of s] by (simp add: counter_inv_def)
  with i holder [of s t] show ?thesis
    by (simp add: counter_inv_def sum_inv_def unat_of_nat flip: total_def)
qed

theorem increase_counter_exclusive_witness:
  "unat (global_counter (counter_start\<lparr>global_mutex := Some Adder1, c_pc := (\<lambda>_. C_loop)(Adder1 := C_read)\<rparr>)) =
    (\<Sum>u\<in>UNIV. added (counter_start\<lparr>global_mutex := Some Adder1, c_pc := (\<lambda>_. C_loop)(Adder1 := C_read)\<rparr>) u)"
proof -
  have "counter_step counter_start (counter_start\<lparr>global_mutex := Some Adder1, c_pc := (c_pc counter_start)(Adder1 := C_read)\<rparr>)"
    by (rule c_lock) (simp_all add: counter_start_def LOOPS_PER_THREAD_def)
  then show ?thesis
    using increase_counter_exclusive [OF counter_start_init, of _ Adder1]
    by (simp add: counter_start_def r_into_rtranclp added_def)
qed

end
