(* ===== verification/Buffer_Threads.thy ===== *)
theory Buffer_Threads
  imports Transition_System Cond_Buffer Counter_Threads
begin

text \<open>
  The producer/consumer demo of the basic enclave: one thread runs \<open>ecall_producer\<close>, four run
  \<open>ecall_consumer\<close> (\<open>Enclave/TrustedLibrary/Thread.cpp\<close>, started by
  \<open>ecall_thread_functions\<close> of \<open>App/TrustedLibrary/Thread.cpp\<close>).  The test of the wait loop,
  the body, the signal and the unlock are steps of their own; the statements of a body are one
  step, since the mutex is held throughout.  \<open>sgx_thread_cond_wait\<close> releases the mutex and
  waits in one step, \<open>sgx_thread_cond_signal\<close> wakes some waiting thread if there is one, and a
  woken thread takes the mutex again before it returns to the test.  A parameter says whether
  waiting threads may also wake spuriously.
\<close>

datatype worker = Producer0 | Consumer1 | Consumer2 | Consumer3 | Consumer4

lemma UNIV_worker: "UNIV = {Producer0, Consumer1, Consumer2, Consumer3, Consumer4}"
  by (auto intro: worker.exhaust)

instance worker :: finite
  by standard (simp add: UNIV_worker)

text \<open>
  Program counters: at the head of the \<open>for\<close> loop, at the test of the wait loop, waiting, woken
  without the mutex, before the body, before the signal, before the unlock, and returned.
\<close>

datatype buffer_pc = B_loop | B_check | B_wait | B_woken | B_body | B_signal | B_unlock | B_returned

record buffer_state =
  cbuf :: cond_buffer_t
  b_mutex :: "worker option"
  b_pc :: "worker \<Rightarrow> buffer_pc"
  b_i :: "worker \<Rightarrow> nat"

definition rounds :: "worker \<Rightarrow> nat" where
  "rounds t = (if t = Producer0 then 4 * LOOPS_PER_THREAD else LOOPS_PER_THREAD)"

text \<open>The condition of the wait loop and the body, by role.\<close>

definition must_wait :: "worker \<Rightarrow> cond_buffer_t \<Rightarrow> bool" where
  "must_wait t b \<longleftrightarrow> (if t = Producer0 then occupied b \<ge> BUFFER_SIZE else occupied b \<le> 0)"

definition b_body :: "worker \<Rightarrow> cond_buffer_t \<Rightarrow> cond_buffer_t" where
  "b_body t b = (if t = Producer0 then produce b else consume b)"

text \<open>
  Whom a signal of \<open>t\<close> can wake: the producer signals \<open>more\<close>, on which consumers wait; a
  consumer signals \<open>less\<close>, on which the producer waits.
\<close>

definition wakes :: "worker \<Rightarrow> worker \<Rightarrow> bool" where
  "wakes t u \<longleftrightarrow> (t = Producer0) \<noteq> (u = Producer0)"

definition buffer_init :: "buffer_state \<Rightarrow> bool" where
  "buffer_init s \<longleftrightarrow> cbuf s = buffer0 \<and> b_mutex s = None \<and> (\<forall>t. b_pc s t = B_loop \<and> b_i s t = 0)"

inductive buffer_step :: "bool \<Rightarrow> buffer_state \<Rightarrow> buffer_state \<Rightarrow> bool" for spurious where
  b_lock: "b_pc s t = B_loop \<Longrightarrow> b_i s t < rounds t \<Longrightarrow> b_mutex s = None \<Longrightarrow>
    buffer_step spurious s (s\<lparr>b_mutex := Some t, b_pc := (b_pc s)(t := B_check)\<rparr>)"
| b_return: "b_pc s t = B_loop \<Longrightarrow> \<not> b_i s t < rounds t \<Longrightarrow>
    buffer_step spurious s (s\<lparr>b_pc := (b_pc s)(t := B_returned)\<rparr>)"
| b_waits: "b_pc s t = B_check \<Longrightarrow> must_wait t (cbuf s) \<Longrightarrow>
    buffer_step spurious s (s\<lparr>b_mutex := None, b_pc := (b_pc s)(t := B_wait)\<rparr>)"
| b_goes_on: "b_pc s t = B_check \<Longrightarrow> \<not> must_wait t (cbuf s) \<Longrightarrow>
    buffer_step spurious s (s\<lparr>b_pc := (b_pc s)(t := B_body)\<rparr>)"
| b_runs_body: "b_pc s t = B_body \<Longrightarrow>
    buffer_step spurious s (s\<lparr>cbuf := b_body t (cbuf s), b_pc := (b_pc s)(t := B_signal)\<rparr>)"
| b_wakes: "b_pc s t = B_signal \<Longrightarrow> wakes t u \<Longrightarrow> b_pc s u = B_wait \<Longrightarrow>
    buffer_step spurious s (s\<lparr>b_pc := (b_pc s)(t := B_unlock, u := B_woken)\<rparr>)"
| b_wakes_none: "b_pc s t = B_signal \<Longrightarrow> (\<And>u. wakes t u \<Longrightarrow> b_pc s u \<noteq> B_wait) \<Longrightarrow>
    buffer_step spurious s (s\<lparr>b_pc := (b_pc s)(t := B_unlock)\<rparr>)"
| b_unlocks: "b_pc s t = B_unlock \<Longrightarrow>
    buffer_step spurious s (s\<lparr>b_mutex := None, b_i := (b_i s)(t := Suc (b_i s t)), b_pc := (b_pc s)(t := B_loop)\<rparr>)"
| b_relocks: "b_pc s t = B_woken \<Longrightarrow> b_mutex s = None \<Longrightarrow>
    buffer_step spurious s (s\<lparr>b_mutex := Some t, b_pc := (b_pc s)(t := B_check)\<rparr>)"
| b_spurious: "spurious \<Longrightarrow> b_pc s t = B_wait \<Longrightarrow>
    buffer_step spurious s (s\<lparr>b_pc := (b_pc s)(t := B_woken)\<rparr>)"

definition buffer_final :: "buffer_state \<Rightarrow> bool" where
  "buffer_final s \<longleftrightarrow> (\<forall>t. b_pc s t = B_returned)"

section \<open>Invariant\<close>

definition holds :: "buffer_pc \<Rightarrow> bool" where
  "holds pc \<longleftrightarrow> pc \<in> {B_check, B_body, B_signal, B_unlock}"

text \<open>Bodies a thread has run, and consumers bound to take an item before they wait again.\<close>

definition turns :: "buffer_state \<Rightarrow> worker \<Rightarrow> nat" where
  "turns s t = b_i s t + (if b_pc s t = B_signal \<or> b_pc s t = B_unlock then 1 else 0)"

definition taken :: "buffer_state \<Rightarrow> nat" where
  "taken s = (\<Sum>t\<in>UNIV. if t = Producer0 then 0 else turns s t)"

definition alert :: "buffer_state \<Rightarrow> worker \<Rightarrow> nat" where
  "alert s t = (if t = Producer0 then (if b_pc s t = B_signal then 1 else 0)
     else if b_pc s t = B_woken \<or> b_pc s t = B_check \<or> b_pc s t = B_body then 1 else 0)"

definition alerts :: "buffer_state \<Rightarrow> nat" where
  "alerts s = (\<Sum>t\<in>UNIV. alert s t)"

definition lock_inv :: "buffer_state \<Rightarrow> bool" where
  "lock_inv s \<longleftrightarrow> mutex_ok holds (b_pc s) (b_mutex s)"

definition round_inv :: "buffer_state \<Rightarrow> bool" where
  "round_inv s \<longleftrightarrow> (\<forall>t. b_i s t \<le> rounds t \<and>
     (b_pc s t \<noteq> B_loop \<longrightarrow> b_pc s t \<noteq> B_returned \<longrightarrow> b_i s t < rounds t) \<and>
     (b_pc s t = B_returned \<longrightarrow> b_i s t = rounds t))"

definition stock_inv :: "buffer_state \<Rightarrow> bool" where
  "stock_inv s \<longleftrightarrow> buffer_ok (cbuf s) \<and> occupied (cbuf s) = int (turns s Producer0) - int (taken s) \<and>
     (\<forall>t. b_pc s t = B_body \<longrightarrow> \<not> must_wait t (cbuf s))"

text \<open>No wake-up is lost.\<close>

definition wake_inv :: "buffer_state \<Rightarrow> bool" where
  "wake_inv s \<longleftrightarrow>
     ((\<exists>c. c \<noteq> Producer0 \<and> b_pc s c = B_wait) \<longrightarrow> occupied (cbuf s) \<le> int (alerts s)) \<and>
     (b_pc s Producer0 = B_wait \<longrightarrow> occupied (cbuf s) \<ge> 50 \<or> (\<exists>c. c \<noteq> Producer0 \<and> b_pc s c = B_signal))"

definition buffer_inv :: "buffer_state \<Rightarrow> bool" where
  "buffer_inv s \<longleftrightarrow> lock_inv s \<and> round_inv s \<and> stock_inv s \<and> wake_inv s"

lemma holds_simps [simp]:
  "holds B_check" "holds B_body" "holds B_signal" "holds B_unlock"
  "\<not> holds B_loop" "\<not> holds B_wait" "\<not> holds B_woken" "\<not> holds B_returned"
  by (simp_all add: holds_def)

lemma locker: "lock_inv s \<Longrightarrow> holds (b_pc s t) \<longleftrightarrow> b_mutex s = Some t"
  unfolding lock_inv_def by (rule mutex_owner)

lemma others_out: "lock_inv s \<Longrightarrow> holds (b_pc s t) \<Longrightarrow> u \<noteq> t \<Longrightarrow> \<not> holds (b_pc s u)"
  by (simp add: locker)

lemma round_thread:
  assumes "round_inv s"
  shows "b_i s t \<le> rounds t" "b_pc s t \<noteq> B_loop \<Longrightarrow> b_pc s t \<noteq> B_returned \<Longrightarrow> b_i s t < rounds t"
    "b_pc s t = B_returned \<Longrightarrow> b_i s t = rounds t"
  using assms by (auto simp: round_inv_def)

lemma buffer_init_inv:
  assumes "buffer_init s" shows "buffer_inv s"
proof -
  have t: "turns s t = 0" for t using assms by (simp add: buffer_init_def turns_def)
  then have "taken s = 0" unfolding taken_def by (intro sum.neutral) simp
  with t assms buffer0_ok show ?thesis
    by (auto simp: buffer_init_def buffer_inv_def lock_inv_def mutex_ok_def round_inv_def stock_inv_def wake_inv_def buffer0_def)
qed

lemma lock_step: "buffer_step sp s s' \<Longrightarrow> lock_inv s \<Longrightarrow> lock_inv s'"
proof (induction rule: buffer_step.induct)
  case (b_wakes s t u)
  then have "t \<noteq> u" by (auto simp: wakes_def)
  with b_wakes show ?case by (simp add: lock_inv_def mutex_steps)
qed (simp_all add: lock_inv_def mutex_steps)

lemma round_step: "buffer_step sp s s' \<Longrightarrow> round_inv s \<Longrightarrow> round_inv s'"
proof (induction rule: buffer_step.induct)
  case (b_unlocks s t)
  then show ?case using round_thread(2) [OF b_unlocks(2), of t] by (auto simp: round_inv_def Suc_le_eq)
next
  case (b_return s t)
  then show ?case using round_thread(1) [OF b_return(3), of t] by (auto simp: round_inv_def)
qed (auto simp: round_inv_def)

text \<open>What a step does to the stock: one body is run, or nothing changes.\<close>

lemma taken_same: "(\<And>u. turns s' u = turns s u) \<Longrightarrow> taken s' = taken s"
  unfolding taken_def by (rule sum.cong) auto

lemma taken_change:
  assumes "\<And>u. u \<noteq> t \<Longrightarrow> turns s' u = turns s u" "turns s' t = Suc (turns s t)"
  shows "taken s' = taken s + (if t = Producer0 then 0 else 1)"
  using sum_change [of t "\<lambda>u. if u = Producer0 then 0 else turns s' u" "\<lambda>u. if u = Producer0 then 0 else turns s u"] assms
  unfolding taken_def by (auto split: if_splits)

lemma body_stock:
  assumes "buffer_ok b" "\<not> must_wait t b"
  shows "buffer_ok (b_body t b)" "occupied (b_body t b) = occupied b + (if t = Producer0 then 1 else -1)"
  using assms by (auto simp: b_body_def must_wait_def BUFFER_SIZE_def produce_ok consume_ok produce_fields consume_fields)

lemma stock_frame:
  assumes "stock_inv s" "\<And>u. turns s' u = turns s u" "cbuf s' = cbuf s"
    "\<And>u. b_pc s' u = B_body \<Longrightarrow> b_pc s u = B_body \<or> \<not> must_wait u (cbuf s)"
  shows "stock_inv s'"
  using assms(1,4) unfolding stock_inv_def assms(2,3) taken_same [of s' s, OF assms(2)] by blast

lemma stock_step: "buffer_step sp s s' \<Longrightarrow> lock_inv s \<Longrightarrow> stock_inv s \<Longrightarrow> stock_inv s'"
proof (induction rule: buffer_step.induct)
  case (b_runs_body s t)
  let ?s' = "s\<lparr>cbuf := b_body t (cbuf s), b_pc := (b_pc s)(t := B_signal)\<rparr>"
  have "b_pc s u \<noteq> B_body" if "u \<noteq> t" for u
    using others_out [OF b_runs_body(2), of t u] b_runs_body(1) that by (metis holds_simps(2))
  moreover have "taken ?s' = taken s + (if t = Producer0 then 0 else 1)"
    using b_runs_body(1) by (intro taken_change) (auto simp: turns_def)
  moreover have "buffer_ok (cbuf s)" "\<not> must_wait t (cbuf s)"
    using b_runs_body(1,3) by (auto simp: stock_inv_def)
  ultimately show ?case
    using b_runs_body body_stock [of "cbuf s" t] by (auto simp: stock_inv_def turns_def)
qed ((erule stock_frame; force simp: turns_def split: if_splits)+)

text \<open>The two halves of the wake-up invariant.\<close>

definition more_inv :: "buffer_state \<Rightarrow> bool" where
  "more_inv s \<longleftrightarrow> ((\<exists>c. c \<noteq> Producer0 \<and> b_pc s c = B_wait) \<longrightarrow> occupied (cbuf s) \<le> int (alerts s))"

definition less_inv :: "buffer_state \<Rightarrow> bool" where
  "less_inv s \<longleftrightarrow> (b_pc s Producer0 = B_wait \<longrightarrow>
     occupied (cbuf s) \<ge> 50 \<or> (\<exists>c. c \<noteq> Producer0 \<and> b_pc s c = B_signal))"

lemma wake_inv_split: "wake_inv s \<longleftrightarrow> more_inv s \<and> less_inv s"
  by (simp add: wake_inv_def more_inv_def less_inv_def)

lemma alerts_change:
  "(\<And>u. u \<noteq> t \<Longrightarrow> alert s' u = alert s u) \<Longrightarrow> alerts s' + alert s t = alerts s + alert s' t"
  unfolding alerts_def by (rule sum_change)

lemma alerts_change2:
  "t \<noteq> v \<Longrightarrow> (\<And>u. u \<noteq> t \<Longrightarrow> u \<noteq> v \<Longrightarrow> alert s' u = alert s u) \<Longrightarrow>
    alerts s' + alert s t + alert s v = alerts s + alert s' t + alert s' v"
  unfolding alerts_def by (rule sum_change2)

text \<open>Steps that wake up no fewer threads and put no consumer to sleep.\<close>

lemma more_frame:
  assumes "more_inv s" "cbuf s' = cbuf s" "\<And>u. alert s u \<le> alert s' u"
    "\<And>c. c \<noteq> Producer0 \<Longrightarrow> b_pc s' c = B_wait \<Longrightarrow> b_pc s c = B_wait"
  shows "more_inv s'"
proof -
  have "alerts s \<le> alerts s'" unfolding alerts_def by (rule sum_mono) (rule assms(3))
  with assms(1,2,4) show ?thesis by (force simp: more_inv_def)
qed

lemma more_step: "buffer_step sp s s' \<Longrightarrow> lock_inv s \<Longrightarrow> stock_inv s \<Longrightarrow> more_inv s \<Longrightarrow> more_inv s'"
proof (induction rule: buffer_step.induct)
  case (b_waits s t)
  show ?case
  proof (cases "t = Producer0")
    case True
    show ?thesis by (rule more_frame [OF b_waits(5)]) (use True b_waits in \<open>auto simp: alert_def\<close>)
  next
    case False
    then show ?thesis using b_waits by (auto simp: more_inv_def must_wait_def)
  qed
next
  case (b_runs_body s t)
  let ?s' = "s\<lparr>cbuf := b_body t (cbuf s), b_pc := (b_pc s)(t := B_signal)\<rparr>"
  have "occupied (cbuf ?s') = occupied (cbuf s) + (if t = Producer0 then 1 else -1)"
    using b_runs_body(1,3) body_stock [of "cbuf s" t] by (auto simp: stock_inv_def)
  moreover have "alerts ?s' + alert s t = alerts s + alert ?s' t"
    by (rule alerts_change) (auto simp: alert_def)
  ultimately show ?case using b_runs_body(1,4) by (auto simp: more_inv_def alert_def split: if_splits)
next
  case (b_wakes s t u)
  let ?s' = "s\<lparr>b_pc := (b_pc s)(t := B_unlock, u := B_woken)\<rparr>"
  have "alerts ?s' + alert s t + alert s u = alerts s + alert ?s' t + alert ?s' u"
    by (rule alerts_change2) (use b_wakes in \<open>auto simp: alert_def wakes_def\<close>)
  then have "alerts ?s' = alerts s" using b_wakes(1-3) by (auto simp: alert_def wakes_def split: if_splits)
  then show ?case using b_wakes(1,6) by (auto simp: more_inv_def split: if_splits)
next
  case (b_wakes_none s t)
  show ?case
  proof (cases "t = Producer0")
    case True
    then show ?thesis using b_wakes_none(2) by (auto simp: more_inv_def wakes_def)
  next
    case False
    show ?thesis by (rule more_frame [OF b_wakes_none(5)]) (use False b_wakes_none in \<open>auto simp: alert_def split: if_splits\<close>)
  qed
qed ((erule more_frame; force simp: alert_def split: if_splits)+)

lemma less_frame:
  assumes "less_inv s" "cbuf s' = cbuf s" "b_pc s' Producer0 = B_wait \<Longrightarrow> b_pc s Producer0 = B_wait"
    "\<And>c. c \<noteq> Producer0 \<Longrightarrow> b_pc s c = B_signal \<Longrightarrow> b_pc s' c = B_signal"
  shows "less_inv s'"
  using assms unfolding less_inv_def by metis

lemma less_step: "buffer_step sp s s' \<Longrightarrow> less_inv s \<Longrightarrow> less_inv s'"
proof (induction rule: buffer_step.induct)
  case (b_waits s t)
  show ?case
  proof (cases "t = Producer0")
    case True
    then show ?thesis using b_waits(2) by (simp add: less_inv_def must_wait_def BUFFER_SIZE_def)
  next
    case False
    show ?thesis by (rule less_frame [OF b_waits(3)]) (use False b_waits in auto)
  qed
next
  case (b_runs_body s t)
  show ?case by (cases "t = Producer0") (auto simp: less_inv_def)
next
  case (b_wakes s t u)
  then show ?case by (auto simp: less_inv_def wakes_def)
next
  case (b_wakes_none s t)
  then show ?case by (auto simp: less_inv_def wakes_def)
qed ((erule less_frame; force split: if_splits)+)

lemma buffer_inv_step: "buffer_inv s \<Longrightarrow> buffer_step sp s s' \<Longrightarrow> buffer_inv s'"
  unfolding buffer_inv_def wake_inv_split using lock_step round_step stock_step more_step less_step by blast

section \<open>Progress\<close>

text \<open>
  Steps a thread still has to take, at most nine per round: going to wait is paid for by the steps
  of the body that ends the wait.
\<close>

fun b_weight :: "buffer_pc \<Rightarrow> nat \<Rightarrow> nat" where
  "b_weight B_loop n = n * 9 + 1"
| "b_weight B_woken n = (n - 1) * 9 + 9"
| "b_weight B_check n = (n - 1) * 9 + 8"
| "b_weight B_wait n = (n - 1) * 9 + 7"
| "b_weight B_body n = (n - 1) * 9 + 6"
| "b_weight B_signal n = (n - 1) * 9 + 5"
| "b_weight B_unlock n = (n - 1) * 9 + 2"
| "b_weight B_returned n = 0"

definition b_left :: "buffer_state \<Rightarrow> worker \<Rightarrow> nat" where
  "b_left s t = b_weight (b_pc s t) (rounds t - b_i s t)"

definition buffer_rank :: "buffer_state \<Rightarrow> nat" where
  "buffer_rank s = (\<Sum>t\<in>UNIV. b_left s t)"

lemma buffer_rank_change:
  assumes "\<And>u. u \<noteq> t \<Longrightarrow> b_left s' u = b_left s u" "b_left s' t < b_left s t"
  shows "buffer_rank s' < buffer_rank s"
  using sum_change [of t "b_left s'" "b_left s", OF assms(1)] assms(2) unfolding buffer_rank_def by linarith

lemma buffer_rank_step:
  assumes "buffer_step False s s'" "round_inv s"
  shows "buffer_rank s' < buffer_rank s"
  using assms
proof (induction rule: buffer_step.induct)
  case (b_lock s t)
  then have "rounds t - b_i s t = Suc (rounds t - b_i s t - 1)" by simp
  with b_lock show ?case by (intro buffer_rank_change [of t]) (auto simp: b_left_def)
next
  case (b_return s t)
  then show ?case by (intro buffer_rank_change [of t]) (auto simp: b_left_def)
next
  case (b_waits s t)
  then show ?case by (intro buffer_rank_change [of t]) (auto simp: b_left_def)
next
  case (b_goes_on s t)
  then show ?case by (intro buffer_rank_change [of t]) (auto simp: b_left_def)
next
  case (b_runs_body s t)
  then show ?case by (intro buffer_rank_change [of t]) (auto simp: b_left_def)
next
  case (b_wakes s t u)
  let ?s' = "s\<lparr>b_pc := (b_pc s)(t := B_unlock, u := B_woken)\<rparr>"
  have "(\<Sum>v\<in>UNIV. b_left ?s' v) + b_left s t + b_left s u =
      (\<Sum>v\<in>UNIV. b_left s v) + b_left ?s' t + b_left ?s' u"
    by (rule sum_change2) (use b_wakes in \<open>auto simp: b_left_def wakes_def\<close>)
  moreover have "b_left ?s' t + b_left ?s' u < b_left s t + b_left s u"
    using b_wakes(1-3) by (auto simp: b_left_def wakes_def)
  ultimately show ?case unfolding buffer_rank_def by linarith
next
  case (b_wakes_none s t)
  then show ?case by (intro buffer_rank_change [of t]) (auto simp: b_left_def)
next
  case (b_unlocks s t)
  then show ?case by (intro buffer_rank_change [of t]) (auto simp: b_left_def)
next
  case (b_relocks s t)
  then show ?case by (intro buffer_rank_change [of t]) (auto simp: b_left_def)
qed simp

lemma locker_moves: "holds (b_pc s t) \<Longrightarrow> \<exists>s'. buffer_step sp s s'"
proof (cases "b_pc s t")
  case B_check
  then show ?thesis by (cases "must_wait t (cbuf s)") (blast intro: buffer_step.intros)+
next
  case B_signal
  then show ?thesis by (cases "\<exists>u. wakes t u \<and> b_pc s u = B_wait") (blast intro: buffer_step.intros)+
qed (auto intro: buffer_step.intros)

text \<open>A state without a step has every thread waiting or returned.\<close>

lemma stuck_pcs:
  assumes "lock_inv s" "\<nexists>s'. buffer_step sp s s'"
  shows "b_pc s t = B_wait \<or> b_pc s t = B_returned"
proof -
  have out: "\<not> holds (b_pc s u)" for u using locker_moves assms(2) by blast
  then have free: "b_mutex s = None" using locker [OF assms(1)] by (metis not_Some_eq)
  have "b_pc s t \<noteq> B_loop"
  proof
    assume "b_pc s t = B_loop"
    then show False using assms(2) free b_lock b_return by (cases "b_i s t < rounds t") blast+
  qed
  moreover have "b_pc s t \<noteq> B_woken" using assms(2) free b_relocks by blast
  ultimately show ?thesis using out [of t] by (cases "b_pc s t") auto
qed

lemma rounds_simps: "rounds Producer0 = 2000" "c \<noteq> Producer0 \<Longrightarrow> rounds c = 500"
  by (simp_all add: rounds_def LOOPS_PER_THREAD_def)

lemma taken_sum: "taken s = turns s Consumer1 + turns s Consumer2 + turns s Consumer3 + turns s Consumer4"
  by (simp add: taken_def UNIV_worker)

lemma turns_idle: "b_pc s t = B_wait \<or> b_pc s t = B_returned \<Longrightarrow> turns s t = b_i s t"
  by (auto simp: turns_def)

lemma turns_bound: "round_inv s \<Longrightarrow> turns s t \<le> rounds t"
  using round_thread(1,2) [of s t] by (auto simp: turns_def)

text \<open>The items left over in a stuck state contradict any thread that still waits.\<close>

lemma buffer_progress:
  assumes inv: "buffer_inv s" and running: "\<not> buffer_final s"
  shows "\<exists>s'. buffer_step sp s s'"
proof (rule ccontr)
  assume stuck: "\<nexists>s'. buffer_step sp s s'"
  have i: "lock_inv s" "round_inv s" "stock_inv s" "more_inv s" "less_inv s"
    using inv by (simp_all add: buffer_inv_def wake_inv_split)
  have pc: "b_pc s t = B_wait \<or> b_pc s t = B_returned" for t by (rule stuck_pcs [OF i(1) stuck])
  have stock: "occupied (cbuf s) = int (turns s Producer0) - int (taken s)" "0 \<le> occupied (cbuf s)"
    using i(3) by (simp_all add: stock_inv_def buffer_ok_def)
  have bound: "turns s t \<le> rounds t" for t by (rule turns_bound [OF i(2)])
  have less: "turns s t < rounds t" if "b_pc s t = B_wait" for t
    using round_thread(2) [OF i(2), of t] turns_idle [of s t] that by simp
  have eq: "turns s t = rounds t" if "b_pc s t = B_returned" for t
    using round_thread(3) [OF i(2), of t] turns_idle [of s t] that by simp
  have "alert s t = 0" for t using pc [of t] by (auto simp: alert_def)
  then have "alerts s = 0" by (simp add: alerts_def)
  then have hungry: "occupied (cbuf s) = 0" if "c \<noteq> Producer0" "b_pc s c = B_wait" for c
    using i(4) stock(2) that by (force simp: more_inv_def)
  have "b_pc s c \<noteq> B_signal" for c using pc [of c] by auto
  then have full: "occupied (cbuf s) \<ge> 50" if "b_pc s Producer0 = B_wait"
    using i(5) that by (simp add: less_inv_def)
  have no_consumer: "b_pc s c = B_returned" if "c \<noteq> Producer0" for c
  proof (rule ccontr)
    assume "b_pc s c \<noteq> B_returned"
    then have c: "b_pc s c = B_wait" using pc by blast
    then have zero: "occupied (cbuf s) = 0" by (rule hungry [OF that])
    then have "b_pc s Producer0 = B_returned" using full pc [of Producer0] by linarith
    then have "taken s = 2000" using eq [of Producer0] zero stock(1) by (simp add: rounds_simps)
    moreover have "turns s c < 500" using less [OF c] that by (simp add: rounds_simps)
    ultimately show False
      using that bound [of Consumer1] bound [of Consumer2] bound [of Consumer3] bound [of Consumer4]
      by (cases c) (simp_all add: taken_sum rounds_simps)
  qed
  then have "taken s = 2000" using eq by (simp add: taken_sum rounds_simps)
  then have "b_pc s Producer0 \<noteq> B_wait"
    using less [of Producer0] stock by (auto simp: rounds_simps)
  then have "b_pc s t = B_returned" for t
    using no_consumer [of t] pc [of Producer0] by (cases "t = Producer0") auto
  then show False using running by (simp add: buffer_final_def)
qed

interpretation spur: transition_system "buffer_step True" buffer_init buffer_inv
  by unfold_locales (auto intro: buffer_init_inv buffer_inv_step)

interpretation quiet: terminating_system "buffer_step False" buffer_init buffer_inv buffer_rank buffer_final
proof unfold_locales
  show "buffer_init s \<Longrightarrow> buffer_inv s" for s by (rule buffer_init_inv)
  show "buffer_inv s \<Longrightarrow> buffer_step False s t \<Longrightarrow> buffer_inv t" for s t by (rule buffer_inv_step)
  show "buffer_inv s \<Longrightarrow> buffer_step False s t \<Longrightarrow> buffer_rank t < buffer_rank s" for s t
    using buffer_rank_step [of s t] by (simp add: buffer_inv_def)
  show "buffer_inv s \<Longrightarrow> \<not> buffer_final s \<Longrightarrow> \<exists>t. buffer_step False s t" for s
    by (rule buffer_progress)
qed

lemma buffer_final_state:
  assumes "buffer_inv s" "buffer_final s"
  shows "occupied (cbuf s) = 0 \<and> contents (cbuf s) = [] \<and> buf (cbuf s) = replicate 50 0"
proof -
  have i: "round_inv s" "stock_inv s" using assms(1) by (simp_all add: buffer_inv_def)
  have t: "turns s t = rounds t" for t
    using assms(2) turns_idle [of s t] round_thread(3) [OF i(1), of t] by (simp add: buffer_final_def)
  then have "taken s = 2000" by (simp add: taken_sum rounds_simps)
  then have "occupied (cbuf s) = 0" using i(2) t [of Producer0] by (simp add: stock_inv_def rounds_simps)
  then show ?thesis using drained_zero [of "cbuf s"] i(2) by (simp add: stock_inv_def contents_def)
qed

definition buffer_start :: buffer_state where
  "buffer_start = \<lparr>cbuf = buffer0, b_mutex = None, b_pc = (\<lambda>_. B_loop), b_i = (\<lambda>_. 0)\<rparr>"

lemma buffer_start_init: "buffer_init buffer_start"
  by (simp add: buffer_start_def buffer_init_def)

lemma buffer_start_reaches: "\<exists>s. (buffer_step False)\<^sup>*\<^sup>* buffer_start s \<and> buffer_final s"
  using quiet.completes buffer_init_inv buffer_start_init by blast

text \<open>
  C31: No deadlock and no lost wake-up: a reachable state in which no thread can take a step, whether
  or not waiting threads wake spuriously, has all five threads returned; everything produced has
  then been consumed and the buffer is empty and zero again.
\<close>

theorem producer_consumer_no_deadlock:
  assumes "buffer_init s\<^sub>0" "(buffer_step spurious)\<^sup>*\<^sup>* s\<^sub>0 s" "\<nexists>s'. buffer_step spurious s s'"
  shows "buffer_final s \<and> occupied (cbuf s) = 0 \<and> contents (cbuf s) = [] \<and> buf (cbuf s) = buf buffer0"
proof -
  have inv: "buffer_inv s" using assms(1,2) spur.reachable_inv quiet.reachable_inv by (cases spurious) auto
  then have "buffer_final s" using buffer_progress assms(3) by blast
  with buffer_final_state [OF inv] show ?thesis by (simp add: buffer0_def BUFFER_SIZE_def)
qed

theorem producer_consumer_no_deadlock_witness:
  "\<exists>s. (buffer_step False)\<^sup>*\<^sup>* buffer_start s \<and> (\<nexists>s'. buffer_step False s s') \<and> occupied (cbuf s) = 0"
proof -
  obtain s where s: "(buffer_step False)\<^sup>*\<^sup>* buffer_start s" "buffer_final s" using buffer_start_reaches by blast
  have "\<nexists>s'. buffer_step False s s'"
  proof
    assume "\<exists>s'. buffer_step False s s'"
    then obtain s' where "buffer_step False s s'" ..
    then show False using s(2) by cases (auto simp: buffer_final_def)
  qed
  with s(1) producer_consumer_no_deadlock [OF buffer_start_init s(1)] show ?thesis by blast
qed

text \<open>Without spurious wake-ups every run is finite: from the start at most 36005 steps are taken.
\<close>

lemma producer_consumer_terminates:
  assumes "buffer_init s\<^sub>0" "(buffer_step False ^^ n) s\<^sub>0 s"
  shows "n \<le> 36005"
proof -
  have "buffer_rank s\<^sub>0 = 36005" using assms(1)
    by (simp add: buffer_rank_def buffer_init_def b_left_def UNIV_worker rounds_simps)
  with quiet.run_length [OF assms(2) buffer_init_inv [OF assms(1)]] show ?thesis by auto
qed

text \<open>
  C32: In every reachable state the buffer indices and the count are within bounds, the count is the
  number of items produced less the number consumed, and a thread about to run its body has room or
  an item for it: nothing is written over or taken from an empty buffer.
\<close>

theorem producer_consumer_safe:
  assumes "buffer_init s\<^sub>0" "(buffer_step spurious)\<^sup>*\<^sup>* s\<^sub>0 s"
  shows "buffer_ok (cbuf s) \<and> occupied (cbuf s) = int (turns s Producer0) - int (taken s) \<and>
    (b_pc s Producer0 = B_body \<longrightarrow> occupied (cbuf s) < BUFFER_SIZE) \<and>
    (\<forall>c. c \<noteq> Producer0 \<longrightarrow> b_pc s c = B_body \<longrightarrow> occupied (cbuf s) > 0)"
proof -
  have "buffer_inv s" using assms(1,2) spur.reachable_inv quiet.reachable_inv by (cases spurious) auto
  then show ?thesis by (fastforce simp: buffer_inv_def stock_inv_def must_wait_def)
qed

theorem producer_consumer_safe_witness:
  "buffer_ok (cbuf buffer_start) \<and> occupied (cbuf buffer_start) = 0"
  using producer_consumer_safe [OF buffer_start_init, of False buffer_start] by (simp add: buffer_start_def buffer0_def)

end
