(* ===== verification/Buffer_Steps.thy ===== *)
theory Buffer_Steps
  imports Buffer_Threads
begin

text \<open>
  The producer/consumer demo with every load and store of a body a step of its own.  The bodies
  of \<open>ecall_producer\<close> and \<open>ecall_consumer\<close> are short programs over two registers of the thread
  (\<open>producer_code\<close>, \<open>consumer_code\<close>); between any two of their instructions the other threads may
  go on.  The model of theory \<open>Buffer_Threads\<close>, where a body is one step, is an abstraction of
  this one: \<open>coarse_of\<close> completes a body that has begun, and every step is a step of the coarse
  model or leaves the abstraction alone.  Deadlock freedom, termination and the safety of the array
  accesses carry over.
\<close>

section \<open>The bodies as instructions\<close>

datatype buffer_field = F_occupied | F_nextin | F_nextout

datatype register = Idx | Val

datatype instr =
    Load_field register buffer_field
  | Store_field buffer_field register
  | Move register register
  | Add register int
  | Mod_size register
  | Store_cell
  | Clear_cell

fun get_field :: "buffer_field \<Rightarrow> cond_buffer_t \<Rightarrow> int" where
  "get_field F_occupied b = occupied b"
| "get_field F_nextin b = nextin b"
| "get_field F_nextout b = nextout b"

fun set_field :: "buffer_field \<Rightarrow> int \<Rightarrow> cond_buffer_t \<Rightarrow> cond_buffer_t" where
  "set_field F_occupied v b = b\<lparr>occupied := v\<rparr>"
| "set_field F_nextin v b = b\<lparr>nextin := v\<rparr>"
| "set_field F_nextout v b = b\<lparr>nextout := v\<rparr>"

type_synonym regs = "register \<Rightarrow> int"

fun exec :: "instr \<Rightarrow> regs \<times> cond_buffer_t \<Rightarrow> regs \<times> cond_buffer_t" where
  "exec (Load_field r f) (g, b) = (g(r := get_field f b), b)"
| "exec (Store_field f r) (g, b) = (g, set_field f (g r) b)"
| "exec (Move r r') (g, b) = (g(r := g r'), b)"
| "exec (Add r k) (g, b) = (g(r := g r + k), b)"
| "exec (Mod_size r) (g, b) = (g(r := g r smod BUFFER_SIZE), b)"
| "exec Store_cell (g, b) = (g, b\<lparr>buf := (buf b)[nat (g Idx) := g Val]\<rparr>)"
| "exec Clear_cell (g, b) = (g, b\<lparr>buf := (buf b)[nat (g Idx) := 0]\<rparr>)"

fun exec_all :: "instr list \<Rightarrow> regs \<times> cond_buffer_t \<Rightarrow> regs \<times> cond_buffer_t" where
  "exec_all [] x = x"
| "exec_all (i # is) x = exec_all is (exec i x)"

text \<open>\<open>b->buf[b->nextin] = b->nextin; b->nextin++; b->nextin %= BUFFER_SIZE; b->occupied++;\<close>\<close>

definition producer_code :: "instr list" where
  "producer_code =
     [Load_field Idx F_nextin, Load_field Val F_nextin, Store_cell,
      Load_field Val F_nextin, Add Val 1, Store_field F_nextin Val,
      Load_field Val F_nextin, Mod_size Val, Store_field F_nextin Val,
      Load_field Val F_occupied, Add Val 1, Store_field F_occupied Val]"

text \<open>\<open>b->buf[b->nextout++] = 0; b->nextout %= BUFFER_SIZE; b->occupied--;\<close>\<close>

definition consumer_code :: "instr list" where
  "consumer_code =
     [Load_field Idx F_nextout, Move Val Idx, Add Val 1, Store_field F_nextout Val, Clear_cell,
      Load_field Val F_nextout, Mod_size Val, Store_field F_nextout Val,
      Load_field Val F_occupied, Add Val (-1), Store_field F_occupied Val]"

definition body_code :: "worker \<Rightarrow> instr list" where
  "body_code t = (if t = Producer0 then producer_code else consumer_code)"

section \<open>The detailed step relation\<close>

text \<open>
  \<open>f_pos\<close> counts the instructions of its body a thread has run.  Every step of the coarse model but
  the body is a step here too: it is one that moves no thread out of its body.
\<close>

record fine_state =
  threads :: buffer_state
  f_pos :: "worker \<Rightarrow> nat"
  f_regs :: "worker \<Rightarrow> regs"

definition fine_init :: "fine_state \<Rightarrow> bool" where
  "fine_init s \<longleftrightarrow> buffer_init (threads s) \<and> (\<forall>t. f_pos s t = 0)"

inductive fine_step :: "bool \<Rightarrow> fine_state \<Rightarrow> fine_state \<Rightarrow> bool" for spurious where
  f_control: "buffer_step spurious (threads s) c \<Longrightarrow>
    (\<And>t. b_pc (threads s) t = B_body \<Longrightarrow> b_pc c t = B_body) \<Longrightarrow>
    fine_step spurious s (s\<lparr>threads := c\<rparr>)"
| f_instr: "b_pc (threads s) t = B_body \<Longrightarrow> f_pos s t < length (body_code t) \<Longrightarrow>
    exec (body_code t ! f_pos s t) (f_regs s t, cbuf (threads s)) = (g, b) \<Longrightarrow>
    fine_step spurious s (s\<lparr>threads := (threads s)\<lparr>cbuf := b\<rparr>,
      f_pos := (f_pos s)(t := Suc (f_pos s t)), f_regs := (f_regs s)(t := g)\<rparr>)"
| f_done: "b_pc (threads s) t = B_body \<Longrightarrow> f_pos s t = length (body_code t) \<Longrightarrow>
    fine_step spurious s (s\<lparr>threads := (threads s)\<lparr>b_pc := (b_pc (threads s))(t := B_signal)\<rparr>,
      f_pos := (f_pos s)(t := 0)\<rparr>)"

definition fine_final :: "fine_state \<Rightarrow> bool" where
  "fine_final s \<longleftrightarrow> buffer_final (threads s)"

section \<open>A body run to its end\<close>

lemma exec_all_append: "exec_all (xs @ ys) x = exec_all ys (exec_all xs x)"
  by (induction xs x rule: exec_all.induct) simp_all

lemma body_code_runs: "snd (exec_all (body_code t) (g, b)) = b_body t b"
  by (simp add: body_code_def producer_code_def consumer_code_def b_body_def produce_def consume_def Let_def)

lemma body_code_nonempty [simp]: "body_code t \<noteq> []"
  by (simp add: body_code_def producer_code_def consumer_code_def)

lemma body_code_length: "length (body_code t) \<le> 12"
  by (simp add: body_code_def producer_code_def consumer_code_def)

definition finish :: "fine_state \<Rightarrow> worker \<Rightarrow> cond_buffer_t" where
  "finish s t = snd (exec_all (drop (f_pos s t) (body_code t)) (f_regs s t, cbuf (threads s)))"

text \<open>The coarse state: a body that has begun is complete.\<close>

definition coarse_of :: "fine_state \<Rightarrow> buffer_state" where
  "coarse_of s =
     (case b_mutex (threads s) of
        None \<Rightarrow> threads s
      | Some t \<Rightarrow>
          if 0 < f_pos s t
          then (threads s)\<lparr>cbuf := finish s t, b_pc := (b_pc (threads s))(t := B_signal)\<rparr>
          else threads s)"

section \<open>Invariant and simulation\<close>

text \<open>Only the thread that holds the mutex is inside a body.\<close>

definition pos_inv :: "fine_state \<Rightarrow> bool" where
  "pos_inv s \<longleftrightarrow> lock_inv (threads s) \<and>
     (\<forall>t. f_pos s t \<le> length (body_code t) \<and> (0 < f_pos s t \<longrightarrow> b_pc (threads s) t = B_body))"

text \<open>A body that has begun has run its first instructions on a buffer with room or an item for it.\<close>

definition prefix_inv :: "fine_state \<Rightarrow> bool" where
  "prefix_inv s \<longleftrightarrow> (\<forall>t. 0 < f_pos s t \<longrightarrow>
     (\<exists>g b. buffer_ok b \<and> \<not> must_wait t b \<and>
        (f_regs s t, cbuf (threads s)) = exec_all (take (f_pos s t) (body_code t)) (g, b)))"

definition fine_inv :: "fine_state \<Rightarrow> bool" where
  "fine_inv s \<longleftrightarrow> pos_inv s \<and> prefix_inv s \<and> buffer_inv (coarse_of s)"

lemma pos_owner: "pos_inv s \<Longrightarrow> b_pc (threads s) t = B_body \<Longrightarrow> b_mutex (threads s) = Some t"
  using locker [of "threads s" t] by (simp add: pos_inv_def)

lemma pos_others:
  assumes "pos_inv s" "b_pc (threads s) t = B_body" "u \<noteq> t"
  shows "f_pos s u = 0"
  using others_out [of "threads s" t u] assms by (auto simp: pos_inv_def)

lemma coarse_busy:
  assumes "pos_inv s" "0 < f_pos s t"
  shows "coarse_of s = (threads s)\<lparr>cbuf := finish s t, b_pc := (b_pc (threads s))(t := B_signal)\<rparr>"
  using assms pos_owner [OF assms(1), of t] by (simp add: coarse_of_def pos_inv_def)

lemma coarse_idle:
  assumes "\<And>t. f_pos s t = 0"
  shows "coarse_of s = threads s"
  using assms by (simp add: coarse_of_def split: option.splits)

text \<open>The other threads' steps while a thread is inside its body neither see nor change the buffer.\<close>

lemma control_beside:
  assumes "buffer_step sp c c'" "lock_inv c" "b_pc c t = B_body" "b_pc c' t = B_body"
  shows "b_mutex c' = b_mutex c \<and> cbuf c' = cbuf c \<and>
    buffer_step sp (c\<lparr>cbuf := x, b_pc := (b_pc c)(t := B_signal)\<rparr>) (c'\<lparr>cbuf := x, b_pc := (b_pc c')(t := B_signal)\<rparr>)"
proof -
  have out: "\<not> holds (b_pc c u)" if "u \<noteq> t" for u using others_out [OF assms(2) _ that] assms(3) by simp
  have own: "b_mutex c = Some t" using locker [OF assms(2), of t] assms(3) by simp
  from assms(1) show ?thesis
  proof cases
    case (b_return u)
    then have "u \<noteq> t" using assms(3) by auto
    with b_return buffer_step.b_return [of "c\<lparr>cbuf := x, b_pc := (b_pc c)(t := B_signal)\<rparr>" u sp]
    show ?thesis by (simp add: fun_upd_twist)
  next
    case (b_spurious u)
    then have "u \<noteq> t" using assms(3) by auto
    with b_spurious buffer_step.b_spurious [of sp "c\<lparr>cbuf := x, b_pc := (b_pc c)(t := B_signal)\<rparr>" u]
    show ?thesis by (simp add: fun_upd_twist)
  next
    case (b_waits u) then show ?thesis using out [of u] assms(3) by (cases "u = t") auto
  next
    case (b_goes_on u) then show ?thesis using out [of u] assms(3) by (cases "u = t") auto
  next
    case (b_runs_body u) then show ?thesis using out [of u] assms(3,4) by (cases "u = t") auto
  next
    case (b_wakes u v) then show ?thesis using out [of u] assms(3) by (cases "u = t") auto
  next
    case (b_wakes_none u) then show ?thesis using out [of u] assms(3) by (cases "u = t") auto
  next
    case (b_unlocks u) then show ?thesis using out [of u] assms(3) by (cases "u = t") auto
  qed (use own in auto)
qed

lemma finish_instr:
  assumes "f_pos s t < length (body_code t)"
    and "exec (body_code t ! f_pos s t) (f_regs s t, cbuf (threads s)) = (g, b)"
  shows "snd (exec_all (drop (Suc (f_pos s t)) (body_code t)) (g, b)) = finish s t"
  using assms by (simp add: finish_def Cons_nth_drop_Suc [symmetric])

text \<open>Instructions left in a body that has begun.\<close>

definition unfinished :: "fine_state \<Rightarrow> worker \<Rightarrow> nat" where
  "unfinished s t = (if 0 < f_pos s t then Suc (length (body_code t)) - f_pos s t else 0)"

definition fine_rest :: "fine_state \<Rightarrow> nat" where
  "fine_rest s = (\<Sum>t\<in>UNIV. unfinished s t)"

lemma fine_rest_change:
  assumes "\<And>u. u \<noteq> t \<Longrightarrow> f_pos s' u = f_pos s u" "unfinished s' t < unfinished s t"
  shows "fine_rest s' < fine_rest s"
  using sum_change [of t "unfinished s'" "unfinished s"] assms
  unfolding fine_rest_def unfinished_def by fastforce

lemma fine_rest_bound: "fine_rest s \<le> 60"
proof -
  have "unfinished s t \<le> 12" for t
    using body_code_length [of t] unfolding unfinished_def by (cases "f_pos s t") auto
  then have "fine_rest s \<le> (\<Sum>t\<in>(UNIV :: worker set). 12)" unfolding fine_rest_def by (intro sum_mono) auto
  then show ?thesis by (simp add: UNIV_worker)
qed

lemma coarse_control:
  assumes "buffer_step sp (threads s) c" "\<And>t. b_pc (threads s) t = B_body \<Longrightarrow> b_pc c t = B_body" "pos_inv s"
  shows "buffer_step sp (coarse_of s) (coarse_of (s\<lparr>threads := c\<rparr>))"
proof (cases "\<exists>t. 0 < f_pos s t")
  case False
  then show ?thesis using assms by (simp add: coarse_idle)
next
  case True
  then obtain t where t: "0 < f_pos s t" by blast
  then have body: "b_pc (threads s) t = B_body" "lock_inv (threads s)" using assms(3) by (simp_all add: pos_inv_def)
  let ?s' = "s\<lparr>threads := c\<rparr>"
  note beside = control_beside [OF assms(1) body(2,1) assms(2) [OF body(1)], of "finish s t"]
  have "finish ?s' t = finish s t" using beside by (simp add: finish_def)
  then have "coarse_of ?s' = c\<lparr>cbuf := finish s t, b_pc := (b_pc c)(t := B_signal)\<rparr>"
    using t beside pos_owner [OF assms(3) body(1)] by (simp add: coarse_of_def)
  with beside show ?thesis by (simp add: coarse_busy [OF assms(3) t])
qed

lemma coarse_step:
  assumes "fine_step sp s s'" "pos_inv s"
  shows "buffer_step sp (coarse_of s) (coarse_of s') \<or>
    coarse_of s' = coarse_of s \<and> fine_rest s' < fine_rest s"
  using assms(1)
proof cases
  case (f_control c)
  then show ?thesis using coarse_control [OF f_control(2,3) assms(2)] by simp
next
  case (f_instr t g b)
  have rest: "finish s' t = finish s t"
    using finish_instr [OF f_instr(3,4)] by (simp add: f_instr(1) finish_def)
  have after: "coarse_of s' = (threads s)\<lparr>cbuf := finish s t, b_pc := (b_pc (threads s))(t := B_signal)\<rparr>"
    using rest pos_owner [OF assms(2) f_instr(2)] by (simp add: coarse_of_def f_instr(1))
  show ?thesis
  proof (cases "f_pos s t = 0")
    case True
    then have "f_pos s u = 0" for u using pos_others [OF assms(2) f_instr(2), of u] by (cases "u = t") auto
    then have "coarse_of s = threads s" by (rule coarse_idle)
    moreover have "finish s t = b_body t (cbuf (threads s))" using True by (simp add: finish_def body_code_runs)
    ultimately show ?thesis using buffer_step.b_runs_body [of "threads s" t sp] f_instr(2) after by simp
  next
    case False
    moreover have "fine_rest s' < fine_rest s"
      by (rule fine_rest_change [of t]) (use False f_instr in \<open>auto simp: unfinished_def\<close>)
    ultimately show ?thesis using after coarse_busy [OF assms(2), of t] by simp
  qed
next
  case (f_done t)
  then have "0 < f_pos s t" by simp
  moreover have "finish s t = cbuf (threads s)" using f_done(3) by (simp add: finish_def)
  moreover have "coarse_of s' = threads s'"
    using pos_owner [OF assms(2) f_done(2)] by (simp add: coarse_of_def f_done(1))
  moreover have "fine_rest s' < fine_rest s"
    by (rule fine_rest_change [of t]) (use f_done in \<open>auto simp: unfinished_def\<close>)
  ultimately show ?thesis using coarse_busy [OF assms(2), of t] by (simp add: f_done(1))
qed

lemma pos_step:
  assumes "fine_step sp s s'" "pos_inv s"
  shows "pos_inv s'"
  using assms(1)
proof cases
  case (f_control c)
  then show ?thesis using assms(2) lock_step [OF f_control(2)] by (auto simp: pos_inv_def)
next
  case (f_instr t g b)
  then show ?thesis using assms(2) by (auto simp: pos_inv_def lock_inv_def)
next
  case (f_done t)
  have "lock_inv ((threads s)\<lparr>b_pc := (b_pc (threads s))(t := B_signal)\<rparr>)"
    using assms(2) f_done(2) by (simp add: pos_inv_def lock_inv_def mutex_steps)
  then show ?thesis using assms(2) pos_others [OF assms(2) f_done(2)] by (auto simp: f_done(1) pos_inv_def)
qed

lemma prefix_step:
  assumes "fine_step sp s s'" "fine_inv s"
  shows "prefix_inv s'"
  using assms(1)
proof cases
  case (f_control c)
  have "cbuf c = cbuf (threads s)" if "0 < f_pos s t" for t
  proof -
    have body: "b_pc (threads s) t = B_body" "lock_inv (threads s)"
      using that assms(2) by (simp_all add: fine_inv_def pos_inv_def)
    show ?thesis using control_beside [OF f_control(2) body(2,1) f_control(3) [OF body(1)]] by blast
  qed
  then show ?thesis using assms(2) by (auto simp: f_control(1) fine_inv_def prefix_inv_def)
next
  case (f_instr t g b)
  have pos: "pos_inv s" using assms(2) by (simp add: fine_inv_def)
  have "\<exists>g0 b0. buffer_ok b0 \<and> \<not> must_wait t b0 \<and>
      (f_regs s t, cbuf (threads s)) = exec_all (take (f_pos s t) (body_code t)) (g0, b0)"
  proof (cases "f_pos s t = 0")
    case True
    then have "f_pos s u = 0" for u using pos_others [OF pos f_instr(2), of u] by (cases "u = t") auto
    then have "coarse_of s = threads s" by (rule coarse_idle)
    then have "stock_inv (threads s)" using assms(2) by (simp add: fine_inv_def buffer_inv_def)
    then show ?thesis using True f_instr(2) by (auto simp: stock_inv_def)
  next
    case False
    then show ?thesis using assms(2) by (simp add: fine_inv_def prefix_inv_def)
  qed
  then obtain g0 b0 where good: "buffer_ok b0" "\<not> must_wait t b0"
    and run: "exec_all (take (f_pos s t) (body_code t)) (g0, b0) = (f_regs s t, cbuf (threads s))" by metis
  have "exec_all (take (Suc (f_pos s t)) (body_code t)) (g0, b0) = (g, b)"
    using run f_instr(4) by (simp add: take_Suc_conv_app_nth [OF f_instr(3)] exec_all_append)
  with good pos_others [OF pos f_instr(2)] show ?thesis
    unfolding prefix_inv_def f_instr(1) by (auto intro!: exI [of _ b0] exI [of _ g0])
next
  case (f_done t)
  have "pos_inv s" using assms(2) by (simp add: fine_inv_def)
  then show ?thesis using pos_others [OF _ f_done(2)] by (auto simp: f_done(1) prefix_inv_def)
qed

lemma fine_inv_step: "fine_inv s \<Longrightarrow> fine_step sp s s' \<Longrightarrow> fine_inv s'"
  using pos_step prefix_step coarse_step buffer_inv_step unfolding fine_inv_def
  by (metis fine_inv_def)

lemma fine_init_inv: "fine_init s \<Longrightarrow> fine_inv s"
  using buffer_init_inv [of "threads s"]
  by (simp add: fine_init_def fine_inv_def coarse_idle pos_inv_def prefix_inv_def buffer_inv_def)

section \<open>Progress\<close>

lemma fine_progress:
  assumes "fine_inv s" "\<not> fine_final s"
  shows "\<exists>s'. fine_step sp s s'"
proof (cases "\<exists>t. b_pc (threads s) t = B_body")
  case True
  then obtain t where t: "b_pc (threads s) t = B_body" by blast
  then have "f_pos s t \<le> length (body_code t)" using assms(1) by (simp add: fine_inv_def pos_inv_def)
  then consider "f_pos s t < length (body_code t)" | "f_pos s t = length (body_code t)" by linarith
  then show ?thesis
  proof cases
    case 1
    obtain g b where "exec (body_code t ! f_pos s t) (f_regs s t, cbuf (threads s)) = (g, b)" by fastforce
    from f_instr [OF t 1 this] show ?thesis by blast
  next
    case 2
    from f_done [OF t 2] show ?thesis by blast
  qed
next
  case False
  then have "f_pos s t = 0" for t using assms(1) by (auto simp: fine_inv_def pos_inv_def)
  then have "coarse_of s = threads s" by (rule coarse_idle)
  then obtain c where "buffer_step sp (threads s) c"
    using buffer_progress [of "threads s" sp] assms by (auto simp: fine_inv_def fine_final_def)
  from f_control [OF this] False show ?thesis by blast
qed

interpretation fine_spur: simulation "fine_step True" fine_init fine_inv "buffer_step True" buffer_init coarse_of
proof unfold_locales
  show "fine_init s \<Longrightarrow> fine_inv s" for s by (rule fine_init_inv)
  show "fine_inv s \<Longrightarrow> fine_step True s t \<Longrightarrow> fine_inv t" for s t by (rule fine_inv_step)
  show "fine_init s \<Longrightarrow> buffer_init (coarse_of s)" for s by (simp add: fine_init_def coarse_idle)
  show "fine_inv s \<Longrightarrow> fine_step True s t \<Longrightarrow>
    coarse_of t = coarse_of s \<or> buffer_step True (coarse_of s) (coarse_of t)" for s t
    using coarse_step by (auto simp: fine_inv_def)
qed

interpretation fine_quiet: stuttering_simulation "fine_step False" fine_init fine_inv
  "buffer_step False" buffer_init coarse_of buffer_rank fine_rest 60 fine_final
proof unfold_locales
  show "fine_init s \<Longrightarrow> fine_inv s" for s by (rule fine_init_inv)
  show "fine_inv s \<Longrightarrow> fine_step False s t \<Longrightarrow> fine_inv t" for s t by (rule fine_inv_step)
  show "fine_init s \<Longrightarrow> buffer_init (coarse_of s)" for s by (simp add: fine_init_def coarse_idle)
  show "fine_inv s \<Longrightarrow> fine_step False s t \<Longrightarrow>
    coarse_of t = coarse_of s \<or> buffer_step False (coarse_of s) (coarse_of t)" for s t
    using coarse_step by (auto simp: fine_inv_def)
  show less: "fine_inv s \<Longrightarrow> buffer_step False (coarse_of s) b \<Longrightarrow> buffer_rank b < buffer_rank (coarse_of s)" for s b
    by (simp add: fine_inv_def buffer_inv_def buffer_rank_step)
  show "fine_rest s \<le> 60" for s by (rule fine_rest_bound)
  show "fine_rest t < fine_rest s"
    if "fine_inv s" "fine_step False s t" "coarse_of t = coarse_of s" for s t
    using coarse_step [OF that(2)] less [OF that(1), of "coarse_of s"] that by (auto simp: fine_inv_def)
  show "fine_inv s \<Longrightarrow> \<not> fine_final s \<Longrightarrow> \<exists>t. fine_step False s t" for s by (rule fine_progress)
qed

definition fine_start :: fine_state where
  "fine_start = \<lparr>threads = buffer_start, f_pos = (\<lambda>_. 0), f_regs = (\<lambda>_ _. 0)\<rparr>"

lemma fine_start_init: "fine_init fine_start"
  by (simp add: fine_start_def fine_init_def buffer_start_init)

lemma fine_reachable_inv: "fine_init s\<^sub>0 \<Longrightarrow> (fine_step sp)\<^sup>*\<^sup>* s\<^sub>0 s \<Longrightarrow> fine_inv s"
  using fine_spur.reachable_inv fine_quiet.reachable_inv by (cases sp) auto

section \<open>Bounds inside a body\<close>

definition in_range :: "cond_buffer_t \<Rightarrow> bool" where
  "in_range b \<longleftrightarrow> length (buf b) = 50 \<and> 0 \<le> occupied b \<and> occupied b \<le> 50 \<and>
     0 \<le> nextin b \<and> nextin b \<le> 50 \<and> 0 \<le> nextout b \<and> nextout b \<le> 50"

definition accesses_cell :: "instr \<Rightarrow> bool" where
  "accesses_cell i \<longleftrightarrow> i = Store_cell \<or> i = Clear_cell"

definition prefix_good :: "instr list \<Rightarrow> nat \<Rightarrow> regs \<times> cond_buffer_t \<Rightarrow> bool" where
  "prefix_good is k x \<longleftrightarrow> in_range (snd x) \<and>
     (k < length is \<longrightarrow> accesses_cell (is ! k) \<longrightarrow> 0 \<le> fst x Idx \<and> fst x Idx < 50)"

lemma in_range_ok: "buffer_ok b \<Longrightarrow> in_range b"
  using buffer_ok_nextin [of b] by (simp add: in_range_def buffer_ok_def)

lemma prefix_goods:
  assumes "buffer_ok b" "\<not> must_wait t b"
  shows "\<forall>k \<in> set [0..<Suc (length (body_code t))].
    prefix_good (body_code t) k (exec_all (take k (body_code t)) (g, b))"
proof -
  have b: "length (buf b) = 50" "0 \<le> occupied b" "occupied b \<le> 50" "0 \<le> nextin b" "nextin b < 50"
    "0 \<le> nextout b" "nextout b < 50"
    using assms(1) buffer_ok_nextin [OF assms(1)] by (simp_all add: buffer_ok_def)
  show ?thesis
  proof (cases "t = Producer0")
    case True
    then have "occupied b < 50" using assms(2) by (simp add: must_wait_def BUFFER_SIZE_def)
    with True b show ?thesis
      by (simp add: body_code_def producer_code_def prefix_good_def in_range_def accesses_cell_def
          BUFFER_SIZE_def smod_next upt_rec)
  next
    case False
    then have "0 < occupied b" using assms(2) by (simp add: must_wait_def)
    with False b show ?thesis
      by (simp add: body_code_def consumer_code_def prefix_good_def in_range_def accesses_cell_def
          BUFFER_SIZE_def smod_next upt_rec)
  qed
qed

lemma prefix_good_at:
  "buffer_ok b \<Longrightarrow> \<not> must_wait t b \<Longrightarrow> k \<le> length (body_code t) \<Longrightarrow>
   prefix_good (body_code t) k (exec_all (take k (body_code t)) (g, b))"
  by (rule prefix_goods [THEN bspec]) auto

lemma fine_memory:
  assumes "fine_inv s"
  shows "in_range (cbuf (threads s))"
    "b_pc (threads s) t = B_body \<Longrightarrow> f_pos s t < length (body_code t) \<Longrightarrow>
     accesses_cell (body_code t ! f_pos s t) \<Longrightarrow> 0 \<le> f_regs s t Idx \<and> f_regs s t Idx < 50"
proof -
  have run: "prefix_good (body_code u) (f_pos s u) (f_regs s u, cbuf (threads s))" if "0 < f_pos s u" for u
  proof -
    have "f_pos s u \<le> length (body_code u)" using assms by (simp add: fine_inv_def pos_inv_def)
    with assms that show ?thesis unfolding fine_inv_def prefix_inv_def by (metis prefix_good_at)
  qed
  show "in_range (cbuf (threads s))"
  proof (cases "\<exists>u. 0 < f_pos s u")
    case True
    then show ?thesis using run by (auto simp: prefix_good_def)
  next
    case False
    then show ?thesis using assms
      by (simp add: fine_inv_def coarse_idle buffer_inv_def stock_inv_def in_range_ok)
  qed
  assume at: "b_pc (threads s) t = B_body" "f_pos s t < length (body_code t)" "accesses_cell (body_code t ! f_pos s t)"
  then have "0 < f_pos s t"
    by (cases "f_pos s t")
      (auto simp: body_code_def producer_code_def consumer_code_def accesses_cell_def split: if_splits)
  then show "0 \<le> f_regs s t Idx \<and> f_regs s t Idx < 50" using run at by (simp add: prefix_good_def)
qed

section \<open>Properties\<close>

text \<open>
  C33: Executing the bodies instruction by instruction refines the model in which a body is one step:
  whatever the other threads do in between, and with or without spurious wake-ups, every run of the
  detailed system is, with the begun body completed, a run of the coarse one.
\<close>

theorem body_statements_refine:
  assumes "fine_init s\<^sub>0" "(fine_step spurious)\<^sup>*\<^sup>* s\<^sub>0 s"
  shows "buffer_init (coarse_of s\<^sub>0) \<and> (buffer_step spurious)\<^sup>*\<^sup>* (coarse_of s\<^sub>0) (coarse_of s)"
  using assms fine_spur.reachable_abs fine_quiet.reachable_abs by (cases spurious) auto

theorem body_statements_refine_witness:
  "\<exists>s. fine_step True fine_start s \<and> (buffer_step True)\<^sup>*\<^sup>* buffer_start (coarse_of s) \<and>
     b_mutex (coarse_of s) = Some Producer0"
proof -
  let ?c = "buffer_start\<lparr>b_mutex := Some Producer0, b_pc := (b_pc buffer_start)(Producer0 := B_check)\<rparr>"
  have "buffer_step True buffer_start ?c"
    by (rule b_lock) (simp_all add: buffer_start_def rounds_simps)
  then have step: "fine_step True fine_start (fine_start\<lparr>threads := ?c\<rparr>)"
    using f_control [of True fine_start ?c] by (simp add: fine_start_def buffer_start_def)
  have "coarse_of fine_start = buffer_start" by (simp add: coarse_idle fine_start_def)
  with body_statements_refine [OF fine_start_init r_into_rtranclp [of "fine_step True", OF step]]
  have "(buffer_step True)\<^sup>*\<^sup>* buffer_start (coarse_of (fine_start\<lparr>threads := ?c\<rparr>))" by simp
  moreover have "b_mutex (coarse_of (fine_start\<lparr>threads := ?c\<rparr>)) = Some Producer0"
    by (simp add: coarse_idle fine_start_def)
  ultimately show ?thesis using step by blast
qed

text \<open>
  C34: No body reads or writes outside the array, whatever the interleaving: a thread about to access
  \<open>buf[i]\<close> has an index between 0 and 49.  At every moment, also in the middle of a body, the three
  integer fields stay between 0 and 50, so their increments and decrements cannot overflow.
\<close>

theorem body_accesses_in_bounds:
  assumes "fine_init s\<^sub>0" "(fine_step spurious)\<^sup>*\<^sup>* s\<^sub>0 s"
  shows "in_range (cbuf (threads s)) \<and>
    (\<forall>t. b_pc (threads s) t = B_body \<and> f_pos s t < length (body_code t) \<and>
       accesses_cell (body_code t ! f_pos s t) \<longrightarrow> 0 \<le> f_regs s t Idx \<and> f_regs s t Idx < 50)"
  using fine_memory [OF fine_reachable_inv [OF assms]] by blast

theorem body_accesses_in_bounds_witness:
  "in_range (cbuf (threads fine_start))"
  using body_accesses_in_bounds [OF fine_start_init, of False fine_start] by simp

text \<open>The demo ends, statement by statement: without spurious wake-ups no run takes more than
  2196305 steps, and a state from which no thread can go on has all five threads returned and the
  buffer empty and zero again.
\<close>

lemma body_statements_end:
  assumes "fine_init s\<^sub>0" "(fine_step False ^^ n) s\<^sub>0 s"
  shows "n \<le> 2196305 \<and>
    ((\<nexists>s'. fine_step False s s') \<longrightarrow>
       buffer_final (threads s) \<and> occupied (cbuf (threads s)) = 0 \<and> buf (cbuf (threads s)) = buf buffer0)"
proof (intro conjI impI)
  have "buffer_rank (coarse_of s\<^sub>0) = 36005" using assms(1)
    by (simp add: fine_init_def coarse_idle buffer_rank_def buffer_init_def b_left_def UNIV_worker rounds_simps)
  moreover have "fine_rest s\<^sub>0 = 0" using assms(1)
    by (simp add: fine_rest_def unfinished_def fine_init_def)
  ultimately show "n \<le> 2196305"
    using fine_quiet.run_length [OF assms(2) fine_init_inv [OF assms(1)]]
    by (simp add: fine_quiet.detailed_rank_def)
  assume stuck: "\<nexists>s'. fine_step False s s'"
  have inv: "fine_inv s"
    using fine_reachable_inv [OF assms(1)] assms(2) relpowp_imp_rtranclp by metis
  then have final: "buffer_final (threads s)" using fine_progress [of s False] stuck by (auto simp: fine_final_def)
  then have "f_pos s t = 0" for t using inv by (auto simp: fine_inv_def pos_inv_def buffer_final_def)
  then have "buffer_inv (threads s)" using inv by (simp add: fine_inv_def coarse_idle)
  from buffer_final_state [OF this final]
  show "buffer_final (threads s)" "occupied (cbuf (threads s)) = 0" "buf (cbuf (threads s)) = buf buffer0"
    using final by (simp_all add: buffer0_def BUFFER_SIZE_def)
qed

end
