(* ===== verification/C_Int.thy ===== *)
theory C_Int
  imports Prelude "HOL-Library.Signed_Division"
begin

text \<open>
  Run-time traps of the basic enclave and the arithmetic of C's 32-bit \<open>int\<close>: an operation whose
  result does not fit is undefined behaviour, division truncates towards zero.  Computations return
  \<open>trap + 'a\<close> and are sequenced by \<open>then_do\<close>; the C library functions on strings and blocks
  the sources call are written out.
\<close>

datatype trap = Aborted | Assertion_failed | Undefined_behaviour

definition then_do :: "(trap + 'a) \<Rightarrow> ('a \<Rightarrow> trap + 'b) \<Rightarrow> trap + 'b" where
  "then_do m k = (case m of Inl t \<Rightarrow> Inl t | Inr a \<Rightarrow> k a)"

lemma then_do_simps [simp]: "then_do (Inr a) k = k a" "then_do (Inl t) k = Inl t"
  by (simp_all add: then_do_def)

lemma then_do_Inr_iff: "then_do m k = Inr b \<longleftrightarrow> (\<exists>a. m = Inr a \<and> k a = Inr b)"
  by (cases m) simp_all

text \<open>\<open>assert (c)\<close>, \<open>if (!c) abort();\<close>, and an access that needs \<open>c\<close>.\<close>

definition must :: "trap \<Rightarrow> bool \<Rightarrow> trap + unit" where
  "must t c = (if c then Inr () else Inl t)"

lemma must_simps [simp]: "must t True = Inr ()" "must t False = Inl t"
  by (simp_all add: must_def)

lemma must_Inr_iff: "must t c = Inr () \<longleftrightarrow> c"
  by (simp add: must_def)

section \<open>Signed 32-bit integers\<close>

definition in_int32 :: "int \<Rightarrow> bool" where
  "in_int32 n \<longleftrightarrow> - (2 ^ 31) \<le> n \<and> n < 2 ^ 31"

definition c_int :: "int \<Rightarrow> trap + int" where
  "c_int n = (if in_int32 n then Inr n else Inl Undefined_behaviour)"

lemma c_int_Inr [simp]: "in_int32 n \<Longrightarrow> c_int n = Inr n"
  by (simp add: c_int_def)

lemma c_int_Inr_iff: "c_int n = Inr m \<longleftrightarrow> in_int32 n \<and> m = n"
  by (auto simp: c_int_def)

definition c_div :: "int \<Rightarrow> int \<Rightarrow> trap + int" where
  "c_div a b = (if b = 0 then Inl Undefined_behaviour else c_int (a sdiv b))"

lemma sdiv_in_int32:
  assumes "in_int32 a" "in_int32 b" "b \<noteq> 0"
  shows "in_int32 (a sdiv b) \<longleftrightarrow> \<not> (a = - (2 ^ 31) \<and> b = - 1)"
proof (cases "a = - (2 ^ 31) \<and> b = - 1")
  case True
  then show ?thesis by (simp add: in_int32_def signed_divide_int_def)
next
  case False
  have q: "\<bar>a sdiv b\<bar> = \<bar>a\<bar> div \<bar>b\<bar>"
    using assms(3) by (simp add: signed_divide_int_def abs_mult sgn_if pos_imp_zdiv_nonneg_iff)
  have "\<bar>a\<bar> div \<bar>b\<bar> \<le> \<bar>a\<bar>" using zdiv_mono2 [of "\<bar>a\<bar>" 1 "\<bar>b\<bar>"] assms(3) by simp
  with q have small: "\<bar>a sdiv b\<bar> < 2 ^ 31" if "\<bar>a\<bar> < 2 ^ 31" using that by linarith
  show ?thesis
  proof (cases "\<bar>a\<bar> < 2 ^ 31")
    case True
    then show ?thesis using small False by (auto simp: in_int32_def)
  next
    case big: False
    then have a: "a = - (2 ^ 31)" using assms(1) by (auto simp: in_int32_def)
    show ?thesis
    proof (cases "0 < b")
      case True
      then have "a sdiv b = - (2 ^ 31 div b)" using a by (simp add: signed_divide_int_def)
      moreover have "2 ^ 31 div b \<le> 2 ^ 31" "0 \<le> 2 ^ 31 div b"
        using True zdiv_mono2 [of "2 ^ 31" 1 b] by (auto simp: pos_imp_zdiv_nonneg_iff)
      ultimately show ?thesis using True by (auto simp: in_int32_def)
    next
      case neg: False
      then have "b \<le> - 2" using False a assms(3) by auto
      then have "\<bar>a\<bar> div \<bar>b\<bar> \<le> \<bar>a\<bar> div 2" using a by (intro zdiv_mono2) auto
      then show ?thesis using q a False by (auto simp: in_int32_def)
    qed
  qed
qed

section \<open>Strings in memory\<close>

text \<open>Length up to the terminator, which must be inside the block.\<close>

definition c_strlen :: "byte list \<Rightarrow> trap + nat" where
  "c_strlen s = (if 0 \<in> set s then Inr (length (takeWhile (\<lambda>b. b \<noteq> 0) s)) else Inl Undefined_behaviour)"

definition c_strnlen :: "byte list \<Rightarrow> nat \<Rightarrow> nat" where
  "c_strnlen s n = length (takeWhile (\<lambda>b. b \<noteq> 0) (take n s))"

definition overwrite :: "byte list \<Rightarrow> byte list \<Rightarrow> trap + byte list" where
  "overwrite bs m = (if length bs \<le> length m then Inr (bs @ drop (length bs) m) else Inl Undefined_behaviour)"

text \<open>\<open>strncpy (dst, src, n)\<close> of a literal: its characters, padded with zeros or cut off at \<open>n\<close>.\<close>

definition strncpy_image :: "byte list \<Rightarrow> nat \<Rightarrow> byte list" where
  "strncpy_image src n = take n src @ replicate (n - length src) 0"

definition c_strncpy :: "byte list \<Rightarrow> byte list \<Rightarrow> nat \<Rightarrow> trap + byte list" where
  "c_strncpy dst src n = overwrite (strncpy_image src n) dst"

lemma strncpy_image_length [simp]: "length (strncpy_image src n) = n"
  by (simp add: strncpy_image_def)

lemma c_strncpy_eq: "n \<le> length dst \<Longrightarrow> c_strncpy dst src n = Inr (strncpy_image src n @ drop n dst)"
  by (simp add: c_strncpy_def overwrite_def)

lemma c_strlen_eq:
  assumes "0 \<notin> set s" shows "c_strlen (s @ 0 # t) = Inr (length s)"
proof -
  have "takeWhile (\<lambda>b. b \<noteq> 0) (s @ 0 # t) = s @ takeWhile (\<lambda>b. b \<noteq> 0) (0 # t)"
    using assms by (intro takeWhile_append2) auto
  then show ?thesis by (simp add: c_strlen_def)
qed

end
