(* ===== verification/Thread_Demo.thy ===== *)
theory Thread_Demo
  imports Buffer_Steps C_Int
begin

text \<open>
  \<open>ecall_thread_functions\<close> of \<open>App/TrustedLibrary/Thread.cpp\<close> as a whole: four adders are
  started and joined, their result is asserted, then the producer and the four consumers are started
  and joined.  The systems of the two demos run one after the other; a thread that has been started
  and has not taken a step yet is one the scheduler has not chosen.  A bridge that fails makes its
  thread abort the process, at any moment.
\<close>

datatype demo_state =
    D_adders counter_state
  | D_buffer fine_state
  | D_returned
  | D_trap trap

inductive demo_step :: "bool \<Rightarrow> bool \<Rightarrow> demo_state \<Rightarrow> demo_state \<Rightarrow> bool" for reliable spurious where
  d_adder: "counter_step s s' \<Longrightarrow> demo_step reliable spurious (D_adders s) (D_adders s')"
| d_joined: "counter_final s \<Longrightarrow> app_counter s = of_nat (4 * LOOPS_PER_THREAD) \<Longrightarrow>
    demo_step reliable spurious (D_adders s) (D_buffer fine_start)"
| d_assertion: "counter_final s \<Longrightarrow> app_counter s \<noteq> of_nat (4 * LOOPS_PER_THREAD) \<Longrightarrow>
    demo_step reliable spurious (D_adders s) (D_trap Assertion_failed)"
| d_worker: "fine_step spurious s s' \<Longrightarrow> demo_step reliable spurious (D_buffer s) (D_buffer s')"
| d_returns: "fine_final s \<Longrightarrow> demo_step reliable spurious (D_buffer s) D_returned"
| d_adder_aborts: "\<not> reliable \<Longrightarrow> \<not> counter_final s \<Longrightarrow> demo_step reliable spurious (D_adders s) (D_trap Aborted)"
| d_worker_aborts: "\<not> reliable \<Longrightarrow> \<not> fine_final s \<Longrightarrow> demo_step reliable spurious (D_buffer s) (D_trap Aborted)"

definition demo_start :: demo_state where
  "demo_start = D_adders counter_start"

fun demo_ended :: "demo_state \<Rightarrow> bool" where
  "demo_ended (D_adders s) = False"
| "demo_ended (D_buffer s) = False"
| "demo_ended D_returned = True"
| "demo_ended (D_trap t) = True"

fun demo_inv :: "bool \<Rightarrow> demo_state \<Rightarrow> bool" where
  "demo_inv reliable (D_adders s) = counter_inv s"
| "demo_inv reliable (D_buffer s) = fine_inv s"
| "demo_inv reliable D_returned = True"
| "demo_inv reliable (D_trap t) = (t = Aborted \<and> \<not> reliable)"

text \<open>The rank of the buffer's system at its start is added to that of the adders.\<close>

fun demo_rank :: "demo_state \<Rightarrow> nat" where
  "demo_rank (D_adders s) = counter_rank s + 2196307"
| "demo_rank (D_buffer s) = Suc (fine_quiet.detailed_rank s)"
| "demo_rank D_returned = 0"
| "demo_rank (D_trap t) = 0"

lemma fine_start_rank: "fine_quiet.detailed_rank fine_start = 2196305"
proof -
  have "coarse_of fine_start = buffer_start" by (simp add: coarse_idle fine_start_def)
  moreover have "buffer_rank buffer_start = 36005"
    by (simp add: buffer_rank_def buffer_start_def b_left_def UNIV_worker rounds_simps)
  moreover have "fine_rest fine_start = 0" by (simp add: fine_rest_def unfinished_def fine_start_def)
  ultimately show ?thesis by (simp add: fine_quiet.detailed_rank_def)
qed

lemma counter_asserted:
  "counter_inv s \<Longrightarrow> counter_final s \<Longrightarrow> app_counter s = of_nat (4 * LOOPS_PER_THREAD)"
  using counter_final_state [of s] by (simp add: LOOPS_PER_THREAD_def)

lemma demo_inv_step: "demo_step reliable spurious s s' \<Longrightarrow> demo_inv reliable s \<Longrightarrow> demo_inv reliable s'"
  by (induction rule: demo_step.induct)
    (auto intro: counter.step_inv fine_inv_step fine_init_inv fine_start_init dest: counter_asserted)

lemma demo_rank_step: "demo_step reliable False s s' \<Longrightarrow> demo_inv reliable s \<Longrightarrow> demo_rank s' < demo_rank s"
  by (induction rule: demo_step.induct)
    (auto simp: fine_start_rank intro: counter.rank_decreases fine_quiet.detailed_rank_decreases)

lemma demo_progress: "demo_inv reliable s \<Longrightarrow> \<not> demo_ended s \<Longrightarrow> \<exists>s'. demo_step reliable spurious s s'"
proof (induction s)
  case (D_adders s)
  show ?case
  proof (cases "counter_final s")
    case True
    then show ?thesis by (cases "app_counter s = of_nat (4 * LOOPS_PER_THREAD)") (blast intro: d_joined d_assertion)+
  next
    case False
    then show ?thesis using counter.progress [of s] D_adders by (auto intro: d_adder)
  qed
next
  case (D_buffer s)
  then show ?case using fine_progress [of s spurious] by (cases "fine_final s") (auto intro: d_worker d_returns)
qed simp_all

interpretation demo_spur: transition_system "demo_step reliable spurious" "\<lambda>s. s = demo_start" "demo_inv reliable"
proof unfold_locales
  show "s = demo_start \<Longrightarrow> demo_inv reliable s" for s
    by (simp add: demo_start_def counter_init_inv counter_start_init)
  show "demo_inv reliable s \<Longrightarrow> demo_step reliable spurious s t \<Longrightarrow> demo_inv reliable t" for s t
    by (rule demo_inv_step)
qed

interpretation demo: terminating_system "demo_step reliable False" "\<lambda>s. s = demo_start" "demo_inv reliable"
  demo_rank demo_ended
proof unfold_locales
  show "demo_inv reliable s \<Longrightarrow> demo_step reliable False s t \<Longrightarrow> demo_rank t < demo_rank s" for s t
    by (rule demo_rank_step)
  show "demo_inv reliable s \<Longrightarrow> \<not> demo_ended s \<Longrightarrow> \<exists>t. demo_step reliable False s t" for s
    by (rule demo_progress)
qed

text \<open>
  C30: The thread demo of the application comes to its end: however the threads are scheduled, its
  assertion on the counter never fails, the only trap is the abort of a failing bridge, without
  spurious wake-ups no run takes more than 2206315 steps, and a run that cannot go on has returned or
  was aborted so.
\<close>

theorem thread_functions_end:
  assumes "(demo_step reliable False ^^ n) demo_start s"
  shows "n \<le> 2206315 \<and> s \<noteq> D_trap Assertion_failed \<and>
    ((\<nexists>s'. demo_step reliable False s s') \<longrightarrow> s = D_returned \<or> (\<not> reliable \<and> s = D_trap Aborted))"
proof -
  have start: "demo_inv reliable demo_start" by (simp add: demo_start_def counter_init_inv counter_start_init)
  have "demo_rank demo_start = 2206315"
    by (simp add: demo_start_def counter_rank_def counter_start_def c_left_def UNIV_adder)
  then have "n \<le> 2206315" using demo.run_length [OF assms start] by simp
  moreover have inv: "demo_inv reliable s"
    using demo_spur.steps_inv [OF relpowp_imp_rtranclp [OF assms] start] .
  moreover have "demo_ended s" if "\<nexists>s'. demo_step reliable False s s'"
    using demo_progress [OF inv] that by blast
  ultimately show ?thesis by (cases s) auto
qed

theorem thread_functions_end_witness:
  "\<exists>n. (demo_step True False ^^ n) demo_start D_returned \<and> n \<le> 2206315"
proof -
  have "demo_inv True demo_start" by (simp add: demo_start_def counter_init_inv counter_start_init)
  then obtain s where s: "(demo_step True False)\<^sup>*\<^sup>* demo_start s" "demo_ended s" using demo.completes by blast
  then obtain n where run: "(demo_step True False ^^ n) demo_start s" using rtranclp_imp_relpowp by metis
  have "\<nexists>s'. demo_step True False s s'"
  proof
    assume "\<exists>s'. demo_step True False s s'"
    then obtain s' where "demo_step True False s s'" ..
    then show False using s(2) by cases auto
  qed
  with thread_functions_end [OF run] run show ?thesis by blast
qed

end
