(* ===== verification/Basic_Enclave.thy ===== *)
theory Basic_Enclave
  imports C_Int Sgx_Api
begin

text \<open>
  The basic enclave's own ecalls (\<open>Enclave/Enclave.cpp\<close>) and the application that calls them
  (\<open>App/App.cpp\<close>): the error table, the creation of the enclave and \<open>main\<close>.  The SDK and the
  generated bridge of the four arithmetic ecalls are parameters; the bridge's documented contract
  is \<open>arith_bridge_law\<close>.
\<close>

section \<open>The ecalls\<close>

text \<open>Arguments are pointers: \<open>None\<close> is null.\<close>

definition deref2 :: "int option \<Rightarrow> int option \<Rightarrow> (int \<Rightarrow> int \<Rightarrow> trap + int) \<Rightarrow> trap + int" where
  "deref2 a b f = (case (a, b) of (Some x, Some y) \<Rightarrow> f x y | _ \<Rightarrow> Inl Undefined_behaviour)"

definition add :: "int option \<Rightarrow> int option \<Rightarrow> trap + int" where
  "add a b = deref2 a b (\<lambda>x y. c_int (x + y))"

definition subtract :: "int option \<Rightarrow> int option \<Rightarrow> trap + int" where
  "subtract a b = deref2 a b (\<lambda>x y. c_int (x - y))"

definition multiply :: "int option \<Rightarrow> int option \<Rightarrow> trap + int" where
  "multiply a b = deref2 a b (\<lambda>x y. c_int (x * y))"

text \<open>The guard compares the pointer, not the divisor, with 0.\<close>

definition divide :: "int option \<Rightarrow> int option \<Rightarrow> trap + int" where
  "divide a b = (if b = None then Inr (- 1) else deref2 a b c_div)"

text \<open>
  The enclave's \<open>printf\<close>: \<open>text\<close> is what the format and its arguments expand to,
  \<open>bufsiz\<close> the C library's \<open>BUFSIZ\<close>.  The result is the string handed to
  \<open>ocall_print_string\<close>, read up to its terminator, and the value returned.
\<close>

definition enclave_printf :: "nat \<Rightarrow> byte list \<Rightarrow> byte list \<times> int" where
  "enclave_printf bufsiz text =
     (let buf = take (bufsiz - 1) text @ replicate (bufsiz - length (take (bufsiz - 1) text)) 0
      in (takeWhile (\<lambda>b. b \<noteq> 0) buf, int (c_strnlen buf (bufsiz - 1)) + 1))"

section \<open>The error table\<close>

record sgx_errlist_t =
  err :: sgx_status_t
  msg :: string
  sug :: "string option"

definition sgx_errlist :: "sgx_errlist_t list" where
  "sgx_errlist =
    [\<lparr>err = SGX_ERROR_UNEXPECTED, msg = ''Unexpected error occurred.'', sug = None\<rparr>,
     \<lparr>err = SGX_ERROR_INVALID_PARAMETER, msg = ''Invalid parameter.'', sug = None\<rparr>,
     \<lparr>err = SGX_ERROR_OUT_OF_MEMORY, msg = ''Out of memory.'', sug = None\<rparr>,
     \<lparr>err = SGX_ERROR_ENCLAVE_LOST, msg = ''Power transition occurred.'',
      sug = Some ''Please refer to the sample \"PowerTransition\" for details.''\<rparr>,
     \<lparr>err = SGX_ERROR_INVALID_ENCLAVE, msg = ''Invalid enclave image.'', sug = None\<rparr>,
     \<lparr>err = SGX_ERROR_INVALID_ENCLAVE_ID, msg = ''Invalid enclave identification.'', sug = None\<rparr>,
     \<lparr>err = SGX_ERROR_INVALID_SIGNATURE, msg = ''Invalid enclave signature.'', sug = None\<rparr>,
     \<lparr>err = SGX_ERROR_OUT_OF_EPC, msg = ''Out of EPC memory.'', sug = None\<rparr>,
     \<lparr>err = SGX_ERROR_NO_DEVICE, msg = ''Invalid SGX device.'',
      sug = Some ''Please make sure SGX module is enabled in the BIOS, and install SGX driver afterwards.''\<rparr>,
     \<lparr>err = SGX_ERROR_MEMORY_MAP_CONFLICT, msg = ''Memory map conflicted.'', sug = None\<rparr>,
     \<lparr>err = SGX_ERROR_INVALID_METADATA, msg = ''Invalid enclave metadata.'', sug = None\<rparr>,
     \<lparr>err = SGX_ERROR_DEVICE_BUSY, msg = ''SGX device was busy.'', sug = None\<rparr>,
     \<lparr>err = SGX_ERROR_INVALID_VERSION, msg = ''Enclave version was invalid.'', sug = None\<rparr>,
     \<lparr>err = SGX_ERROR_INVALID_ATTRIBUTE, msg = ''Enclave was not authorized.'', sug = None\<rparr>,
     \<lparr>err = SGX_ERROR_ENCLAVE_FILE_ACCESS, msg = ''Can't open enclave file.'', sug = None\<rparr>]"

text \<open>The loop over the table: the lines printed at the entry found, \<open>None\<close> when \<open>idx == ttl\<close>.\<close>

fun error_lines :: "sgx_errlist_t list \<Rightarrow> sgx_status_t \<Rightarrow> string list option" where
  "error_lines [] ret = None"
| "error_lines (e # es) ret =
     (if ret = err e then
        Some ((case sug e of None \<Rightarrow> [] | Some s \<Rightarrow> [''Info: '' @ s @ newline]) @ [''Error: '' @ msg e @ newline])
      else error_lines es ret)"

text \<open>\<open>hex_code\<close> is the \<open>%X\<close> image of a status, whose number the SDK defines.\<close>

definition print_error_message :: "(sgx_status_t \<Rightarrow> string) \<Rightarrow> sgx_status_t \<Rightarrow> string list" where
  "print_error_message hex_code ret =
     (case error_lines sgx_errlist ret of
        Some ls \<Rightarrow> ls
      | None \<Rightarrow> [''Error code is 0x'' @ hex_code ret @
          ''. Please refer to the \"Intel SGX SDK Developer Reference\" for more details.'' @ newline])"

section \<open>The application\<close>

text \<open>\<open>main_r\<close> is \<open>int r\<close>, uninitialised at first.\<close>

record 'w basic_app =
  global_eid :: u64
  main_r :: "int option"
  stdout_lines :: "string list"
  basic_world :: 'w

definition basic_start :: "'w \<Rightarrow> 'w basic_app" where
  "basic_start w = \<lparr>global_eid = 0, main_r = None, stdout_lines = [], basic_world = w\<rparr>"

definition say :: "string list \<Rightarrow> 'w basic_app \<Rightarrow> 'w basic_app" where
  "say ls s = s\<lparr>stdout_lines := stdout_lines s @ ls\<rparr>"

text \<open>The ocall behind the enclave's \<open>printf\<close>.\<close>

definition ocall_print_string :: "byte list \<Rightarrow> 'w basic_app \<Rightarrow> 'w basic_app" where
  "ocall_print_string str s = say [map (\<lambda>b. char_of (unat b)) str] s"

record 'w basic_sdk =
  create_enclave :: "'w \<Rightarrow> (sgx_status_t \<times> u64 option) \<times> 'w"
  arith_bridge :: "u64 \<Rightarrow> (int option \<Rightarrow> int option \<Rightarrow> trap + int) \<Rightarrow> int \<Rightarrow> int \<Rightarrow> 'w \<Rightarrow>
    (sgx_status_t \<times> int option) \<times> 'w"
  destroy_enclave :: "u64 \<Rightarrow> 'w \<Rightarrow> 'w"
  hex_code :: "sgx_status_t \<Rightarrow> string"

definition initialize_enclave :: "'w basic_sdk \<Rightarrow> 'w basic_app \<Rightarrow> int \<times> 'w basic_app" where
  "initialize_enclave K s =
     (case create_enclave K (basic_world s) of ((ret, eid), w) \<Rightarrow>
        let s1 = s\<lparr>basic_world := w, global_eid := (case eid of None \<Rightarrow> global_eid s | Some e \<Rightarrow> e)\<rparr>
        in if ret \<noteq> SGX_SUCCESS then (- 1, say (print_error_message (hex_code K) ret) s1) else (0, s1))"

text \<open>One ecall and the line printed after it; the status is ignored.\<close>

definition call_and_print ::
  "'w basic_sdk \<Rightarrow> (int option \<Rightarrow> int option \<Rightarrow> trap + int) \<Rightarrow> string \<Rightarrow> int \<Rightarrow> int \<Rightarrow> 'w basic_app \<Rightarrow> trap + 'w basic_app" where
  "call_and_print K f label a b s =
     (case arith_bridge K (global_eid s) f a b (basic_world s) of ((_, out), w) \<Rightarrow>
        let s1 = s\<lparr>basic_world := w, main_r := (case out of None \<Rightarrow> main_r s | Some v \<Rightarrow> Some v)\<rparr>
        in case main_r s1 of
             None \<Rightarrow> Inl Undefined_behaviour
           | Some r \<Rightarrow> Inr (say [label @ '' -> r = '' @ dec_int r @ newline] s1))"

definition prompt :: string where "prompt = ''Enter a character before exit ...'' @ newline"

definition basic_main :: "'w basic_sdk \<Rightarrow> 'w \<Rightarrow> trap + (int \<times> 'w basic_app)" where
  "basic_main K w =
     (case initialize_enclave K (basic_start w) of (st, s0) \<Rightarrow>
        if st < 0 then Inr (- 1, say [prompt] s0)
        else
          then_do (call_and_print K add ''ADD'' 3 5 s0) (\<lambda>s1.
          then_do (call_and_print K subtract ''SUBTRACT'' 3 5 s1) (\<lambda>s2.
          then_do (call_and_print K multiply ''MULTIPLY'' 3 5 s2) (\<lambda>s3.
          then_do (call_and_print K divide ''DIVIDE'' 3 5 s3) (\<lambda>s4.
          let s5 = s4\<lparr>basic_world := destroy_enclave K (global_eid s4) (basic_world s4)\<rparr>
          in Inr (0, say [''Info: Basic Enclave successfully returned.'' @ newline, prompt] s5))))))"

section \<open>Results\<close>

text \<open>
  The bridge's contract: a failing call writes nothing; a successful one stores the ecall's result,
  computed on copies of both integers, through the result pointer.
\<close>

definition arith_bridge_law :: "'w basic_sdk \<Rightarrow> bool" where
  "arith_bridge_law K \<longleftrightarrow> (\<forall>e f a b w st out w'. arith_bridge K e f a b w = ((st, out), w') \<longrightarrow>
     (st \<noteq> SGX_SUCCESS \<longrightarrow> out = None) \<and>
     (st = SGX_SUCCESS \<longrightarrow> (\<forall>v. f (Some a) (Some b) = Inr v \<longrightarrow> out = Some v)))"

lemma arith_bridge_lawD:
  assumes "arith_bridge_law K" "arith_bridge K e f a b w = ((st, out), w')"
  shows "st \<noteq> SGX_SUCCESS \<Longrightarrow> out = None" "st = SGX_SUCCESS \<Longrightarrow> f (Some a) (Some b) = Inr v \<Longrightarrow> out = Some v"
  using assms unfolding arith_bridge_law_def by blast+

text \<open>One call of the demo: \<open>r\<close> is the ecall's result if the call succeeds and stays as it was if not.\<close>

lemma call_and_print_eq:
  assumes "arith_bridge_law K" "f (Some a) (Some b) = Inr v"
    and run: "arith_bridge K (global_eid s) f a b (basic_world s) = ((st, out), w)"
  shows "call_and_print K f label a b s =
    (case (if st = SGX_SUCCESS then Some v else main_r s) of
       None \<Rightarrow> Inl Undefined_behaviour
     | Some r \<Rightarrow> Inr (say [label @ '' -> r = '' @ dec_int r @ newline] (s\<lparr>basic_world := w, main_r := Some r\<rparr>)))"
proof -
  have "out = (if st = SGX_SUCCESS then Some v else None)"
    using arith_bridge_lawD [OF assms(1) run] assms(2) by (cases "st = SGX_SUCCESS") simp_all
  then show ?thesis
    by (cases "st = SGX_SUCCESS"; cases "main_r s") (simp_all add: call_and_print_def run Let_def)
qed

lemma demo_results:
  "add (Some 3) (Some 5) = Inr 8" "subtract (Some 3) (Some 5) = Inr (- 2)"
  "multiply (Some 3) (Some 5) = Inr 15" "divide (Some 3) (Some 5) = Inr 0"
  by (simp_all add: add_def subtract_def multiply_def divide_def deref2_def c_div_def in_int32_def
      signed_divide_int_def)

lemma demo_decimals: "dec_int 8 = ''8''" "dec_int (- 2) = ''-2''" "dec_int 15 = ''15''" "dec_int 0 = ''0''"
  by code_simp+

section \<open>Properties\<close>

text \<open>
  C38: Integer division in the enclave: with both arguments present it returns exactly the quotient
  truncated towards zero, and is undefined for a zero divisor and for the smallest integer divided
  by -1; the guard only catches a null pointer.
\<close>

theorem divide_defined_iff:
  assumes "in_int32 a" "in_int32 b"
  shows "(divide (Some a) (Some b) = Inr q \<longleftrightarrow> b \<noteq> 0 \<and> \<not> (a = - (2 ^ 31) \<and> b = - 1) \<and> q = a sdiv b) \<and>
    divide (Some a) (Some 0) = Inl Undefined_behaviour \<and> divide (Some a) None = Inr (- 1)"
  using sdiv_in_int32 [OF assms] by (auto simp: divide_def deref2_def c_div_def c_int_Inr_iff)

theorem divide_defined_iff_witness:
  "divide (Some (- 7)) (Some 2) = Inr (- 3) \<and> divide (Some 7) (Some 0) = Inl Undefined_behaviour"
  using divide_defined_iff [of "- 7" 2 "- 3"] divide_defined_iff [of 7 0]
  by (simp add: in_int32_def signed_divide_int_def)

lemma basic_main_created:
  assumes "create_enclave K w = ((SGX_SUCCESS, eid), w1)"
  shows "initialize_enclave K (basic_start w) =
    (0, (basic_start w)\<lparr>basic_world := w1, global_eid := (case eid of None \<Rightarrow> 0 | Some e \<Rightarrow> e)\<rparr>)"
  using assms by (cases eid) (simp_all add: initialize_enclave_def basic_start_def Let_def)

text \<open>Which of a sequence of calls succeed, each in the world the one before it left.\<close>

fun calls_ok :: "'w basic_sdk \<Rightarrow> u64 \<Rightarrow> (int option \<Rightarrow> int option \<Rightarrow> trap + int) list \<Rightarrow> 'w \<Rightarrow> bool list" where
  "calls_ok K e [] w = []"
| "calls_ok K e (f # fs) w =
     (case arith_bridge K e f 3 5 w of ((st, _), w') \<Rightarrow> (st = SGX_SUCCESS) # calls_ok K e fs w')"

definition demo_ok :: "'w basic_sdk \<Rightarrow> u64 option \<Rightarrow> 'w \<Rightarrow> bool list" where
  "demo_ok K eid w = calls_ok K (case eid of None \<Rightarrow> 0 | Some e \<Rightarrow> e) [add, subtract, multiply, divide] w"

text \<open>The result of the latest call up to the \<open>i\<close>th that succeeded.\<close>

definition latest :: "bool list \<Rightarrow> int list \<Rightarrow> nat \<Rightarrow> int" where
  "latest oks results i = results ! last (filter (\<lambda>j. oks ! j) [0..<Suc i])"

definition result_line :: "string \<Rightarrow> int \<Rightarrow> string" where
  "result_line label r = label @ '' -> r = '' @ dec_int r @ newline"

lemma latest_simps:
  "a \<Longrightarrow> latest (a # oks) (x # xs) 0 = x"
  "latest [True, b, c, d] [x, y, z, u] (Suc 0) = (if b then y else x)"
  "latest [True, b, c, d] [x, y, z, u] 2 = (if c then z else if b then y else x)"
  "latest [True, b, c, d] [x, y, z, u] 3 = (if d then u else if c then z else if b then y else x)"
  by (simp_all add: latest_def upt_rec numeral_eq_Suc)

text \<open>The table names every status it lists once.\<close>

lemma error_lines_entry:
  "distinct (map err es) \<Longrightarrow> e \<in> set es \<Longrightarrow> error_lines es (err e) =
     Some ((case sug e of None \<Rightarrow> [] | Some s \<Rightarrow> [''Info: '' @ s @ newline]) @ [''Error: '' @ msg e @ newline])"
  by (induction es) (auto simp: image_iff)

lemma error_lines_none: "st \<notin> err ` set es \<Longrightarrow> error_lines es st = None"
  by (induction es) auto

lemma sgx_errlist_distinct: "distinct (map err sgx_errlist)"
  by (simp add: sgx_errlist_def)

lemma print_error_message_entry:
  "e \<in> set sgx_errlist \<Longrightarrow> print_error_message hx (err e) =
     (case sug e of None \<Rightarrow> [] | Some s \<Rightarrow> [''Info: '' @ s @ newline]) @ [''Error: '' @ msg e @ newline]"
  by (simp add: print_error_message_def error_lines_entry [OF sgx_errlist_distinct])

lemma print_error_message_code:
  "st \<notin> err ` set sgx_errlist \<Longrightarrow> print_error_message hx st = [''Error code is 0x'' @ hx st @
     ''. Please refer to the \"Intel SGX SDK Developer Reference\" for more details.'' @ newline]"
  by (simp add: print_error_message_def error_lines_none)

lemma basic_main_failed:
  assumes "create_enclave K w = ((st, eid), w1)" "st \<noteq> SGX_SUCCESS"
  shows "\<exists>s. basic_main K w = Inr (- 1, s) \<and> stdout_lines s = print_error_message (hex_code K) st @ [prompt]"
  using assms by (simp add: basic_main_def initialize_enclave_def basic_start_def say_def Let_def)

lemma basic_main_ran:
  assumes law: "arith_bridge_law K" and run: "create_enclave K w = ((SGX_SUCCESS, eid), w1)"
  shows "if \<not> demo_ok K eid w1 ! 0 then basic_main K w = Inl Undefined_behaviour
    else \<exists>s. basic_main K w = Inr (0, s) \<and> stdout_lines s =
      map2 result_line [''ADD'', ''SUBTRACT'', ''MULTIPLY'', ''DIVIDE'']
        (map (latest (demo_ok K eid w1) [8, - 2, 15, 0]) [0, 1, 2, 3]) @
      [''Info: Basic Enclave successfully returned.'' @ newline, prompt]"
proof -
  let ?e = "case eid of None \<Rightarrow> 0 | Some e \<Rightarrow> e"
  obtain st1 o1 v1 where 1: "arith_bridge K ?e add 3 5 w1 = ((st1, o1), v1)" by (metis prod.exhaust)
  obtain st2 o2 v2 where 2: "arith_bridge K ?e subtract 3 5 v1 = ((st2, o2), v2)" by (metis prod.exhaust)
  obtain st3 o3 v3 where 3: "arith_bridge K ?e multiply 3 5 v2 = ((st3, o3), v3)" by (metis prod.exhaust)
  obtain st4 o4 v4 where 4: "arith_bridge K ?e divide 3 5 v3 = ((st4, o4), v4)" by (metis prod.exhaust)
  have oks: "demo_ok K eid w1 = [st1 = SGX_SUCCESS, st2 = SGX_SUCCESS, st3 = SGX_SUCCESS, st4 = SGX_SUCCESS]"
    by (simp add: demo_ok_def 1 2 3 4)
  note call = call_and_print_eq [OF law, unfolded result_line_def [symmetric]]
  note calls = call [where f = add, OF demo_results(1)] call [where f = subtract, OF demo_results(2)]
    call [where f = multiply, OF demo_results(3)] call [where f = divide, OF demo_results(4)]
  show ?thesis
    unfolding basic_main_def basic_main_created [OF run] oks
    by (cases "st1 = SGX_SUCCESS"; cases "st2 = SGX_SUCCESS"; cases "st3 = SGX_SUCCESS"; cases "st4 = SGX_SUCCESS")
      (simp_all add: calls 1 2 3 4 latest_simps say_def basic_start_def Let_def)
qed

text \<open>
  C39: The demo's run, whatever fails.  When the enclave cannot be created, \<open>main\<close> prints the entry
  of the error table for the status, with its suggestion if it has one, or the code of a status the
  table does not list, and exits with -1.  Otherwise no later failure is noticed: each of the four
  lines shows the result (8, -2, 15, 0) of the latest call that succeeded, whatever its label says,
  and the exit code is 0; if already the first call fails, the uninitialised \<open>r\<close> is printed, which is
  undefined behaviour.
\<close>

theorem basic_main_output:
  assumes "arith_bridge_law K" and "create_enclave K w = ((st, eid), w1)"
  shows "if st \<noteq> SGX_SUCCESS then
      \<exists>s ls. basic_main K w = Inr (- 1, s) \<and> stdout_lines s = ls @ [prompt] \<and>
        (\<forall>e \<in> set sgx_errlist. err e = st \<longrightarrow>
           ls = (case sug e of None \<Rightarrow> [] | Some i \<Rightarrow> [''Info: '' @ i @ newline]) @ [''Error: '' @ msg e @ newline]) \<and>
        (st \<notin> err ` set sgx_errlist \<longrightarrow> ls = [''Error code is 0x'' @ hex_code K st @
           ''. Please refer to the \"Intel SGX SDK Developer Reference\" for more details.'' @ newline])
    else if \<not> demo_ok K eid w1 ! 0 then basic_main K w = Inl Undefined_behaviour
    else \<exists>s. basic_main K w = Inr (0, s) \<and> stdout_lines s =
      map2 result_line [''ADD'', ''SUBTRACT'', ''MULTIPLY'', ''DIVIDE'']
        (map (latest (demo_ok K eid w1) [8, - 2, 15, 0]) [0, 1, 2, 3]) @
      [''Info: Basic Enclave successfully returned.'' @ newline, prompt]"
proof (cases "st = SGX_SUCCESS")
  case True
  then have created: "\<not> st \<noteq> SGX_SUCCESS" by simp
  show ?thesis
    unfolding if_not_P [OF created] by (rule basic_main_ran [OF assms(1) assms(2) [unfolded True]])
next
  case False
  from basic_main_failed [OF assms(2) this] obtain s where
    s: "basic_main K w = Inr (- 1, s)" "stdout_lines s = print_error_message (hex_code K) st @ [prompt]" by blast
  show ?thesis unfolding if_P [OF False]
    by (rule exI [of _ s], rule exI [of _ "print_error_message (hex_code K) st"])
      (use s print_error_message_entry [of _ "hex_code K"] print_error_message_code [of st "hex_code K"] in blast)
qed

text \<open>A bridge that creates the enclave or reports a missing device, and whose third call is refused.\<close>

definition example_sdk :: "bool \<Rightarrow> nat basic_sdk" where
  "example_sdk device = \<lparr>create_enclave = (\<lambda>w. if device then ((SGX_SUCCESS, Some 2), w) else ((SGX_ERROR_NO_DEVICE, None), w)),
     arith_bridge = (\<lambda>e f a b w.
       if w = 2 then ((SGX_ERROR_OUT_OF_MEMORY, None), w + 1)
       else ((SGX_SUCCESS, case f (Some a) (Some b) of Inl _ \<Rightarrow> None | Inr v \<Rightarrow> Some v), w + 1)),
     destroy_enclave = (\<lambda>e w. w), hex_code = (\<lambda>_. ''1'')\<rparr>"

lemma example_arith_bridge_law: "arith_bridge_law (example_sdk device)"
  by (simp add: arith_bridge_law_def example_sdk_def)

lemma example_demo_ok:
  "demo_ok (example_sdk device) (Some 2) 0 = [True, True, False, True]"
  "demo_ok (example_sdk device) (Some 2) 2 = [False, True, True, True]"
  by (simp_all add: demo_ok_def example_sdk_def)

theorem basic_main_output_witness:
  "(\<exists>s. basic_main (example_sdk True) 0 = Inr (0, s) \<and> stdout_lines s =
      [''ADD -> r = 8'' @ newline, ''SUBTRACT -> r = -2'' @ newline, ''MULTIPLY -> r = -2'' @ newline,
       ''DIVIDE -> r = 0'' @ newline, ''Info: Basic Enclave successfully returned.'' @ newline, prompt]) \<and>
   basic_main (example_sdk True) 2 = Inl Undefined_behaviour \<and>
   (\<exists>s. basic_main (example_sdk False) 0 = Inr (- 1, s) \<and> stdout_lines s =
      [''Info: Please make sure SGX module is enabled in the BIOS, and install SGX driver afterwards.'' @ newline,
       ''Error: Invalid SGX device.'' @ newline, prompt])"
proof (intro conjI)
  have create: "create_enclave (example_sdk True) w = ((SGX_SUCCESS, Some 2), w)"
    "create_enclave (example_sdk False) w = ((SGX_ERROR_NO_DEVICE, None), w)" for w
    by (simp_all add: example_sdk_def)
  note main = basic_main_output [OF example_arith_bridge_law]
  show "\<exists>s. basic_main (example_sdk True) 0 = Inr (0, s) \<and> stdout_lines s =
      [''ADD -> r = 8'' @ newline, ''SUBTRACT -> r = -2'' @ newline, ''MULTIPLY -> r = -2'' @ newline,
       ''DIVIDE -> r = 0'' @ newline, ''Info: Basic Enclave successfully returned.'' @ newline, prompt]"
    using main [OF create(1), of 0]
    by (simp add: example_demo_ok latest_simps result_line_def demo_decimals)
  show "basic_main (example_sdk True) 2 = Inl Undefined_behaviour"
    using main [OF create(1), of 2] by (simp add: example_demo_ok)
  show "\<exists>s. basic_main (example_sdk False) 0 = Inr (- 1, s) \<and> stdout_lines s =
      [''Info: Please make sure SGX module is enabled in the BIOS, and install SGX driver afterwards.'' @ newline,
       ''Error: Invalid SGX device.'' @ newline, prompt]"
    using main [OF create(2), of 0] by (auto simp: sgx_errlist_def)
qed

text \<open>
  The enclave's \<open>printf\<close> never overruns its buffer: it hands out at most \<open>BUFSIZ - 1\<close>
  characters, cut at the first terminator, and returns their number plus one.
\<close>

lemma enclave_printf_spec:
  assumes "0 < bufsiz"
  shows "fst (enclave_printf bufsiz text) = takeWhile (\<lambda>b. b \<noteq> 0) (take (bufsiz - 1) text) \<and>
    length (fst (enclave_printf bufsiz text)) < bufsiz \<and>
    snd (enclave_printf bufsiz text) = int (length (fst (enclave_printf bufsiz text))) + 1"
proof -
  let ?t = "take (bufsiz - 1) text" and ?z = "replicate (bufsiz - length (take (bufsiz - 1) text)) 0 :: byte list"
  have cut: "takeWhile (\<lambda>b. b \<noteq> 0) (xs @ replicate n 0) = takeWhile (\<lambda>b. b \<noteq> 0) xs" for xs :: "byte list" and n
    by (induction xs) (cases n, simp_all)
  have "take (bufsiz - 1) (?t @ ?z) = ?t @ replicate (bufsiz - 1 - length ?t) 0"
    by (simp add: min_def)
  then have "c_strnlen (?t @ ?z) (bufsiz - 1) = length (takeWhile (\<lambda>b. b \<noteq> 0) ?t)"
    by (simp add: c_strnlen_def cut del: take_append)
  moreover have "length (takeWhile (\<lambda>b. b \<noteq> 0) ?t) < bufsiz"
    using length_takeWhile_le [of "\<lambda>b. b \<noteq> 0" ?t] assms by (auto simp: min_def split: if_splits)
  ultimately show ?thesis by (simp add: enclave_printf_def Let_def cut)
qed

text \<open>What reaches the application's terminal through the ocall.\<close>

lemma enclave_printf_shown:
  assumes "0 < bufsiz" "0 \<notin> set text" "length text < bufsiz"
  shows "stdout_lines (ocall_print_string (fst (enclave_printf bufsiz text)) s) =
    stdout_lines s @ [map (\<lambda>b. char_of (unat b)) text]"
proof -
  have "takeWhile (\<lambda>b. b \<noteq> 0) text = text" using assms(2) by (auto simp: takeWhile_eq_all_conv)
  moreover have "take (bufsiz - 1) text = text" using assms(3) by simp
  ultimately have "fst (enclave_printf bufsiz text) = text" using enclave_printf_spec [OF assms(1), of "text"] by simp
  then show ?thesis by (simp add: ocall_print_string_def say_def)
qed

end
