(* ===== verification/Edger8r.thy ===== *)
theory Edger8r
  imports C_Int
begin

text \<open>
  The enclave side of the interface demos: \<open>Enclave/Edger8rSyntax/Arrays.cpp\<close>, \<open>Pointers.cpp\<close>,
  \<open>Functions.cpp\<close> and \<open>Types.cpp\<close>.  An ecall takes the block its pointer argument points to and returns the block it leaves; the answers
  of \<open>sgx_is_outside_enclave\<close> and \<open>sgx_is_within_enclave\<close> are arguments.
\<close>

section \<open>Arrays\<close>

text \<open>
  The loop all five array ecalls share, \<open>k\<close> rounds from index \<open>i\<close>: assert the expected
  element, then store \<open>n - 1 - i\<close>.
\<close>

fun array_loop :: "nat \<Rightarrow> nat \<Rightarrow> (nat \<Rightarrow> int) \<Rightarrow> nat \<Rightarrow> int list \<Rightarrow> trap + int list" where
  "array_loop 0 i expected n arr = Inr arr"
| "array_loop (Suc k) i expected n arr =
     (if i < length arr then
        then_do (must Assertion_failed (arr ! i = expected i)) (\<lambda>_.
        array_loop k (Suc i) expected n (arr[i := int n - 1 - int i]))
      else Inl Undefined_behaviour)"

definition ecall_array_user_check :: "bool \<Rightarrow> int list \<Rightarrow> trap + int list" where
  "ecall_array_user_check outside arr = then_do (must Aborted outside) (\<lambda>_. array_loop 4 0 int 4 arr)"

definition ecall_array_in :: "int list \<Rightarrow> trap + int list" where
  "ecall_array_in arr = array_loop 4 0 int 4 arr"

definition ecall_array_out :: "int list \<Rightarrow> trap + int list" where
  "ecall_array_out arr = array_loop 4 0 (\<lambda>_. 0) 4 arr"

definition ecall_array_in_out :: "int list \<Rightarrow> trap + int list" where
  "ecall_array_in_out arr = array_loop 4 0 int 4 arr"

text \<open>\<open>array_t\<close> is \<open>int[10]\<close>.\<close>

definition ecall_array_isary :: "bool \<Rightarrow> int list \<Rightarrow> trap + int list" where
  "ecall_array_isary outside arr = then_do (must Aborted outside) (\<lambda>_. array_loop 10 0 int 10 arr)"

lemma array_loop_result:
  assumes "i + k \<le> length arr" "\<And>j. i \<le> j \<Longrightarrow> j < i + k \<Longrightarrow> arr ! j = expected j"
  shows "array_loop k i expected n arr =
    Inr (take i arr @ map (\<lambda>j. int n - 1 - int j) [i..<i + k] @ drop (i + k) arr)"
  using assms
proof (induction k arbitrary: i arr)
  case (Suc k)
  let ?arr = "arr[i := int n - 1 - int i]"
  have "array_loop k (Suc i) expected n ?arr =
      Inr (take (Suc i) ?arr @ map (\<lambda>j. int n - 1 - int j) [Suc i..<Suc i + k] @ drop (Suc i + k) ?arr)"
    by (rule Suc.IH) (use Suc.prems in auto)
  moreover have "take (Suc i) ?arr = take i arr @ [int n - 1 - int i]"
    using Suc.prems(1) by (simp add: take_Suc_conv_app_nth)
  moreover have "[i..<i + Suc k] = i # [Suc i..<Suc i + k]" by (simp add: upt_rec)
  ultimately show ?case using Suc.prems by simp
qed simp

text \<open>Started at the front on an array of exactly \<open>n\<close> elements, the loop reverses the counting.\<close>

lemma array_loop_reverses:
  assumes "length arr = n" "\<And>j. j < n \<Longrightarrow> arr ! j = expected j"
  shows "array_loop n 0 expected n arr = Inr (map (\<lambda>j. int n - 1 - int j) [0..<n])"
  using array_loop_result [of 0 n arr expected n] assms by simp

section \<open>The checksum\<close>

text \<open>One \<open>int16_t\<close> at \<open>ptr\<close>, little-endian.\<close>

definition int16_le :: "byte \<Rightarrow> byte \<Rightarrow> int" where
  "int16_le b0 b1 = sint (word_cat b1 b0 :: u16)"

text \<open>
  The two loops: \<open>buf\<close> is the memory from \<open>ptr\<close> on.  A read past it and a sum that leaves
  \<open>int32_t\<close> are undefined.
\<close>

fun checksum_loop :: "byte list \<Rightarrow> nat \<Rightarrow> int \<Rightarrow> trap + int" where
  "checksum_loop buf 0 acc = Inr acc"
| "checksum_loop buf (Suc 0) acc = (case buf of b # _ \<Rightarrow> c_int (acc + sint b) | [] \<Rightarrow> Inl Undefined_behaviour)"
| "checksum_loop buf (Suc (Suc count)) acc =
     (case buf of
        b0 # b1 # rest \<Rightarrow> then_do (c_int (acc + int16_le b0 b1)) (checksum_loop rest count)
      | _ \<Rightarrow> Inl Undefined_behaviour)"

definition checksum_internal :: "byte list \<Rightarrow> nat \<Rightarrow> trap + int" where
  "checksum_internal buf count = then_do (checksum_loop buf count 0) (\<lambda>acc. Inr (NOT acc))"

text \<open>Reference: the sum of the 16-bit halves, an odd last byte sign-extended.\<close>

fun halves_sum :: "byte list \<Rightarrow> int" where
  "halves_sum [] = 0"
| "halves_sum [b] = sint b"
| "halves_sum (b0 # b1 # rest) = int16_le b0 b1 + halves_sum rest"

lemma int16_le_bounds: "- 32768 \<le> int16_le b0 b1 \<and> int16_le b0 b1 < 32768"
  using sint_ge [of "word_cat b1 b0 :: u16"] sint_lt [of "word_cat b1 b0 :: u16"] by (simp add: int16_le_def)

lemma sint_byte_bounds: "- 32768 \<le> sint (b :: byte) \<and> sint b < 32768"
  using sint_ge [of b] sint_lt [of b] by simp

lemma halves_sum_bounds: "\<bar>halves_sum bs\<bar> \<le> 32768 * int (length bs)"
proof (induction bs rule: halves_sum.induct)
  case (2 b)
  then show ?case using sint_byte_bounds [of b] by auto
next
  case (3 b0 b1 rest)
  then show ?case using int16_le_bounds [of b0 b1] by auto
qed simp

lemma checksum_loop_result:
  assumes "count \<le> length buf" "\<bar>acc\<bar> + 32768 * int count < 2 ^ 31"
  shows "checksum_loop buf count acc = Inr (acc + halves_sum (take count buf))"
  using assms
proof (induction buf count acc rule: checksum_loop.induct)
  case (2 buf acc)
  then obtain b bs where "buf = b # bs" by (cases buf) auto
  moreover have "in_int32 (acc + sint b)" using 2(2) sint_byte_bounds [of b] by (auto simp: in_int32_def)
  ultimately show ?case by simp
next
  case (3 buf count acc)
  then obtain b0 b1 rest where buf: "buf = b0 # b1 # rest" by (cases buf; cases "tl buf") auto
  let ?s = "acc + int16_le b0 b1"
  have s: "in_int32 ?s" "\<bar>?s\<bar> + 32768 * int count < 2 ^ 31"
    using 3(3) int16_le_bounds [of b0 b1] by (auto simp: in_int32_def)
  have "checksum_loop rest count ?s = Inr (?s + halves_sum (take count rest))"
    by (rule "3.IH" [OF buf refl _ s(2)]) (use 3(2) buf in simp)
  then show ?case using buf s(1) by simp
qed simp

section \<open>Pointers\<close>

definition lit_SGX_SUCCESS :: "byte list" where
  "lit_SGX_SUCCESS = [83, 71, 88, 95, 83, 85, 67, 67, 69, 83, 83, 0]"

definition lit_digits :: "byte list" where
  "lit_digits = [48, 57, 56, 55, 54, 53, 52, 51, 50, 49]"

text \<open>
  The first \<open>len\<close> bytes are copied into \<open>tmp\<close>, summed, and the literal written over the
  block.  Returned are \<open>len\<close>, the checksum that is printed, and the block.
\<close>

definition ecall_pointer_user_check :: "bool \<Rightarrow> byte list \<Rightarrow> nat \<Rightarrow> trap + (nat \<times> int \<times> byte list)" where
  "ecall_pointer_user_check outside val sz =
     then_do (must Aborted outside) (\<lambda>_.
     let len = (if 100 < sz then 100 else sz) in
     then_do (must Undefined_behaviour (len \<le> length val)) (\<lambda>_.
     let tmp = take len val @ replicate (100 - len) 0 in
     then_do (checksum_internal tmp len) (\<lambda>acc.
     then_do (overwrite (take (if 12 < len then 12 else len) lit_SGX_SUCCESS) val) (\<lambda>val'.
     Inr (len, acc, val')))))"

definition ecall_pointer_in :: "bool \<Rightarrow> int list \<Rightarrow> trap + int list" where
  "ecall_pointer_in within val = then_do (must Aborted within) (\<lambda>_.
     if val = [] then Inl Undefined_behaviour else Inr (val[0 := 1234]))"

definition ecall_pointer_out :: "bool \<Rightarrow> int list \<Rightarrow> trap + int list" where
  "ecall_pointer_out within val = then_do (must Aborted within) (\<lambda>_.
     if val = [] then Inl Undefined_behaviour
     else then_do (must Assertion_failed (val ! 0 = 0)) (\<lambda>_. Inr (val[0 := 1234])))"

definition ecall_pointer_in_out :: "bool \<Rightarrow> int list \<Rightarrow> trap + int list" where
  "ecall_pointer_in_out within val = then_do (must Aborted within) (\<lambda>_.
     if val = [] then Inl Undefined_behaviour else Inr (val[0 := 1234]))"

definition ecall_pointer_string :: "byte list \<Rightarrow> trap + byte list" where
  "ecall_pointer_string str = then_do (c_strlen str) (c_strncpy str lit_digits)"

text \<open>The copy fills a new block of \<open>strlen (str)\<close> bytes, which is then freed.\<close>

definition ecall_pointer_string_const :: "byte list \<Rightarrow> trap + byte list" where
  "ecall_pointer_string_const str =
     then_do (c_strlen str) (\<lambda>n.
     then_do (c_strncpy (replicate n 0) (takeWhile (\<lambda>b. b \<noteq> 0) str) n) (\<lambda>_.
     Inr str))"

definition ecall_pointer_size :: "byte list \<Rightarrow> nat \<Rightarrow> trap + byte list" where
  "ecall_pointer_size ptr len = c_strncpy ptr lit_digits len"

text \<open>The loop from \<open>i\<close> down to 0, \<open>i + 1\<close> rounds; \<open>(int)count\<close> keeps 32 bits.\<close>

fun count_loop :: "nat \<Rightarrow> int \<Rightarrow> int list \<Rightarrow> trap + int list" where
  "count_loop 0 cnt arr = Inr arr"
| "count_loop (Suc i) cnt arr =
     (if i < length arr then count_loop i cnt (arr[i := cnt - 1 - int i]) else Inl Undefined_behaviour)"

definition ecall_pointer_count :: "int list \<Rightarrow> u64 \<Rightarrow> trap + int list" where
  "ecall_pointer_count arr count =
     (let cnt = sint (ucast count :: u32) in
      if cnt = - (2 ^ 31) then Inl Undefined_behaviour else count_loop (nat cnt) cnt arr)"

definition ecall_pointer_isptr_readonly :: "byte list \<Rightarrow> nat \<Rightarrow> trap + byte list" where
  "ecall_pointer_isptr_readonly buf len = c_strncpy buf lit_digits len"

lemma count_loop_result:
  "i \<le> length arr \<Longrightarrow> count_loop i cnt arr = Inr (map (\<lambda>j. cnt - 1 - int j) [0..<i] @ drop i arr)"
  by (induction i arbitrary: arr) (auto simp: Cons_nth_drop_Suc [symmetric])

section \<open>Types, functions and the trusted libraries\<close>

definition ecall_type_char :: "int \<Rightarrow> trap + unit" where
  "ecall_type_char val = must Assertion_failed (val = 0x12)"

definition ecall_type_int :: "int \<Rightarrow> trap + unit" where
  "ecall_type_int val = must Assertion_failed (val = 1234)"

text \<open>
  A floating-point type as C provides it: its operations, its \<open>epsilon\<close>, and the source's
  constants as the compiler rounds them: \<open>ULP\<close>, the literal the application passes
  (\<open>fp_argument\<close>) and the literal the ecall compares with (\<open>fp_expected\<close>).
\<close>

record 'f fp =
  fp_add :: "'f \<Rightarrow> 'f \<Rightarrow> 'f"
  fp_sub :: "'f \<Rightarrow> 'f \<Rightarrow> 'f"
  fp_mul :: "'f \<Rightarrow> 'f \<Rightarrow> 'f"
  fp_abs :: "'f \<Rightarrow> 'f"
  fp_le :: "'f \<Rightarrow> 'f \<Rightarrow> bool"
  fp_zero :: 'f
  fp_epsilon :: 'f
  fp_ULP :: 'f
  fp_argument :: 'f
  fp_expected :: 'f

text \<open>Both overloads of \<open>almost_equal\<close>.\<close>

definition almost_equal :: "'f fp \<Rightarrow> 'f \<Rightarrow> 'f \<Rightarrow> bool" where
  "almost_equal F x y =
     fp_le F (fp_abs F (fp_sub F x y)) (fp_mul F (fp_mul F (fp_epsilon F) (fp_abs F (fp_add F x y))) (fp_ULP F))"

definition ecall_type_float :: "'f fp \<Rightarrow> 'f \<Rightarrow> trap + unit" where
  "ecall_type_float F val = must Assertion_failed (almost_equal F val (fp_expected F))"

definition ecall_type_double :: "'d fp \<Rightarrow> 'd \<Rightarrow> trap + unit" where
  "ecall_type_double F val = must Assertion_failed (almost_equal F val (fp_expected F))"

text \<open>
  IEEE arithmetic on the finite constants: a difference of equal numbers is zero, and zero is at
  most any scaled absolute value; the two files write the same literal, which rounds to the same number.
\<close>

definition fp_law :: "'f fp \<Rightarrow> bool" where
  "fp_law F \<longleftrightarrow> fp_argument F = fp_expected F \<and> fp_sub F (fp_expected F) (fp_expected F) = fp_zero F \<and> fp_abs F (fp_zero F) = fp_zero F \<and>
     (\<forall>x. fp_le F (fp_zero F) (fp_mul F (fp_mul F (fp_epsilon F) (fp_abs F x)) (fp_ULP F)))"

lemma almost_equal_refl: "fp_law F \<Longrightarrow> almost_equal F (fp_argument F) (fp_expected F)"
  by (simp add: fp_law_def almost_equal_def)

definition ecall_type_size_t :: "u64 \<Rightarrow> trap + unit" where
  "ecall_type_size_t val = must Assertion_failed (val = 12345678)"

definition ecall_type_wchar_t :: "int \<Rightarrow> trap + unit" where
  "ecall_type_wchar_t val = must Assertion_failed (val = 0x1234)"

record struct_foo_t =
  struct_foo_0 :: u32
  struct_foo_1 :: u64

definition ecall_type_struct :: "struct_foo_t \<Rightarrow> trap + unit" where
  "ecall_type_struct val =
     then_do (must Assertion_failed (struct_foo_0 val = 1234)) (\<lambda>_.
     must Assertion_failed (struct_foo_1 val = 5678))"

text \<open>
  The union is one 64-bit word; its 32-bit members \<open>union_foo_0\<close> and \<open>union_foo_1\<close> are both the
  low half.
\<close>

definition set_low32 :: "u32 \<Rightarrow> u64 \<Rightarrow> u64" where
  "set_low32 v u = (u AND NOT (mask 32)) OR ucast v"

datatype enum_foo_t = ENUM_FOO_0 | ENUM_FOO_1

definition ecall_type_enum_union :: "bool \<Rightarrow> enum_foo_t \<Rightarrow> u64 \<Rightarrow> trap + u64" where
  "ecall_type_enum_union outside val1 val2 =
     then_do (must Aborted outside) (\<lambda>_.
     let val2 = set_low32 1 val2; val2 = set_low32 2 val2 in
     then_do (must Assertion_failed (val1 = ENUM_FOO_0)) (\<lambda>_. Inr val2))"

lemma low32_set: "ucast (set_low32 v u) = v" "drop_bit 32 (set_low32 v u) = drop_bit 32 u"
proof -
  have v: "\<not> bit v (32 + n)" for n using bit_imp_le_length [of v "32 + n"] by auto
  have u: "\<not> bit u (32 + n)" if "\<not> n < 32" for n using bit_imp_le_length [of u "32 + n"] that by auto
  show "ucast (set_low32 v u) = v" "drop_bit 32 (set_low32 v u) = drop_bit 32 u"
    using u by (auto simp: set_low32_def bit_simps v intro!: bit_word_eqI) blast
qed

definition ecall_function_private :: int where
  "ecall_function_private = 1"

text \<open>\<open>ocall_status\<close> is what the bridge of \<open>ocall_function_allow\<close> returns.\<close>

definition ecall_function_public :: "bool \<Rightarrow> trap + unit" where
  "ecall_function_public ocall_succeeds = must Aborted ocall_succeeds"

section \<open>Properties\<close>

lemma checksum_result:
  assumes "count \<le> length buf" "count \<le> 100"
  shows "checksum_internal buf count = Inr (NOT (halves_sum (take count buf)))"
  using assms checksum_loop_result [of count buf 0] by (simp add: checksum_internal_def)

lemma lit_length: "length lit_SGX_SUCCESS = 12"
  by (simp add: lit_SGX_SUCCESS_def)

lemma user_check_result:
  assumes "min 100 sz \<le> length val"
  shows "ecall_pointer_user_check True val sz =
    Inr (min 100 sz, NOT (halves_sum (take (min 100 sz) val)),
         take (min 12 (min 100 sz)) lit_SGX_SUCCESS @ drop (min 12 (min 100 sz)) val)"
proof -
  have len: "(if 100 < sz then 100 else sz) = min 100 sz" by simp
  let ?n = "min 100 sz"
  have "checksum_internal (take ?n val @ replicate (100 - ?n) 0) ?n = Inr (NOT (halves_sum (take ?n val)))"
    using checksum_result [of ?n "take ?n val @ replicate (100 - ?n) 0"] assms by simp
  moreover have "overwrite (take (if 12 < ?n then 12 else ?n) lit_SGX_SUCCESS) val =
      Inr (take (min 12 ?n) lit_SGX_SUCCESS @ drop (min 12 ?n) val)"
    using assms by (auto simp: overwrite_def lit_length min_def)
  ultimately show ?thesis
    using assms unfolding ecall_pointer_user_check_def len Let_def by simp
qed

text \<open>
  C37: The \<open>user_check\<close> ecall is safe for every size: on a block outside the enclave with the
  claimed bytes it works on at most the first 100, its checksum (the complement of the sum of the
  signed 16-bit halves) never overflows, and it writes at most 12 bytes of the message back; a block
  that is not outside is refused.
\<close>

theorem ecall_pointer_user_check_spec:
  assumes "min 100 sz \<le> length val"
  shows "ecall_pointer_user_check outside val sz =
    (if outside then Inr (min 100 sz, - halves_sum (take (min 100 sz) val) - 1,
         take (min 12 (min 100 sz)) lit_SGX_SUCCESS @ drop (min 12 (min 100 sz)) val)
     else Inl Aborted)"
  using user_check_result [OF assms] by (auto simp: ecall_pointer_user_check_def not_int_def)

theorem ecall_pointer_user_check_spec_witness:
  "ecall_pointer_user_check True [1, 2, 255] 3 = Inr (3, - 513, [83, 71, 88])"
proof -
  have "halves_sum [1, 2, 255] = 512" by code_simp
  then show ?thesis using ecall_pointer_user_check_spec [of 3 "[1, 2, 255]" True] by (simp add: lit_SGX_SUCCESS_def)
qed

lemma sint_narrow:
  assumes "unat count < 2 ^ 31"
  shows "sint (ucast (count :: u64) :: u32) = int (unat count)"
proof -
  have "unat count < 2 ^ 32" using assms by simp
  then have "unat (ucast count :: u32) = unat count"
    by (simp add: unsigned_ucast_eq take_bit_nat_eq_self)
  then have u: "uint (ucast count :: u32) = int (unat count)" by (simp only: uint_nat)
  have "signed_take_bit 31 (int k) = int k" if "k < 2 ^ 31" for k :: nat
    using that by (intro signed_take_bit_int_eq_self) simp_all
  from this [OF assms] have "signed_take_bit 31 (int (unat count)) = int (unat count)" .
  then show ?thesis by (simp only: sint_uint u) simp
qed

text \<open>\<open>ecall_pointer_count\<close> counts down over the array for every count up to its length, and a
  count whose low 32 bits are a negative \<open>int\<close> other than the smallest writes nothing at all.
\<close>

lemma ecall_pointer_count_spec:
  assumes "unat count < 2 ^ 31 \<and> unat count \<le> length arr \<or>
    - (2 ^ 31) < sint (ucast count :: u32) \<and> sint (ucast count :: u32) < 0"
  shows "ecall_pointer_count arr count =
    Inr (if unat count < 2 ^ 31 then map (\<lambda>j. int (unat count) - 1 - int j) [0..<unat count] @ drop (unat count) arr
         else arr)"
proof (cases "unat count < 2 ^ 31")
  case True
  have n: "sint (ucast count :: u32) = int (unat count)" by (rule sint_narrow [OF True])
  then have "unat count \<le> length arr" using assms by auto
  moreover have "int k \<noteq> - (2 ^ 31)" for k :: nat by simp
  ultimately show ?thesis
    using True count_loop_result [of "unat count" arr "int (unat count)"]
    unfolding ecall_pointer_count_def n Let_def by (simp only: if_False if_True nat_int)
next
  case False
  then show ?thesis using assms by (auto simp: ecall_pointer_count_def Let_def)
qed

end
