(* ===== verification/Edger8r_App.thy ===== *)
theory Edger8r_App
  imports Edger8r Sgx_Api
begin

text \<open>
  The application side of the interface demos: \<open>App/Edger8rSyntax/*.cpp\<close> and
  \<open>ocall_pointer_attr\<close> of the enclave's \<open>Pointers.cpp\<close>.  The bridges between the two sides are
  generated from the \<open>.edl\<close> files and are a parameter; \<open>edge_law\<close> is what those files document
  of the attributes \<open>[in]\<close>, \<open>[out]\<close>, \<open>[in, out]\<close> and \<open>[user_check]\<close>.
\<close>

section \<open>Bridges\<close>

text \<open>
  A bridge takes the number of elements the attributes name, the function on the other side and the
  caller's block, and returns a status and the caller's block afterwards.
\<close>

record 'a edge =
  call_in :: "nat \<Rightarrow> ('a list \<Rightarrow> trap + 'a list) \<Rightarrow> 'a list \<Rightarrow> trap + (sgx_status_t \<times> 'a list)"
  call_out :: "nat \<Rightarrow> ('a list \<Rightarrow> trap + 'a list) \<Rightarrow> 'a list \<Rightarrow> trap + (sgx_status_t \<times> 'a list)"
  call_in_out :: "nat \<Rightarrow> ('a list \<Rightarrow> trap + 'a list) \<Rightarrow> 'a list \<Rightarrow> trap + (sgx_status_t \<times> 'a list)"
  call_user_check :: "('a list \<Rightarrow> trap + 'a list) \<Rightarrow> 'a list \<Rightarrow> trap + (sgx_status_t \<times> 'a list)"
  copies_within :: bool
  caller_outside :: bool

text \<open>Bridges without pointers, and that of the private ecall, told whether an ocall allows it.  A
  function that aborts ends the process or makes the call fail.\<close>

record edge_calls =
  call_void :: "(trap + unit) \<Rightarrow> trap + sgx_status_t"
  call_private :: "bool \<Rightarrow> int \<Rightarrow> sgx_status_t \<times> int option"

text \<open>How a call that does not trap may end: with \<open>ok_mem\<close>, or failing and without effect.\<close>

definition returns :: "bool \<Rightarrow> (trap + (sgx_status_t \<times> 'm)) \<Rightarrow> 'm \<Rightarrow> 'm \<Rightarrow> bool" where
  "returns reliable r old_mem ok_mem \<longleftrightarrow> r = Inr (SGX_SUCCESS, ok_mem) \<or>
     (\<not> reliable \<and> (\<exists>st. st \<noteq> SGX_SUCCESS \<and> r = Inr (st, old_mem)))"

definition edge_law :: "bool \<Rightarrow> 'a \<Rightarrow> 'a edge \<Rightarrow> bool" where
  "edge_law reliable zero B \<longleftrightarrow> copies_within B \<and> caller_outside B \<and>
     (\<forall>n f m m'. n \<le> length m \<longrightarrow>
        (f (take n m) = Inr m' \<longrightarrow> returns reliable (call_in B n f m) m m) \<and>
        (f (replicate n zero) = Inr m' \<longrightarrow> returns reliable (call_out B n f m) m (m' @ drop n m)) \<and>
        (f (take n m) = Inr m' \<longrightarrow> returns reliable (call_in_out B n f m) m (m' @ drop n m)) \<and>
        (f m = Inr m' \<longrightarrow> returns reliable (call_user_check B f m) m m'))"

definition edge_calls_law :: "bool \<Rightarrow> edge_calls \<Rightarrow> bool" where
  "edge_calls_law reliable V \<longleftrightarrow>
     (\<exists>st. call_void V (Inr ()) = Inr st \<and> (reliable \<longrightarrow> st = SGX_SUCCESS)) \<and>
     (call_void V (Inl Aborted) = Inl Aborted \<or> (\<exists>st. st \<noteq> SGX_SUCCESS \<and> call_void V (Inl Aborted) = Inr st)) \<and>
     (reliable \<longrightarrow> (\<forall>r. fst (call_private V True r) = SGX_SUCCESS)) \<and>
     (\<forall>r. fst (call_private V True r) = SGX_SUCCESS \<longrightarrow> snd (call_private V True r) = Some r) \<and>
     (\<forall>r. call_private V False r = (SGX_ERROR_ECALL_NOT_ALLOWED, None))"

text \<open>\<open>ret = ...; if (ret != SGX_SUCCESS) abort();\<close>\<close>

definition call_ok :: "trap + (sgx_status_t \<times> 'm) \<Rightarrow> trap + 'm" where
  "call_ok r = then_do r (\<lambda>(st, m). then_do (must Aborted (st = SGX_SUCCESS)) (\<lambda>_. Inr m))"

definition void_ok :: "trap + sgx_status_t \<Rightarrow> trap + unit" where
  "void_ok r = then_do r (\<lambda>st. must Aborted (st = SGX_SUCCESS))"

definition affirm :: "bool \<Rightarrow> trap + unit" where
  "affirm c = must Assertion_failed c"

section \<open>Arrays\<close>

definition counts_down :: "nat \<Rightarrow> int list \<Rightarrow> bool" where
  "counts_down n arr = list_all (\<lambda>i. arr ! i = int n - 1 - int i) [0..<n]"

definition counts_up :: "nat \<Rightarrow> int list \<Rightarrow> bool" where
  "counts_up n arr = list_all (\<lambda>i. arr ! i = int i) [0..<n]"

definition edger8r_array_attributes :: "int edge \<Rightarrow> trap + unit" where
  "edger8r_array_attributes B =
     then_do (call_ok (call_user_check B (ecall_array_user_check (caller_outside B)) [0, 1, 2, 3])) (\<lambda>arr1.
     then_do (affirm (counts_down 4 arr1)) (\<lambda>_.
     then_do (call_ok (call_in B 4 ecall_array_in [0, 1, 2, 3])) (\<lambda>arr2.
     then_do (affirm (counts_up 4 arr2)) (\<lambda>_.
     then_do (call_ok (call_out B 4 ecall_array_out [0, 1, 2, 3])) (\<lambda>arr3.
     then_do (affirm (counts_down 4 arr3)) (\<lambda>_.
     then_do (call_ok (call_in_out B 4 ecall_array_in_out [0, 1, 2, 3])) (\<lambda>arr4.
     then_do (affirm (counts_down 4 arr4)) (\<lambda>_.
     then_do (call_ok (call_user_check B (ecall_array_isary (caller_outside B)) [0, 1, 2, 3, 4, 5, 6, 7, 8, 9])) (\<lambda>arr5.
     affirm (counts_down 10 arr5))))))))))"

section \<open>Pointers\<close>

text \<open>The ocalls; the pointer the enclave passes is not null.\<close>

definition ocall_pointer_user_check :: "int list \<Rightarrow> trap + int list" where
  "ocall_pointer_user_check val = Inr val"

definition ocall_pointer_in :: "int list \<Rightarrow> trap + int list" where
  "ocall_pointer_in val = (if val = [] then Inl Undefined_behaviour else Inr (val[0 := 1234]))"

definition ocall_pointer_out :: "int list \<Rightarrow> trap + int list" where
  "ocall_pointer_out val = (if val = [] then Inl Undefined_behaviour else Inr (val[0 := 1234]))"

definition ocall_pointer_in_out :: "int list \<Rightarrow> trap + int list" where
  "ocall_pointer_in_out val = (if val = [] then Inl Undefined_behaviour else Inr (val[0 := 1234]))"

text \<open>The enclave's test of the ocall attributes.\<close>

definition ocall_pointer_attr :: "int edge \<Rightarrow> trap + unit" where
  "ocall_pointer_attr B =
     then_do (call_ok (call_user_check B ocall_pointer_user_check [0])) (\<lambda>_.
     then_do (call_ok (call_in B 1 ocall_pointer_in [0])) (\<lambda>val.
     then_do (affirm (val ! 0 = 0)) (\<lambda>_.
     then_do (call_ok (call_out B 1 ocall_pointer_out [0])) (\<lambda>val.
     then_do (affirm (val ! 0 = 1234)) (\<lambda>_.
     then_do (call_ok (call_in_out B 1 ocall_pointer_in_out [0])) (\<lambda>val.
     affirm (val ! 0 = 1234)))))))"

text \<open>\<open>strlen (s) == 10 && memcmp (s, lit, strlen (s)) == 0\<close>.\<close>

definition ten_chars :: "byte list \<Rightarrow> byte list \<Rightarrow> bool" where
  "ten_chars lit s \<longleftrightarrow> c_strlen s = Inr 10 \<and> take 10 s = lit"

definition digits_up :: "byte list" where
  "digits_up = [49, 50, 51, 52, 53, 54, 55, 56, 57, 48]"

definition edger8r_pointer_attributes :: "int edge \<Rightarrow> byte edge \<Rightarrow> int edge \<Rightarrow> edge_calls \<Rightarrow> trap + unit" where
  "edger8r_pointer_attributes B C E V =
     then_do (call_ok (call_user_check C
        (\<lambda>val. then_do (ecall_pointer_user_check (caller_outside C) val 128) (\<lambda>(_, _, val'). Inr val')) (replicate 128 0xe))) (\<lambda>c.
     then_do (affirm (takeWhile (\<lambda>b. b \<noteq> 0) c = take 11 lit_SGX_SUCCESS)) (\<lambda>_.
     then_do (call_ok (call_in B 1 (ecall_pointer_in (copies_within B)) [0])) (\<lambda>val.
     then_do (affirm (val ! 0 = 0)) (\<lambda>_.
     then_do (call_ok (call_out B 1 (ecall_pointer_out (copies_within B)) [0])) (\<lambda>val.
     then_do (affirm (val ! 0 = 1234)) (\<lambda>_.
     then_do (call_ok (call_in_out B 1 (ecall_pointer_in_out (copies_within B)) [0])) (\<lambda>val.
     then_do (affirm (val ! 0 = 1234)) (\<lambda>_.
     then_do (void_ok (call_void V (ocall_pointer_attr E))) (\<lambda>_.
     then_do (call_ok (call_in_out C 11 ecall_pointer_string (digits_up @ [0]))) (\<lambda>str1.
     then_do (affirm (ten_chars lit_digits str1)) (\<lambda>_.
     then_do (call_ok (call_in C 11 ecall_pointer_string_const (digits_up @ [0]))) (\<lambda>str2.
     then_do (affirm (ten_chars digits_up str2)) (\<lambda>_.
     then_do (call_ok (call_in_out C 10 (\<lambda>p. ecall_pointer_size p 10) (digits_up @ [0]))) (\<lambda>str3.
     then_do (affirm (ten_chars lit_digits str3)) (\<lambda>_.
     then_do (call_ok (call_in C 10 (\<lambda>p. ecall_pointer_isptr_readonly p 10) (digits_up @ [0]))) (\<lambda>str4.
     then_do (affirm (ten_chars digits_up str4)) (\<lambda>_.
     then_do (call_ok (call_in_out B 10 (\<lambda>a. ecall_pointer_count a 10) [0, 1, 2, 3, 4, 5, 6, 7, 8, 9])) (\<lambda>arr.
     affirm (counts_down 10 arr)))))))))))))))))))"

section \<open>Types and functions\<close>

definition edger8r_type_attributes :: "'f fp \<Rightarrow> 'd fp \<Rightarrow> u64 edge \<Rightarrow> edge_calls \<Rightarrow> trap + unit" where
  "edger8r_type_attributes F D W V =
     then_do (void_ok (call_void V (ecall_type_char 0x12))) (\<lambda>_.
     then_do (void_ok (call_void V (ecall_type_int 1234))) (\<lambda>_.
     then_do (void_ok (call_void V (ecall_type_float F (fp_argument F)))) (\<lambda>_.
     then_do (void_ok (call_void V (ecall_type_double D (fp_argument D)))) (\<lambda>_.
     then_do (void_ok (call_void V (ecall_type_size_t 12345678))) (\<lambda>_.
     then_do (void_ok (call_void V (ecall_type_wchar_t 0x1234))) (\<lambda>_.
     then_do (void_ok (call_void V (ecall_type_struct \<lparr>struct_foo_0 = 1234, struct_foo_1 = 5678\<rparr>))) (\<lambda>_.
     then_do (call_ok (call_user_check W
        (\<lambda>u. then_do (ecall_type_enum_union (caller_outside W) ENUM_FOO_0 (u ! 0)) (\<lambda>v. Inr [v])) [0])) (\<lambda>val.
     affirm ((ucast (val ! 0) :: u32) = 2)))))))))"

definition ocall_function_allow :: "edge_calls \<Rightarrow> trap + unit" where
  "ocall_function_allow V =
     (case call_private V True ecall_function_private of (ret, out) \<Rightarrow>
        let runned = (case out of None \<Rightarrow> 0 | Some r \<Rightarrow> r)
        in must Aborted (\<not> (ret \<noteq> SGX_SUCCESS \<or> runned \<noteq> 1)))"

definition edger8r_function_attributes :: "edge_calls \<Rightarrow> trap + unit" where
  "edger8r_function_attributes V =
     then_do (void_ok (call_void V
        (then_do (call_void V (ocall_function_allow V)) (\<lambda>st. ecall_function_public (st = SGX_SUCCESS))))) (\<lambda>_.
     (case call_private V False ecall_function_private of (ret, out) \<Rightarrow>
        let runned = (case out of None \<Rightarrow> 0 | Some r \<Rightarrow> r)
        in must Aborted (\<not> (ret \<noteq> SGX_ERROR_ECALL_NOT_ALLOWED \<or> runned \<noteq> 0))))"

section \<open>The demos pass\<close>

text \<open>A demo passes when it ends normally, or aborts because a bridge failed.\<close>

definition passes :: "bool \<Rightarrow> trap + 'a \<Rightarrow> bool" where
  "passes reliable r \<longleftrightarrow> (\<exists>a. r = Inr a) \<or> (\<not> reliable \<and> r = Inl Aborted)"

lemma passes_Inr [simp]: "passes reliable (Inr a)"
  by (simp add: passes_def)

lemma passes_call:
  assumes "returns reliable r m m'" "passes reliable (k m')"
  shows "passes reliable (then_do (call_ok r) k)"
  using assms by (auto simp: returns_def call_ok_def passes_def)

lemma passes_affirm: "c \<Longrightarrow> passes reliable (k ()) \<Longrightarrow> passes reliable (then_do (affirm c) k)"
  by (simp add: affirm_def)

lemma passes_affirm_last: "c \<Longrightarrow> passes reliable (affirm c)"
  by (simp add: affirm_def)

lemma passes_void:
  assumes "edge_calls_law reliable V" "passes reliable r" "passes reliable (k ())"
  shows "passes reliable (then_do (void_ok (call_void V (r :: trap + unit))) k)"
  using assms by (auto simp: passes_def edge_calls_law_def void_ok_def must_def)

lemma edge_law_calls:
  assumes "edge_law reliable zero B"
  shows "n \<le> length m \<Longrightarrow> f (take n m) = Inr m' \<Longrightarrow> returns reliable (call_in B n f m) m m"
    "n \<le> length m \<Longrightarrow> f (replicate n zero) = Inr m' \<Longrightarrow> returns reliable (call_out B n f m) m (m' @ drop n m)"
    "n \<le> length m \<Longrightarrow> f (take n m) = Inr m' \<Longrightarrow> returns reliable (call_in_out B n f m) m (m' @ drop n m)"
    "f m = Inr m' \<Longrightarrow> returns reliable (call_user_check B f m) m m'"
  using assms unfolding edge_law_def by (blast, blast, blast, metis le0)

lemma array_ecalls:
  "ecall_array_user_check True [0, 1, 2, 3] = Inr [3, 2, 1, 0]" "ecall_array_in [0, 1, 2, 3] = Inr [3, 2, 1, 0]"
  "ecall_array_out (replicate 4 0) = Inr [3, 2, 1, 0]" "ecall_array_in_out [0, 1, 2, 3] = Inr [3, 2, 1, 0]"
  "ecall_array_isary True [0, 1, 2, 3, 4, 5, 6, 7, 8, 9] = Inr [9, 8, 7, 6, 5, 4, 3, 2, 1, 0]"
  "counts_down 4 [3, 2, 1, 0]" "counts_up 4 [0, 1, 2, 3]" "counts_down 10 [9, 8, 7, 6, 5, 4, 3, 2, 1, 0]"
  by code_simp+

lemma array_demo:
  assumes law: "edge_law reliable 0 B"
  shows "passes reliable (edger8r_array_attributes B)"
proof -
  note call = edge_law_calls [OF law]
  have out: "caller_outside B" using law by (simp add: edge_law_def)
  have 1: "returns reliable (call_user_check B (ecall_array_user_check (caller_outside B)) [0, 1, 2, 3]) [0, 1, 2, 3] [3, 2, 1, 0]"
    by (rule call(4)) (simp add: out array_ecalls)
  have 2: "returns reliable (call_in B 4 ecall_array_in [0, 1, 2, 3]) [0, 1, 2, 3] [0, 1, 2, 3]"
    by (rule call(1)) (simp_all add: array_ecalls)
  have "returns reliable (call_out B 4 ecall_array_out [0, 1, 2, 3]) [0, 1, 2, 3] ([3, 2, 1, 0] @ drop 4 [0, 1, 2, 3])"
    by (rule call(2)) (simp, rule array_ecalls)
  then have 3: "returns reliable (call_out B 4 ecall_array_out [0, 1, 2, 3]) [0, 1, 2, 3] [3, 2, 1, 0]" by simp
  have "returns reliable (call_in_out B 4 ecall_array_in_out [0, 1, 2, 3]) [0, 1, 2, 3] ([3, 2, 1, 0] @ drop 4 [0, 1, 2, 3])"
    by (rule call(3)) (simp_all add: array_ecalls)
  then have 4: "returns reliable (call_in_out B 4 ecall_array_in_out [0, 1, 2, 3]) [0, 1, 2, 3] [3, 2, 1, 0]" by simp
  have 5: "returns reliable (call_user_check B (ecall_array_isary (caller_outside B)) [0, 1, 2, 3, 4, 5, 6, 7, 8, 9])
      [0, 1, 2, 3, 4, 5, 6, 7, 8, 9] [9, 8, 7, 6, 5, 4, 3, 2, 1, 0]"
    by (rule call(4)) (simp add: out array_ecalls)
  show ?thesis
    unfolding edger8r_array_attributes_def
    by (intro passes_call [OF 1] passes_call [OF 2] passes_call [OF 3] passes_call [OF 4] passes_call [OF 5]
        passes_affirm passes_affirm_last array_ecalls)
qed

lemma single_ocalls:
  "ocall_pointer_user_check [0] = Inr [0]" "ocall_pointer_in [0] = Inr [1234]"
  "ocall_pointer_out [0] = Inr [1234]" "ocall_pointer_in_out [0] = Inr [1234]"
  by (simp_all add: ocall_pointer_user_check_def ocall_pointer_in_def ocall_pointer_out_def ocall_pointer_in_out_def)

lemma pointer_attr_demo:
  assumes law: "edge_law reliable 0 E"
  shows "passes reliable (ocall_pointer_attr E)"
proof -
  note call = edge_law_calls [OF law]
  have 1: "returns reliable (call_user_check E ocall_pointer_user_check [0]) [0] [0]"
    by (rule call(4)) (rule single_ocalls)
  have 2: "returns reliable (call_in E 1 ocall_pointer_in [0]) [0] [0]"
    by (rule call(1)) (simp_all add: single_ocalls)
  have 3: "returns reliable (call_out E 1 ocall_pointer_out [0]) [0] [1234]"
    using call(2) [of 1 "[0]" ocall_pointer_out "[1234]"] by (simp add: single_ocalls)
  have 4: "returns reliable (call_in_out E 1 ocall_pointer_in_out [0]) [0] [1234]"
    using call(3) [of 1 "[0]" ocall_pointer_in_out "[1234]"] by (simp add: single_ocalls)
  show ?thesis
    unfolding ocall_pointer_attr_def
    by (intro passes_call [OF 1] passes_call [OF 2] passes_call [OF 3] passes_call [OF 4]
        passes_affirm passes_affirm_last; simp)
qed

definition checked_text :: "byte list" where
  "checked_text = lit_SGX_SUCCESS @ replicate 116 0xe"

lemma pointer_ecalls:
  "ecall_pointer_in True [0] = Inr [1234]" "ecall_pointer_out True [0] = Inr [1234]"
  "ecall_pointer_in_out True [0] = Inr [1234]"
  "ecall_pointer_string (digits_up @ [0]) = Inr (lit_digits @ [0])"
  "ecall_pointer_string_const (digits_up @ [0]) = Inr (digits_up @ [0])"
  "ecall_pointer_size digits_up 10 = Inr lit_digits" "ecall_pointer_isptr_readonly digits_up 10 = Inr lit_digits"
  "ecall_pointer_count [0, 1, 2, 3, 4, 5, 6, 7, 8, 9] 10 = Inr [9, 8, 7, 6, 5, 4, 3, 2, 1, 0]"
  "ten_chars lit_digits (lit_digits @ [0])" "ten_chars digits_up (digits_up @ [0])"
  "takeWhile (\<lambda>b. b \<noteq> 0) checked_text = take 11 lit_SGX_SUCCESS"
  by code_simp+

lemma checked_user_check:
  "then_do (ecall_pointer_user_check True (replicate 128 0xe) 128) (\<lambda>(_, _, val'). Inr val') = Inr checked_text"
  using user_check_result [of 128 "replicate 128 0xe"]
  by (simp add: checked_text_def lit_SGX_SUCCESS_def)

lemma pointer_demo:
  assumes ints: "edge_law reliable 0 B" and bytes: "edge_law reliable 0 C" and ocalls: "edge_law reliable 0 E"
    and void: "edge_calls_law reliable V"
  shows "passes reliable (edger8r_pointer_attributes B C E V)"
proof -
  note ci = edge_law_calls [OF ints] and cb = edge_law_calls [OF bytes]
  have out: "caller_outside C" and within: "copies_within B" using ints bytes by (simp_all add: edge_law_def)
  have len: "length digits_up = 10" "length lit_digits = 10" by (simp_all add: digits_up_def lit_digits_def)
  let ?arr = "[0, 1, 2, 3, 4, 5, 6, 7, 8, 9] :: int list"
  have 1: "returns reliable (call_user_check C (\<lambda>val. then_do (ecall_pointer_user_check (caller_outside C) val 128)
      (\<lambda>(_, _, val'). Inr val')) (replicate 128 0xe)) (replicate 128 0xe) checked_text"
    by (rule cb(4)) (simp only: out checked_user_check)
  have 2: "returns reliable (call_in B 1 (ecall_pointer_in (copies_within B)) [0]) [0] [0]"
    by (rule ci(1)) (simp_all add: within pointer_ecalls)
  have 3: "returns reliable (call_out B 1 (ecall_pointer_out (copies_within B)) [0]) [0] [1234]"
    using ci(2) [of 1 "[0]" "ecall_pointer_out (copies_within B)" "[1234]"] by (simp add: within pointer_ecalls)
  have 4: "returns reliable (call_in_out B 1 (ecall_pointer_in_out (copies_within B)) [0]) [0] [1234]"
    using ci(3) [of 1 "[0]" "ecall_pointer_in_out (copies_within B)" "[1234]"] by (simp add: within pointer_ecalls)
  have 5: "returns reliable (call_in_out C 11 ecall_pointer_string (digits_up @ [0])) (digits_up @ [0]) (lit_digits @ [0])"
    using cb(3) [of 11 "digits_up @ [0]" ecall_pointer_string "lit_digits @ [0]"] by (simp add: len pointer_ecalls)
  have 6: "returns reliable (call_in C 11 ecall_pointer_string_const (digits_up @ [0])) (digits_up @ [0]) (digits_up @ [0])"
    by (rule cb(1)) (simp_all add: len pointer_ecalls)
  have 7: "returns reliable (call_in_out C 10 (\<lambda>p. ecall_pointer_size p 10) (digits_up @ [0])) (digits_up @ [0]) (lit_digits @ [0])"
    using cb(3) [of 10 "digits_up @ [0]" "\<lambda>p. ecall_pointer_size p 10" lit_digits] by (simp add: len pointer_ecalls)
  have 8: "returns reliable (call_in C 10 (\<lambda>p. ecall_pointer_isptr_readonly p 10) (digits_up @ [0])) (digits_up @ [0]) (digits_up @ [0])"
    by (rule cb(1)) (simp_all add: len pointer_ecalls)
  have 9: "returns reliable (call_in_out B 10 (\<lambda>a. ecall_pointer_count a 10) ?arr) ?arr [9, 8, 7, 6, 5, 4, 3, 2, 1, 0]"
    using ci(3) [of 10 ?arr "\<lambda>a. ecall_pointer_count a 10" "[9, 8, 7, 6, 5, 4, 3, 2, 1, 0]"] by (simp add: pointer_ecalls)
  have v: "[0 :: int] ! 0 = 0" "[1234 :: int] ! 0 = 1234" by simp_all
  show ?thesis
    unfolding edger8r_pointer_attributes_def
    by (intro passes_call [OF 1] passes_call [OF 2] passes_call [OF 3] passes_call [OF 4] passes_call [OF 5]
        passes_call [OF 6] passes_call [OF 7] passes_call [OF 8] passes_call [OF 9]
        passes_void [OF void pointer_attr_demo [OF ocalls]] passes_affirm passes_affirm_last
        pointer_ecalls array_ecalls v)
qed

lemma type_demo:
  assumes law: "edge_law reliable 0 W" and void: "edge_calls_law reliable V" and fp: "fp_law F" "fp_law D"
  shows "passes reliable (edger8r_type_attributes F D W V)"
proof -
  have out: "caller_outside W" using law by (simp add: edge_law_def)
  have union: "returns reliable (call_user_check W
      (\<lambda>u. then_do (ecall_type_enum_union (caller_outside W) ENUM_FOO_0 (u ! 0)) (\<lambda>v. Inr [v])) [0]) [0]
      [set_low32 2 (set_low32 1 0)]"
    by (rule edge_law_calls(4) [OF law]) (simp add: out ecall_type_enum_union_def Let_def)
  show ?thesis
    unfolding edger8r_type_attributes_def
    by (intro passes_void [OF void] passes_call [OF union] passes_affirm_last)
      (simp_all add: low32_set ecall_type_char_def ecall_type_int_def ecall_type_float_def ecall_type_double_def
        almost_equal_refl fp ecall_type_size_t_def
        ecall_type_wchar_t_def ecall_type_struct_def)
qed

lemma function_demo:
  assumes void: "edge_calls_law reliable V"
  shows "passes reliable (edger8r_function_attributes V)"
proof -
  obtain st out where priv: "call_private V True ecall_function_private = (st, out)" by (metis prod.exhaust)
  have "passes reliable (ocall_function_allow V)"
    using void priv by (auto simp: ocall_function_allow_def edge_calls_law_def passes_def must_def ecall_function_private_def)
      (metis fst_conv snd_conv option.simps(5))+
  then have "passes reliable (then_do (call_void V (ocall_function_allow V)) (\<lambda>st. ecall_function_public (st = SGX_SUCCESS)))"
    using void by (auto simp: passes_def edge_calls_law_def ecall_function_public_def must_def)
  then show ?thesis
    unfolding edger8r_function_attributes_def
    by (rule passes_void [OF void]) (use void in \<open>simp add: edge_calls_law_def\<close>)
qed


definition example_edge :: "'a \<Rightarrow> 'a edge" where
  "example_edge zero =
     \<lparr>call_in = (\<lambda>n f m. then_do (f (take n m)) (\<lambda>_. Inr (SGX_SUCCESS, m))),
      call_out = (\<lambda>n f m. then_do (f (replicate n zero)) (\<lambda>m'. Inr (SGX_SUCCESS, m' @ drop n m))),
      call_in_out = (\<lambda>n f m. then_do (f (take n m)) (\<lambda>m'. Inr (SGX_SUCCESS, m' @ drop n m))),
      call_user_check = (\<lambda>f m. then_do (f m) (\<lambda>m'. Inr (SGX_SUCCESS, m'))),
      copies_within = True, caller_outside = True\<rparr>"

definition example_edge_calls :: edge_calls where
  "example_edge_calls =
     \<lparr>call_void = (\<lambda>f. then_do f (\<lambda>_. Inr SGX_SUCCESS)),
      call_private = (\<lambda>allowed r. if allowed then (SGX_SUCCESS, Some r) else (SGX_ERROR_ECALL_NOT_ALLOWED, None))\<rparr>"

lemma example_edge_law: "edge_law True zero (example_edge zero)"
  by (simp add: edge_law_def example_edge_def returns_def)

lemma example_edge_calls_law: "edge_calls_law True example_edge_calls"
  by (simp add: edge_calls_law_def example_edge_calls_def)

text \<open>Integers in units of the expected constant stand in for floating-point numbers.\<close>

definition example_fp :: "int fp" where
  "example_fp = \<lparr>fp_add = (+), fp_sub = (-), fp_mul = (*), fp_abs = abs, fp_le = (\<le>), fp_zero = 0, fp_epsilon = 0,
     fp_ULP = 2, fp_argument = 1, fp_expected = 1\<rparr>"

lemma example_fp_law: "fp_law example_fp"
  by (simp add: fp_law_def example_fp_def)


end
