(* ===== verification/Trusted_Library.thy ===== *)
theory Trusted_Library
  imports Edger8r_App
begin

text \<open>
  The demos of the trusted C and C++ libraries: \<open>TrustedLibrary/Libc.cpp\<close> and
  \<open>TrustedLibrary/Libcxx.cpp\<close> of the enclave and of the application.  A C++ exception is a value of
  a sum: a computation returns, traps, or ends with a thrown exception, which \<open>try_catch\<close> gives to
  the first handler that matches; one that leaves an ecall ends the enclave.  \<open>std::map\<close> is a
  partial map, the enclave's heap a partial map from addresses to blocks.
\<close>

section \<open>The C++ containers\<close>

text \<open>\<open>std::map<char, int>\<close>: \<open>insert\<close> keeps an existing entry, indexing adds a missing one as 0.\<close>

definition map_insert :: "char \<Rightarrow> int \<Rightarrow> (char \<rightharpoonup> int) \<Rightarrow> (char \<rightharpoonup> int)" where
  "map_insert k v m = (case m k of None \<Rightarrow> m(k \<mapsto> v) | Some _ \<Rightarrow> m)"

definition map_index :: "char \<Rightarrow> (char \<rightharpoonup> int) \<Rightarrow> int \<times> (char \<rightharpoonup> int)" where
  "map_index k m = (case m k of None \<Rightarrow> (0, m(k \<mapsto> 0)) | Some v \<Rightarrow> (v, m))"

definition assert_entry :: "char \<Rightarrow> int \<Rightarrow> (char \<rightharpoonup> int) \<Rightarrow> trap + (char \<rightharpoonup> int)" where
  "assert_entry k v m = (case map_index k m of (x, m') \<Rightarrow> then_do (must Assertion_failed (x = v)) (\<lambda>_. Inr m'))"

definition ecall_map :: "trap + (char \<rightharpoonup> int)" where
  "ecall_map =
     (let m = map_insert CHR ''d'' 4 (map_insert CHR ''c'' 3 (map_insert CHR ''b'' 2 (map_insert CHR ''a'' 1 Map.empty)))
      in then_do (assert_entry CHR ''a'' 1 m) (\<lambda>m.
         then_do (assert_entry CHR ''b'' 2 m) (\<lambda>m.
         then_do (assert_entry CHR ''c'' 3 m) (\<lambda>m.
         then_do (assert_entry CHR ''d'' 4 m) (\<lambda>m.
         then_do (must Assertion_failed (m CHR ''e'' = None)) (\<lambda>_. Inr m))))))"

lemma ecall_map_passes: "ecall_map = Inr [CHR ''a'' \<mapsto> 1, CHR ''b'' \<mapsto> 2, CHR ''c'' \<mapsto> 3, CHR ''d'' \<mapsto> 4]"
  by (simp add: ecall_map_def map_insert_def assert_entry_def map_index_def Let_def)

section \<open>C++ exceptions\<close>

text \<open>
  The objects thrown here: \<open>std::runtime_error\<close> with its message, and the \<open>std::bad_alloc\<close> that
  constructing one throws when the message cannot be allocated.
\<close>

datatype cxx_exception = Runtime_error string | Bad_alloc

datatype cxx_stop = Thrown cxx_exception | Trapped trap

definition cxx_do :: "cxx_stop + 'a \<Rightarrow> ('a \<Rightarrow> cxx_stop + 'b) \<Rightarrow> cxx_stop + 'b" where
  "cxx_do m k = (case m of Inl e \<Rightarrow> Inl e | Inr a \<Rightarrow> k a)"

definition cxx_throw :: "cxx_exception \<Rightarrow> cxx_stop + 'a" where
  "cxx_throw e = Inl (Thrown e)"

definition cxx_assert :: "bool \<Rightarrow> cxx_stop + unit" where
  "cxx_assert c = (if c then Inr () else Inl (Trapped Assertion_failed))"

type_synonym 'a handler = "(cxx_exception \<Rightarrow> bool) \<times> (cxx_exception \<Rightarrow> cxx_stop + 'a)"

fun find_handler :: "'a handler list \<Rightarrow> cxx_exception \<Rightarrow> (cxx_exception \<Rightarrow> cxx_stop + 'a) option" where
  "find_handler [] e = None"
| "find_handler ((catches, h) # hs) e = (if catches e then Some h else find_handler hs e)"

definition try_catch :: "cxx_stop + 'a \<Rightarrow> 'a handler list \<Rightarrow> cxx_stop + 'a" where
  "try_catch body hs =
     (case body of
        Inl (Thrown e) \<Rightarrow> (case find_handler hs e of None \<Rightarrow> Inl (Thrown e) | Some h \<Rightarrow> h e)
      | _ \<Rightarrow> body)"

fun is_runtime_error :: "cxx_exception \<Rightarrow> bool" where
  "is_runtime_error (Runtime_error _) = True"
| "is_runtime_error Bad_alloc = False"

text \<open>\<open>new_error room s\<close> is \<open>std::runtime_error (s)\<close>; \<open>room\<close> says whether its allocation succeeds.\<close>

definition new_error :: "bool \<Rightarrow> string \<Rightarrow> cxx_stop + cxx_exception" where
  "new_error room s = (if room then Inr (Runtime_error s) else cxx_throw Bad_alloc)"

text \<open>\<open>what\<close> is a C string: it ends at the first zero byte.\<close>

fun what :: "cxx_exception \<Rightarrow> string" where
  "what (Runtime_error s) = takeWhile (\<lambda>c. c \<noteq> CHR 0x00) s"
| "what Bad_alloc = ''std::bad_alloc''"

definition exception_handlers :: "bool \<Rightarrow> string \<Rightarrow> unit handler list" where
  "exception_handlers clone_ok foo =
     [(is_runtime_error, \<lambda>e.
         cxx_do (cxx_assert (foo = what e)) (\<lambda>_.
         cxx_do (new_error clone_ok []) (\<lambda>clone.
         let clone = e in cxx_assert (foo = what clone)))),
      (\<lambda>_. True, \<lambda>_. cxx_assert False)]"

text \<open>An exception that leaves the ecall ends the enclave.\<close>

definition leave_ecall :: "cxx_stop + 'a \<Rightarrow> trap + 'a" where
  "leave_ecall r =
     (case r of Inl (Thrown _) \<Rightarrow> Inl Aborted | Inl (Trapped t) \<Rightarrow> Inl t | Inr a \<Rightarrow> Inr a)"

text \<open>The body for any message; the ecall throws \<open>''foo''\<close>.\<close>

definition exception_demo :: "bool \<Rightarrow> bool \<Rightarrow> string \<Rightarrow> trap + unit" where
  "exception_demo error_ok clone_ok foo =
     leave_ecall (try_catch (cxx_do (new_error error_ok foo) cxx_throw) (exception_handlers clone_ok foo))"

definition ecall_exception :: "bool \<Rightarrow> bool \<Rightarrow> trap + unit" where
  "ecall_exception error_ok clone_ok = exception_demo error_ok clone_ok ''foo''"

lemma takeWhile_eq_whole: "foo = takeWhile P foo \<longleftrightarrow> (\<forall>c \<in> set foo. P c)"
  by (metis takeWhile_eq_all_conv)

text \<open>
  Every way the demo can end: the handler for \<open>runtime_error\<close> is the one that runs unless the
  exception itself could not be built; a message with a zero byte would fail the assertion.
\<close>

lemma exception_demo_outcome:
  "exception_demo error_ok clone_ok foo =
     (if \<not> error_ok \<or> CHR 0x00 \<in> set foo then Inl Assertion_failed
      else if \<not> clone_ok then Inl Aborted else Inr ())"
proof (cases "foo = takeWhile (\<lambda>c. c \<noteq> CHR 0x00) foo")
  case True
  then have "CHR 0x00 \<notin> set foo" using takeWhile_eq_whole [of foo "\<lambda>c. c \<noteq> CHR 0x00"] by auto
  with True show ?thesis
    by (simp add: exception_demo_def leave_ecall_def try_catch_def cxx_do_def new_error_def cxx_throw_def
        exception_handlers_def cxx_assert_def)
next
  case False
  then have "CHR 0x00 \<in> set foo" using takeWhile_eq_whole [of foo "\<lambda>c. c \<noteq> CHR 0x00"] by auto
  with False show ?thesis
    by (simp add: exception_demo_def leave_ecall_def try_catch_def cxx_do_def new_error_def cxx_throw_def
        exception_handlers_def cxx_assert_def)
qed

section \<open>The C library\<close>

type_synonym heap = "nat \<rightharpoonup> byte list"

text \<open>
  The enclave's \<open>malloc\<close> is the SDK's: it may fail, and otherwise returns a fresh block of the
  size asked for, with any content.
\<close>

definition malloc_law :: "(nat \<Rightarrow> heap \<Rightarrow> nat option \<times> heap) \<Rightarrow> bool" where
  "malloc_law alloc \<longleftrightarrow>
     (\<forall>n h p h'. alloc n h = (Some p, h') \<longrightarrow> h p = None \<and> (\<exists>b. length b = n \<and> h' = h(p \<mapsto> b))) \<and>
     (\<forall>n h h'. alloc n h = (None, h') \<longrightarrow> h' = h)"

definition ecall_malloc_free :: "(nat \<Rightarrow> heap \<Rightarrow> nat option \<times> heap) \<Rightarrow> heap \<Rightarrow> trap + heap" where
  "ecall_malloc_free alloc h =
     (case alloc 100 h of (ptr, h1) \<Rightarrow>
        (case ptr of
           None \<Rightarrow> Inl Assertion_failed
         | Some p \<Rightarrow>
             (case Option.bind (h1 p) (store 0 (replicate 100 0)) of
                None \<Rightarrow> Inl Undefined_behaviour
              | Some b \<Rightarrow> (let h2 = h1(p \<mapsto> b) in Inr (h2(p := None))))))"

lemma ecall_malloc_free_outcome:
  assumes "malloc_law alloc"
  shows "ecall_malloc_free alloc h = (if fst (alloc 100 h) = None then Inl Assertion_failed else Inr h)"
proof (cases "alloc 100 h")
  case (Pair ptr h1)
  show ?thesis
  proof (cases ptr)
    case None
    with Pair show ?thesis by (simp add: ecall_malloc_free_def)
  next
    case (Some p)
    with Pair assms obtain b where b: "h p = None" "length b = 100" "h1 = h(p \<mapsto> b)"
      unfolding malloc_law_def by metis
    then have "(h(p := None)) = h" by auto
    with Pair Some b show ?thesis by (simp add: ecall_malloc_free_def store_def)
  qed
qed

definition ecall_sgx_cpuid :: "(int list \<Rightarrow> int \<Rightarrow> bool \<times> int list) \<Rightarrow> int list \<Rightarrow> int \<Rightarrow> trap + int list" where
  "ecall_sgx_cpuid sgx_cpuid cpuinfo leaf =
     (case sgx_cpuid cpuinfo leaf of (success, info) \<Rightarrow> then_do (must Aborted success) (\<lambda>_. Inr info))"

section \<open>The application's drivers\<close>

text \<open>\<open>sgx_cpuid\<close> is the SDK's function; \<open>cpuinfo\<close> is an \<open>[out]\<close> array.\<close>

definition ecall_libc_functions ::
  "int edge \<Rightarrow> edge_calls \<Rightarrow> (nat \<Rightarrow> heap \<Rightarrow> nat option \<times> heap) \<Rightarrow> heap \<Rightarrow>
   (int list \<Rightarrow> int \<Rightarrow> bool \<times> int list) \<Rightarrow> trap + unit" where
  "ecall_libc_functions B V alloc h sgx_cpuid =
     then_do (void_ok (call_void V (then_do (ecall_malloc_free alloc h) (\<lambda>_. Inr ())))) (\<lambda>_.
     then_do (call_ok (call_out B 4 (\<lambda>cpuinfo. ecall_sgx_cpuid sgx_cpuid cpuinfo 0) [0, 0, 0, 0])) (\<lambda>_.
     Inr ()))"

definition ecall_libcxx_functions :: "edge_calls \<Rightarrow> bool \<Rightarrow> bool \<Rightarrow> trap + unit" where
  "ecall_libcxx_functions V error_ok clone_ok =
     then_do (void_ok (call_void V (ecall_exception error_ok clone_ok))) (\<lambda>_.
     void_ok (call_void V (then_do ecall_map (\<lambda>_. Inr ()))))"

section \<open>How the demos end\<close>

text \<open>
  A trap inside the enclave (\<open>abort\<close>, a failed assertion) ends the process or makes the call fail;
  in any case the call does not succeed.
\<close>

definition crash_law :: "'a \<Rightarrow> 'a edge \<Rightarrow> edge_calls \<Rightarrow> bool" where
  "crash_law zero B V \<longleftrightarrow>
     (\<forall>t. t \<noteq> Undefined_behaviour \<longrightarrow>
        call_void V (Inl t) = Inl t \<or> (\<exists>st. st \<noteq> SGX_SUCCESS \<and> call_void V (Inl t) = Inr st)) \<and>
     (\<forall>n f m t. t \<noteq> Undefined_behaviour \<longrightarrow> n \<le> length m \<longrightarrow> f (replicate n zero) = Inl t \<longrightarrow>
        call_out B n f m = Inl t \<or> (\<exists>st m'. st \<noteq> SGX_SUCCESS \<and> call_out B n f m = Inr (st, m')))"

lemma crash_lawD:
  assumes "crash_law zero B V" "t \<noteq> Undefined_behaviour"
  shows "call_void V (Inl t) = Inl t \<or> (\<exists>st. st \<noteq> SGX_SUCCESS \<and> call_void V (Inl t) = Inr st)"
    and "n \<le> length m \<Longrightarrow> f (replicate n zero) = Inl t \<Longrightarrow>
      call_out B n f m = Inl t \<or> (\<exists>st m'. st \<noteq> SGX_SUCCESS \<and> call_out B n f m = Inr (st, m'))"
  using assms by (simp_all add: crash_law_def)

text \<open>
  \<open>r\<close> is the end of a demo whose own conditions are \<open>good\<close>: it returns only if they hold, returns
  when they do and no bridge fails, and is never undefined.
\<close>

definition demo_end :: "bool \<Rightarrow> bool \<Rightarrow> trap + unit \<Rightarrow> bool" where
  "demo_end reliable good r \<longleftrightarrow>
     r \<in> {Inr (), Inl Aborted, Inl Assertion_failed} \<and> (r = Inr () \<longrightarrow> good) \<and> (reliable \<and> good \<longrightarrow> r = Inr ())"

lemma demo_end_then:
  "demo_end reliable c m \<Longrightarrow> (c \<Longrightarrow> demo_end reliable d (k ())) \<Longrightarrow> demo_end reliable (c \<and> d) (then_do m k)"
  by (auto simp: demo_end_def)

text \<open>One call of an ecall without pointers, and of one with an \<open>[out]\<close> array.\<close>

lemma demo_end_void:
  assumes law: "edge_calls_law reliable V" "crash_law zero B V"
    and r: "r \<noteq> Inl Undefined_behaviour" "good \<longleftrightarrow> r = Inr ()"
  shows "demo_end reliable good (void_ok (call_void V r))"
proof (cases r)
  case (Inl t)
  with crash_lawD(1) [OF law(2), of t] r show ?thesis by (cases t) (auto simp: demo_end_def void_ok_def must_def)
next
  case (Inr u)
  from law(1) obtain st where "call_void V (Inr ()) = Inr st" "reliable \<longrightarrow> st = SGX_SUCCESS"
    by (auto simp: edge_calls_law_def)
  with Inr r(2) show ?thesis by (auto simp: demo_end_def void_ok_def must_def)
qed

lemma demo_end_cpuid:
  assumes law: "edge_law reliable 0 B" "crash_law 0 B V"
  shows "demo_end reliable (fst (sgx_cpuid [0, 0, 0, 0] 0))
    (then_do (call_ok (call_out B 4 (\<lambda>cpuinfo. ecall_sgx_cpuid sgx_cpuid cpuinfo 0) [0, 0, 0, 0])) (\<lambda>_. Inr ()))"
proof -
  let ?f = "\<lambda>cpuinfo. ecall_sgx_cpuid sgx_cpuid cpuinfo 0" and ?call = "\<lambda>f. call_out B 4 f [0, 0, 0, 0]"
  have zeros: "replicate 4 0 = [0, 0, 0, 0 :: int]" by (simp add: numeral_eq_Suc)
  obtain success info where cpuid: "sgx_cpuid [0, 0, 0, 0] 0 = (success, info)" by (metis prod.exhaust)
  show ?thesis
  proof (cases success)
    case True
    then have "?f (replicate 4 0) = Inr info" by (simp add: zeros cpuid ecall_sgx_cpuid_def)
    then have "returns reliable (?call ?f) [0, 0, 0, 0] (info @ drop 4 [0, 0, 0, 0])"
      by (intro edge_law_calls(2) [OF law(1)]) simp_all
    with True cpuid show ?thesis by (auto simp: returns_def call_ok_def must_def demo_end_def)
  next
    case False
    then have "?f (replicate 4 0) = Inl Aborted" by (simp add: zeros cpuid ecall_sgx_cpuid_def)
    then have "?call ?f = Inl Aborted \<or> (\<exists>st m'. st \<noteq> SGX_SUCCESS \<and> ?call ?f = Inr (st, m'))"
      by (intro crash_lawD(2) [OF law(2)]) simp_all
    with False cpuid show ?thesis by (auto simp: call_ok_def must_def demo_end_def)
  qed
qed

text \<open>
  C35: How the library demos end, whatever fails: the exception demo returns when both exception
  objects can be built and the message has no zero byte, aborts when only the handler's own object
  cannot, and fails its assertion otherwise; the \<open>malloc\<close> demo fails its assertion when there is no
  block and otherwise leaves the heap as it was; the application's two drivers are never undefined,
  return only if nothing failed in the enclave, and do return then over bridges that do not fail.
\<close>

theorem trusted_library_demos_end:
  assumes "edge_law reliable 0 B" "edge_calls_law reliable V" "crash_law 0 B V" "malloc_law alloc"
  shows "exception_demo error_ok clone_ok foo =
      (if \<not> error_ok \<or> CHR 0x00 \<in> set foo then Inl Assertion_failed
       else if \<not> clone_ok then Inl Aborted else Inr ()) \<and>
    ecall_malloc_free alloc h = (if fst (alloc 100 h) = None then Inl Assertion_failed else Inr h) \<and>
    demo_end reliable (fst (alloc 100 h) \<noteq> None \<and> fst (sgx_cpuid [0, 0, 0, 0] 0))
      (ecall_libc_functions B V alloc h sgx_cpuid) \<and>
    demo_end reliable (error_ok \<and> clone_ok) (ecall_libcxx_functions V error_ok clone_ok)"
proof (intro conjI)
  note void = demo_end_void [OF assms(2,3)]
  show "demo_end reliable (fst (alloc 100 h) \<noteq> None \<and> fst (sgx_cpuid [0, 0, 0, 0] 0))
      (ecall_libc_functions B V alloc h sgx_cpuid)"
    unfolding ecall_libc_functions_def
    by (rule demo_end_then, rule void, simp_all only: ecall_malloc_free_outcome [OF assms(4)])
      (auto intro: demo_end_cpuid [OF assms(1,3)])
  have map_demo: "demo_end reliable True (void_ok (call_void V (then_do ecall_map (\<lambda>_. Inr ()))))"
    by (rule void) (simp_all add: ecall_map_passes)
  have "demo_end reliable ((error_ok \<and> clone_ok) \<and> True) (ecall_libcxx_functions V error_ok clone_ok)"
    unfolding ecall_libcxx_functions_def
    by (rule demo_end_then, rule void) (simp_all add: ecall_exception_def exception_demo_outcome map_demo)
  then show "demo_end reliable (error_ok \<and> clone_ok) (ecall_libcxx_functions V error_ok clone_ok)" by simp
qed (simp_all add: exception_demo_outcome ecall_malloc_free_outcome [OF assms(4)])

definition example_malloc :: "nat \<Rightarrow> heap \<Rightarrow> nat option \<times> heap" where
  "example_malloc n h = (if h 1 = None then (Some 1, h(1 \<mapsto> replicate n 0xaa)) else (None, h))"

lemma example_malloc_law: "malloc_law example_malloc"
  unfolding malloc_law_def
proof (intro conjI allI impI)
  fix n h p h'
  assume "example_malloc n h = (Some p, h')"
  then have "h p = None \<and> h' = h(p \<mapsto> replicate n 0xaa)" by (auto simp: example_malloc_def split: if_splits)
  then show "h p = None" "\<exists>b. length b = n \<and> h' = h(p \<mapsto> b)" by (blast, metis length_replicate)
qed (simp add: example_malloc_def split: if_splits)

lemma example_crash_law: "crash_law zero (example_edge zero) example_edge_calls"
  by (simp add: crash_law_def example_edge_calls_def example_edge_def)

text \<open>A processor that does not answer \<open>cpuid\<close>, and one that does.\<close>

theorem trusted_library_demos_end_witness:
  "ecall_libc_functions (example_edge 0) example_edge_calls example_malloc Map.empty (\<lambda>info leaf. (True, [1, 2, 3, 4])) = Inr () \<and>
   ecall_libc_functions (example_edge 0) example_edge_calls example_malloc Map.empty (\<lambda>info leaf. (False, info)) \<noteq> Inr () \<and>
   ecall_libcxx_functions example_edge_calls True True = Inr ()"
proof -
  note run = trusted_library_demos_end [OF example_edge_law example_edge_calls_law example_crash_law example_malloc_law,
      of True True "[]" Map.empty]
  have "fst (example_malloc 100 Map.empty) \<noteq> None" by (simp add: example_malloc_def)
  with run [of "\<lambda>info leaf. (True, [1, 2, 3, 4])"] run [of "\<lambda>info leaf. (False, info)"] show ?thesis
    by (auto simp: demo_end_def)
qed

end
