(* ===== verification/Spec2Isabelle.thy ===== *)
theory Spec2Isabelle
  imports Msg_Layouts Provider_Protocol Key_Agreement Thread_Demo Basic_Enclave Trusted_Library
begin

text \<open>
  Verification of the SGX experiments: the remote attestation sample
  (\<open>code-experiments/attestation/remote\<close>) and the basic enclave
  (\<open>code-experiments/basic-enclave\<close>).

  \<^bold>\<open>The attestation sample.\<close>  An untrusted application (\<open>app/app.cpp\<close>) and its enclave
  (\<open>enclave/enclave.cpp\<close>) attest to a service provider (\<open>service_provider/\<close>) over a simulated
  network in the same process.  Message 0 registers the provider with a simulated attestation
  server and returns a list of attestation keys; message 1 brings the enclave's key \<open>g_a\<close>;
  the provider answers with message 2, which carries its key \<open>g_b\<close>, a signature and a MAC, and
  keeps four session keys; the SDK turns message 2 into message 3.  The exchange of message 3 is
  commented out in the source on both sides.
  \<^item> \<open>Prelude\<close>: machine types, little-endian images, memory blocks with bounds-checked access, and
    the sequencing of C statements with early exits (\<open>attempt\<close>) with its Hoare triples.  Undefined
    behaviour is the explicit outcome \<open>Undefined\<close>.
  \<^item> \<open>Crypto_Api\<close>, \<open>Example_Platform\<close>: the binary \<open>sample_libcrypto\<close>, malloc and free as a record
    of functions over an abstract world, the laws its header documents, and a concrete instance that
    satisfies them all, on which the witnesses run.  Two fields of the record say whether the platform
    defines an access that ISO C leaves undefined: a misaligned 16-bit store, and a copy of no bytes
    from a null pointer.
  \<^item> \<open>Ecp\<close>: \<open>ecp.cpp\<close>, both compile-time variants of \<open>derive_key\<close>, \<open>memcpy_s\<close> and
    \<open>verify_cmac128\<close>; the derivation is shown to compute the documented CMAC key expansion, or the
    halves of one hash.
  \<^item> \<open>Wire\<close>: the enumerations and packed structures of \<open>network_ra.h\<close> and
    \<open>service_provider.h\<close>; offsets are computed from the list of field sizes.
  \<^item> \<open>Layouts\<close>: C types, and every structure of the attestation headers as a list of typed members;
    a member access reads a value of the member's declared type, and the sizes and offsets agree
    with those \<open>Wire\<close> computes.  \<open>Msg_Layouts\<close> reads the exchange of messages 1 and 2 through these
    declarations (\<open>msg2_typed\<close>).
  \<^item> \<open>Ias_Ra\<close>: the simulated attestation server (\<open>ias_ra.cpp\<close>).
  \<^item> \<open>Sp_Constants\<close>, \<open>Service_Provider\<close>: keys and tables, the globals of
    \<open>service_provider.cpp\<close> as the record \<open>sp_state\<close>, and the handlers of message 0 and message 1,
    statement by statement.  \<open>Sp_Correctness\<close> proves the triples of message 1 on a platform that
    defines both accesses above, \<open>Sp_Platform\<close> that on any platform message 1 does the same until it
    is undefined at one of them, \<open>Sp_Handlers\<close> the
    contract both handlers share (locale \<open>request_handler\<close>), \<open>Sp_Properties\<close> the properties, and
    \<open>Sp_Session\<close> what message 1 keeps and stores besides.
  \<^item> \<open>Network_Ra\<close>: \<open>network_ra.cpp\<close>; runs of requests and releases are the step relation
    \<open>net_step\<close>.
  \<^item> \<open>Provider_Protocol\<close>: the provider's promise as an abstract machine (registered or not, the current
    session, unreleased responses) whose events are requests with their answers; the provider
    refines it (\<open>provider_refines_protocol\<close>), so that the order of events is that of the protocol.
  \<^item> \<open>Sgx_Api\<close>, \<open>Isv_Enclave\<close>: the SDK's status codes and libraries, and the ecalls of the enclave;
    both sides of the supplied derivation are shown to agree.
  \<^item> \<open>Isv_App\<close>, \<open>App_Correctness\<close>: \<open>main\<close> of the application as a chain of its steps, its retry
    loops, \<open>CLEANUP\<close>; which blocks are live at which stage.
  \<^item> \<open>App_Session\<close>: the composition of application, SDK, network and provider over a whole run:
    \<open>app_main_session\<close> (a finished run is an attested session) and \<open>app_main_completes\<close> (a run in
    which no call fails finishes).
  \<^item> \<open>Key_Agreement\<close>: the enclave and the provider after such a run hold the same keys, whichever
    derivation is compiled in (\<open>attested_channel\<close>).

  \<^bold>\<open>The basic enclave.\<close>
  \<^item> \<open>C_Int\<close>: traps (abort, failed assertion, undefined behaviour), 32-bit \<open>int\<close> arithmetic with
    overflow and truncating division, the C string functions used.
  \<^item> \<open>Basic_Enclave\<close>: \<open>Enclave/Enclave.cpp\<close> and \<open>App/App.cpp\<close>.
  \<^item> \<open>Edger8r\<close>, \<open>Edger8r_App\<close>: the interface demos (\<open>Edger8rSyntax\<close>) on both sides; every ecall is a
    function on the block it is given, the drivers run them over bridges.
  \<^item> \<open>Trusted_Library\<close>: the C and C++ library demos (\<open>TrustedLibrary\<close>): the C library ecalls on a
    heap of blocks, the map, and a C++ exception as a value matched by its handlers in order;
    \<open>demo_end\<close> says how a demo ends when something in it fails and when nothing does.
  \<^item> \<open>Transition_System\<close>: locales for invariants, termination and absence of deadlock of interleaved
    threads, and for a detailed system that simulates a coarse one, with or without stuttering; the
    thread demos interpret them.
  \<^item> \<open>Counter_Threads\<close>: four threads incrementing a shared counter under a mutex, each read and write
    a step of its own.
  \<^item> \<open>Cond_Buffer\<close>, \<open>Buffer_Threads\<close>: the circular buffer as a refinement of a bounded queue, and
    the producer and consumers with their condition variables.
  \<^item> \<open>Buffer_Steps\<close>: the same threads with every load and store of a body a step of its own; they
    simulate \<open>Buffer_Threads\<close>, whose bodies are one step.
  \<^item> \<open>Thread_Demo\<close>: \<open>ecall_thread_functions\<close> of the application as a whole, the creation of the
    threads, both demos and their joins.

  \<^bold>\<open>Parameters and laws.\<close>  Code outside the repository is a parameter: \<open>libcrypto\<close> and
  \<open>sha_api\<close> (the sample library), \<open>sgx_tke\<close>, \<open>sgx_urts\<close> and \<open>basic_sdk\<close> (the SDK), \<open>edge\<close>,
  \<open>edge_calls\<close> and \<open>arith_bridge\<close> (the bridges the build generates from the \<open>.edl\<close> files).  What
  the code relies on is a named law (\<open>cmac_law\<close>, \<open>sizes_law\<close>, \<open>heap_law\<close>, \<open>sha_law\<close>,
  \<open>urts_law\<close>, \<open>tke_session\<close>, \<open>edge_law\<close>, \<open>crash_law\<close>, \<open>fp_law\<close> and others), satisfied by an
  example instance.  The laws allow every call to fail unless a theorem says otherwise.
  \<open>platform_law\<close> says that the platform defines the two accesses of message 1 that ISO C does not, as
  the compilers the makefiles name do on x86-64; the theorems on whole runs of provider and
  application assume it, those on a single message 1 do not, and \<open>msg1_safe\<close> says what holds without it.

  \<^bold>\<open>Bounds.\<close>  Nothing is cut off by fuel: retry loops recurse on the code's own retry counters, index
  loops on the rounds left.  The counter threads take at most 10008 steps from the start; without
  spurious wake-ups the producer and consumers take 36005 coarse steps, 2196305 detailed ones, and
  the whole thread demo 2206315; the measures are in the theories.

  \<^bold>\<open>Abstractions.\<close>  The statements of a producer's or consumer's body are one step of
  \<open>Buffer_Threads\<close>; that this loses nothing is the simulation of \<open>Buffer_Steps\<close>.  A signal wakes any
  one waiting thread.  What the application prints is kept, each write an element of
  \<open>printed\<close>.  The diagnostics on \<open>stderr\<close> of the provider, the network and the simulated server are left
  out, and so are the pauses between retries and the test of \<open>ret\<close> right after \<open>ret = 0\<close> at the start of
  \<open>main\<close>, which cannot fail.  Assertions are taken as enabled, as in the debug build.

  \<^bold>\<open>Not modelled.\<close>  The message 3 handler and the exchange that would call it (commented out in
  the source); terminal input; AES-GCM of the sample library and the other library functions no source
  calls; makefiles, docker files and \<open>.edl\<close> code generation.

  \<^bold>\<open>Findings.\<close>  An unsupported group is answered like a supported one (\<open>msg0_unsupported_group_ok\<close>);
  the application exits with 0 whatever happened (\<open>app_main_exit_zero\<close>), leaks on success
  (\<open>app_main_heap\<close>) and reports a failed close as a success too (\<open>close_context_prints\<close>); a mismatching
  secret hides the decryption error (\<open>put_secret_data_result\<close>);
  \<open>divide\<close> guards the pointer instead of the divisor (\<open>divide_defined_iff\<close>), and the basic
  application ignores the statuses of its ecalls (\<open>basic_main_output\<close>).  Message 1 makes two accesses
  that are undefined in ISO C: the misaligned store of the key length for the SMK
  (\<open>derive_key_undefined\<close>, \<open>msg1_safe\<close>) and the copy of no bytes from the null revocation list
  (\<open>msg1_iso_c\<close>).  The endian macro of the simulated server makes misaligned 32-bit accesses in a
  packed structure, which the model takes as x86-64 makes them.
\<close>

end
